(* ===== verification/Prelude.thy ===== *)
theory Prelude
  imports Main
begin

text \<open>
  Shared vocabulary of the calendar development: the types that name the model's
  values, the collection \<open>calendar_simps\<close> of characteristic equations that the
  component theories register, and the arithmetic facts about floor division that
  the ECMAScript date computations (\<open>DayFromYear\<close>, \<open>MakeDay\<close>) rely on.
  Isabelle's \<open>div\<close> and \<open>mod\<close> on \<open>int\<close> round towards minus infinity, which is
  exactly ECMAScript's \<open>floor\<close> and its \<open>modulo\<close> on mathematical values.
\<close>

named_theorems calendar_simps "characteristic equations of the calendar model"

type_synonym day = int
  \<comment> \<open>a Date's time value at day granularity: days since 1970-01-01, local time\<close>

type_synonym tz_offset = int
  \<comment> \<open>the host's local time zone offset, in minutes east of UTC (LocalTZA)\<close>

type_synonym date_key = string
  \<comment> \<open>the string a calendar cell is identified by (\<open>formattedDate\<close>)\<close>

type_synonym memo_obj = "(string \<times> string) list"
  \<comment> \<open>a plain JavaScript object with string values, in property order\<close>

lemma div_succ_int:
  fixes a n :: int
  assumes n: "1 < n"
  shows "(a + 1) div n = a div n + (if (a + 1) mod n = 0 then 1 else 0)"
proof -
  have split: "(a + 1) div n = a div n + (a mod n + 1) div n"
    using div_add1_eq[of a 1 n] n by simp
  have r: "0 \<le> a mod n" "a mod n < n" using n by simp_all
  have m: "(a + 1) mod n = (a mod n + 1) mod n"
    by (simp add: mod_add_left_eq)
  show ?thesis
  proof (cases "a mod n + 1 = n")
    case True
    then show ?thesis using split m n by simp
  next
    case False
    with r have "a mod n + 1 < n" by linarith
    then show ?thesis using split m r by simp
  qed
qed

lemma shifted_div_succ:
  fixes y c n :: int
  assumes n: "1 < n" and c: "c = n * k + 1"
  shows "(y + 1 - c) div n = (y - c) div n + (if y mod n = 0 then 1 else 0)"
proof -
  have "(y - c + 1) mod n = (y + (- k) * n) mod n" using c by (simp add: algebra_simps)
  also have "\<dots> = y mod n" by (rule mod_mult_self1)
  finally have "(y - c + 1) mod n = y mod n" .
  then show ?thesis using div_succ_int[OF n, of "y - c"] by (simp add: algebra_simps)
qed

lemma mod_dvd_zero:
  fixes y :: int
  assumes "c dvd b" and "y mod b = 0"
  shows "y mod c = 0"
  using mod_mod_cancel[OF assms(1), of y] assms(2) by simp

lemma div_neg_small:
  fixes a n :: int
  assumes "- n \<le> a" "a < 0"
  shows "a div n = - 1"
proof -
  have n: "0 < n" using assms by linarith
  have "a div n = (n + a) div n - 1"
    using div_add_self1[of n a] n by simp
  also have "(n + a) div n = 0"
    using assms n by (intro div_pos_pos_trivial) simp_all
  finally show ?thesis by simp
qed

text \<open>An integer in a small closed range is one of its elements.\<close>

lemma int_range_12:
  fixes m :: int
  assumes "0 \<le> m" "m < 12"
  shows "m = 0 \<or> m = 1 \<or> m = 2 \<or> m = 3 \<or> m = 4 \<or> m = 5 \<or> m = 6 \<or> m = 7 \<or>
    m = 8 \<or> m = 9 \<or> m = 10 \<or> m = 11"
  using assms by presburger

lemma int_range_7:
  fixes m :: int
  assumes "0 \<le> m" "m < 7"
  shows "m = 0 \<or> m = 1 \<or> m = 2 \<or> m = 3 \<or> m = 4 \<or> m = 5 \<or> m = 6"
  using assms by presburger

text \<open>Lists of consecutive integers, the shape of a run of calendar days.\<close>

lemma whole_weeks_count:
  fixes x :: int
  assumes "27 \<le> x" "x \<le> 36"
  shows "nat (x + 7 - x mod 7) \<in> {28, 35, 42}"
proof -
  have "x = 27 \<or> x = 28 \<or> x = 29 \<or> x = 30 \<or> x = 31 \<or> x = 32 \<or> x = 33 \<or> x = 34 \<or>
      x = 35 \<or> x = 36"
    using assms by presburger
  then show ?thesis by (elim disjE) simp_all
qed

lemma map_add_upto: "map (\<lambda>n. n + k) [a..b] = [a + k..b + k]"
  by (rule nth_equalityI) simp_all

lemma upto_split3_int:
  fixes a b c d :: int
  assumes "a \<le> b" "b \<le> c" "c \<le> d"
  shows "[a..d] = [a..b - 1] @ [b..c] @ [c + 1..d]"
proof -
  have "[a..d] = [a..b - 1] @ [b..d]" using assms by (intro upto_split1) simp_all
  moreover have "[b..d] = [b..c] @ [c + 1..d]" using assms by (intro upto_split2) simp_all
  ultimately show ?thesis by simp
qed

lemma length_filter_key_le_1:
  "distinct (map f xs) \<Longrightarrow> length (filter (\<lambda>x. f x = k) xs) \<le> 1"
proof (induction xs)
  case Nil
  then show ?case by simp
next
  case (Cons x xs)
  show ?case
  proof (cases "f x = k")
    case True
    with Cons.prems have "filter (\<lambda>x. f x = k) xs = []"
      by (auto simp: filter_empty_conv image_iff)
    with True show ?thesis by simp
  next
    case False
    with Cons show ?thesis by simp
  qed
qed

end
