(* ===== verification/DateArith.thy ===== *)
theory DateArith
  imports Prelude
begin

text \<open>
  Year and month arithmetic of ECMAScript's Date (ECMA-262, section "Days in Year",
  "Month from a Time Value"), which \<^verbatim>\<open>src/src/App.jsx\<close> reaches through
  \<open>new Date(y, m, d)\<close>, \<open>getFullYear\<close>, \<open>getMonth\<close>, \<open>getDate\<close> and
  \<open>setDate\<close>. Time values are counted in days; the operations below are the
  specification's \<open>DayFromYear\<close>, \<open>DaysInYear\<close>, \<open>InLeapYear\<close> and the table of
  month starts that \<open>MonthFromTime\<close> and \<open>DateFromTime\<close> are written with.
  The lemmas show that consecutive years are adjacent (\<open>day_from_year_succ\<close>), that
  \<open>DayFromYear\<close> is strictly increasing, and that the month table partitions a year.
\<close>

definition day_from_year :: "int \<Rightarrow> day" where
  "day_from_year y =
     365 * (y - 1970) + (y - 1969) div 4 - (y - 1901) div 100 + (y - 1601) div 400"

definition days_in_year :: "int \<Rightarrow> int" where
  "days_in_year y =
     (if y mod 400 = 0 then 366
      else if y mod 100 = 0 then 365
      else if y mod 4 = 0 then 366
      else 365)"

definition leap_of_year :: "int \<Rightarrow> int" where
  "leap_of_year y = (if days_in_year y = 366 then 1 else 0)"

text \<open>
  \<open>month_start il m\<close> is the day within the year on which month \<open>m\<close> (0 to 11)
  starts, \<open>il\<close> being \<open>InLeapYear\<close>; these are the constants of the specification's
  \<open>MonthFromTime\<close> and \<open>DateFromTime\<close> tables. Index 12 is the length of the year.
\<close>

definition month_start :: "int \<Rightarrow> int \<Rightarrow> int" where
  "month_start il m =
     (if m = 0 then 0 else if m = 1 then 31 else if m = 2 then 59 + il
      else if m = 3 then 90 + il else if m = 4 then 120 + il else if m = 5 then 151 + il
      else if m = 6 then 181 + il else if m = 7 then 212 + il else if m = 8 then 243 + il
      else if m = 9 then 273 + il else if m = 10 then 304 + il else if m = 11 then 334 + il
      else 365 + il)"

definition days_in_month :: "int \<Rightarrow> int \<Rightarrow> int" where
  "days_in_month y m = month_start (leap_of_year y) (m + 1) - month_start (leap_of_year y) m"

lemma day_from_year_succ [calendar_simps]:
  "day_from_year (y + 1) = day_from_year y + days_in_year y"
proof -
  have a: "(y + 1 - 1969) div 4 = (y - 1969) div 4 + (if y mod 4 = 0 then 1 else 0)"
    by (rule shifted_div_succ[where k = 492]) simp_all
  have b: "(y + 1 - 1901) div 100 = (y - 1901) div 100 + (if y mod 100 = 0 then 1 else 0)"
    by (rule shifted_div_succ[where k = 19]) simp_all
  have c: "(y + 1 - 1601) div 400 = (y - 1601) div 400 + (if y mod 400 = 0 then 1 else 0)"
    by (rule shifted_div_succ[where k = 4]) simp_all
  have d1: "y mod 400 = 0 \<Longrightarrow> y mod 100 = 0"
    by (rule mod_dvd_zero[of 100 400]) simp_all
  have d2: "y mod 100 = 0 \<Longrightarrow> y mod 4 = 0"
    by (rule mod_dvd_zero[of 4 100]) simp_all
  have e: "day_from_year (y + 1) = day_from_year y + 365 + (if y mod 4 = 0 then 1 else 0)
      - (if y mod 100 = 0 then 1 else 0) + (if y mod 400 = 0 then 1 else 0)"
    unfolding day_from_year_def a b c by (simp add: algebra_simps)
  show ?thesis
    unfolding e days_in_year_def using d1 d2
    by (cases "y mod 400 = 0"; cases "y mod 100 = 0"; cases "y mod 4 = 0") simp_all
qed

lemma days_in_year_bounds: "365 \<le> days_in_year y" "days_in_year y \<le> 366"
  by (simp_all add: days_in_year_def)

lemma leap_of_year_bounds: "0 \<le> leap_of_year y" "leap_of_year y \<le> 1"
  by (simp_all add: leap_of_year_def)

lemma days_in_year_leap: "days_in_year y = 365 + leap_of_year y"
  by (simp add: leap_of_year_def days_in_year_def)

lemma day_from_year_1970 [calendar_simps]: "day_from_year 1970 = 0"
  by (simp add: day_from_year_def)

lemma day_from_year_less_succ: "day_from_year y < day_from_year (y + 1)"
  using days_in_year_bounds(1)[of y] by (simp add: day_from_year_succ)

lemma day_from_year_strict_mono:
  assumes "y < y'"
  shows "day_from_year y < day_from_year y'"
  using assms
proof (induction y' rule: int_gr_induct)
  case base
  show ?case by (rule day_from_year_less_succ)
next
  case (step i)
  then show ?case using day_from_year_less_succ[of i] by linarith
qed

lemma day_from_year_le_iff [calendar_simps]:
  "day_from_year y \<le> day_from_year y' \<longleftrightarrow> y \<le> y'"
proof
  assume "day_from_year y \<le> day_from_year y'"
  then show "y \<le> y'" using day_from_year_strict_mono[of y' y] by linarith
next
  assume "y \<le> y'"
  then show "day_from_year y \<le> day_from_year y'"
    using day_from_year_strict_mono[of y y'] by (cases "y = y'") auto
qed

lemma day_from_year_less_iff [calendar_simps]:
  "day_from_year y < day_from_year y' \<longleftrightarrow> y < y'"
  by (simp add: day_from_year_le_iff linorder_not_le [symmetric])

text \<open>Bounds that place any day between two years close to 1970 plus its
  distance.\<close>

lemma day_from_year_upper_nonneg:
  fixes k :: int
  assumes "0 \<le> k"
  shows "day_from_year (1970 + k) \<le> 366 * k"
  using assms
proof (induction k rule: int_ge_induct)
  case base
  show ?case by (simp add: day_from_year_1970)
next
  case (step i)
  have "day_from_year (1970 + (i + 1)) = day_from_year (1970 + i) + days_in_year (1970 + i)"
    using day_from_year_succ[of "1970 + i"] by (simp add: add.assoc)
  then show ?case using step.IH days_in_year_bounds(2)[of "1970 + i"] by simp
qed

lemma day_from_year_upper_nonpos:
  fixes k :: int
  assumes "k \<le> 0"
  shows "day_from_year (1970 + k) \<le> 365 * k"
  using assms
proof (induction k rule: int_le_induct)
  case base
  show ?case by (simp add: day_from_year_1970)
next
  case (step i)
  have "day_from_year (1970 + (i - 1) + 1) = day_from_year (1970 + (i - 1)) + days_in_year (1970 + (i - 1))"
    by (rule day_from_year_succ)
  then show ?case using step.IH days_in_year_bounds(1)[of "1970 + (i - 1)"] by simp
qed

lemma month_start_succ_pos:
  assumes "0 \<le> m" "m < 12" "0 \<le> il"
  shows "month_start il m < month_start il (m + 1)"
  using int_range_12[OF assms(1,2)] assms(3) by (elim disjE) (simp_all add: month_start_def)

lemma month_start_0 [calendar_simps]: "month_start il 0 = 0"
  by (simp add: month_start_def)

lemma month_start_12 [calendar_simps]: "month_start il 12 = 365 + il"
  by (simp add: month_start_def)

lemma month_start_mono:
  assumes "0 \<le> m" "m \<le> m'" "m' \<le> 12" "0 \<le> il"
  shows "month_start il m \<le> month_start il m'"
  using assms(2,1,3)
proof (induction m' rule: int_ge_induct)
  case base
  show ?case by simp
next
  case (step i)
  then show ?case using month_start_succ_pos[of i il] assms(4) by linarith
qed

lemma days_in_month_bounds:
  assumes "0 \<le> m" "m < 12"
  shows "28 \<le> days_in_month y m \<and> days_in_month y m \<le> 31"
  using int_range_12[OF assms] leap_of_year_bounds[of y]
  by (elim disjE) (simp_all add: days_in_month_def month_start_def)

end
