(* ===== verification/JsDate.thy ===== *)
theory JsDate
  imports DateArith
begin

text \<open>
  The Date operations \<^verbatim>\<open>src/src/App.jsx\<close> calls, at day granularity. A Date object
  is its local time value in days (\<open>day\<close>); with a fixed time zone offset the
  conversions \<open>LocalTime\<close>/\<open>UTC\<close> that the getters and the constructor apply cancel,
  so every getter below reads the local day directly (the one UTC reading,
  \<open>toISOString\<close>, is modelled in \<open>DateKey\<close>).
  \<^item> \<open>year_from_time\<close> is ECMA-262's \<open>YearFromTime\<close>, "the largest integral \<open>y\<close>
    with \<open>TimeFromYear(y) \<le> t\<close>", computed by a scan upward from a year that is
    known to start no later than \<open>t\<close>; \<open>month_from_time\<close>, \<open>date_from_time\<close> and
    \<open>week_day\<close> are \<open>MonthFromTime\<close>, \<open>DateFromTime\<close> and \<open>WeekDay\<close>
    (\<open>getMonth\<close>, \<open>getDate\<close>, \<open>getDay\<close>);
  \<^item> \<open>make_day\<close> is \<open>MakeDay\<close>, which normalises an out-of-range month and day;
    \<open>new_date\<close> is the constructor \<open>new Date(y, m, d)\<close> with its two-digit-year
    rule (years 0 to 99 mean 1900 to 1999); \<open>set_date\<close> is \<open>setDate\<close>.
  The lemmas prove the scan correct and total, the round trip between a time value
  and its components, and the facts the calendar loop needs: \<open>setDate(getDate()+1)\<close>
  is the next day, and the first day of the next month follows the last of this one.
\<close>

function year_scan :: "day \<Rightarrow> int \<Rightarrow> int" where
  "year_scan t y = (if day_from_year (y + 1) \<le> t then year_scan t (y + 1) else y)"
  by pat_completeness auto
termination
proof (relation "measure (\<lambda>(t, y). nat (t - day_from_year y))")
  show "wf (measure (\<lambda>(t, y). nat (t - day_from_year y)))" by simp
next
  fix t y
  assume "day_from_year (y + 1) \<le> t"
  then show "((t, y + 1), t, y) \<in> measure (\<lambda>(t, y). nat (t - day_from_year y))"
    using day_from_year_less_succ[of y] by simp
qed

definition year_lower_bound :: "day \<Rightarrow> int" where
  "year_lower_bound t = 1970 + (if 0 \<le> t then t div 366 else t div 365)"

definition year_from_time :: "day \<Rightarrow> int" where
  "year_from_time t = year_scan t (year_lower_bound t)"

definition in_leap_year :: "day \<Rightarrow> int" where
  "in_leap_year t = leap_of_year (year_from_time t)"

definition day_within_year :: "day \<Rightarrow> int" where
  "day_within_year t = t - day_from_year (year_from_time t)"

text \<open>
  \<open>MonthFromTime\<close> and \<open>DateFromTime\<close> are tables over the day within the year
  \<open>d\<close> and \<open>InLeapYear\<close> \<open>il\<close>; \<open>month_in_year\<close> and \<open>date_in_year\<close> are those
  tables, with the specification's constants.
\<close>

definition month_in_year :: "int \<Rightarrow> int \<Rightarrow> int" where
  "month_in_year il d =
     (if d < 31 then 0 else if d < 59 + il then 1 else if d < 90 + il then 2
      else if d < 120 + il then 3 else if d < 151 + il then 4 else if d < 181 + il then 5
      else if d < 212 + il then 6 else if d < 243 + il then 7 else if d < 273 + il then 8
      else if d < 304 + il then 9 else if d < 334 + il then 10 else 11)"

definition date_in_year :: "int \<Rightarrow> int \<Rightarrow> int \<Rightarrow> int" where
  "date_in_year il d m =
     (if m = 0 then d + 1 else if m = 1 then d - 30 else if m = 2 then d - 58 - il
      else if m = 3 then d - 89 - il else if m = 4 then d - 119 - il
      else if m = 5 then d - 150 - il else if m = 6 then d - 180 - il
      else if m = 7 then d - 211 - il else if m = 8 then d - 242 - il
      else if m = 9 then d - 272 - il else if m = 10 then d - 303 - il
      else d - 333 - il)"

definition month_from_time :: "day \<Rightarrow> int" where
  "month_from_time t = month_in_year (in_leap_year t) (day_within_year t)"

definition date_from_time :: "day \<Rightarrow> int" where
  "date_from_time t = date_in_year (in_leap_year t) (day_within_year t) (month_from_time t)"

definition week_day :: "day \<Rightarrow> int" where
  "week_day t = (t + 4) mod 7"

definition make_day :: "int \<Rightarrow> int \<Rightarrow> int \<Rightarrow> day" where
  "make_day year month date =
     (let ym = year + month div 12; mn = month mod 12
      in day_from_year ym + month_start (leap_of_year ym) mn + date - 1)"

definition js_full_year :: "int \<Rightarrow> int" where
  "js_full_year y = (if 0 \<le> y \<and> y \<le> 99 then 1900 + y else y)"

definition new_date :: "int \<Rightarrow> int \<Rightarrow> int \<Rightarrow> day" where
  "new_date y m d = make_day (js_full_year y) m d"

definition set_date :: "day \<Rightarrow> int \<Rightarrow> day" where
  "set_date t dt = make_day (year_from_time t) (month_from_time t) dt"

declare year_scan.simps [simp del]

subsection \<open>YearFromTime\<close>

lemma year_scan_bounds:
  "day_from_year y \<le> t \<Longrightarrow>
     day_from_year (year_scan t y) \<le> t \<and> t < day_from_year (year_scan t y + 1)"
proof (induction t y rule: year_scan.induct)
  case (1 t y)
  show ?case
  proof (cases "day_from_year (y + 1) \<le> t")
    case True
    with "1.IH" show ?thesis by (simp add: year_scan.simps [of t y])
  next
    case False
    with "1.prems" show ?thesis by (simp add: year_scan.simps [of t y])
  qed
qed

lemma year_lower_bound_le: "day_from_year (year_lower_bound t) \<le> t"
proof (cases "0 \<le> t")
  case True
  have "day_from_year (1970 + t div 366) \<le> 366 * (t div 366)"
    using True by (simp add: day_from_year_upper_nonneg)
  moreover have "366 * (t div 366) \<le> t"
    using mult_div_mod_eq[of 366 t] pos_mod_sign[of 366 t] by linarith
  ultimately show ?thesis using True by (simp add: year_lower_bound_def)
next
  case False
  have "t div 365 \<le> 0" using False by (simp add: div_nonpos_pos_le0)
  then have "day_from_year (1970 + t div 365) \<le> 365 * (t div 365)"
    by (rule day_from_year_upper_nonpos)
  moreover have "365 * (t div 365) \<le> t"
    using mult_div_mod_eq[of 365 t] pos_mod_sign[of 365 t] by linarith
  ultimately show ?thesis using False by (simp add: year_lower_bound_def)
qed

lemma year_from_time_bounds:
  "day_from_year (year_from_time t) \<le> t" "t < day_from_year (year_from_time t + 1)"
  using year_scan_bounds[OF year_lower_bound_le[of t]] by (simp_all add: year_from_time_def)

lemma year_from_time_unique:
  assumes "day_from_year y \<le> t" "t < day_from_year (y + 1)"
  shows "year_from_time t = y"
proof -
  have "year_from_time t < y + 1"
    using assms(2) year_from_time_bounds(1)[of t] day_from_year_le_iff by (meson le_less_trans linorder_not_le)
  moreover have "y < year_from_time t + 1"
    using assms(1) year_from_time_bounds(2)[of t] day_from_year_less_iff by (meson le_less_trans)
  ultimately show ?thesis by simp
qed

lemma year_from_time_within:
  assumes "0 \<le> k" "k < days_in_year y"
  shows "year_from_time (day_from_year y + k) = y"
  using assms by (intro year_from_time_unique) (simp_all add: day_from_year_succ)

lemma day_within_year_bounds:
  "0 \<le> day_within_year t" "day_within_year t < 365 + in_leap_year t"
  using year_from_time_bounds[of t] days_in_year_leap[of "year_from_time t"]
  by (simp_all add: day_within_year_def in_leap_year_def day_from_year_succ)

subsection \<open>MonthFromTime and DateFromTime\<close>

lemma in_leap_year_bounds: "0 \<le> in_leap_year t" "in_leap_year t \<le> 1"
  by (simp_all add: in_leap_year_def leap_of_year_bounds)

lemma month_in_year_bounds:
  assumes "0 \<le> d" "d < 365 + il" "0 \<le> il" "il \<le> 1"
  shows "0 \<le> month_in_year il d" "month_in_year il d < 12"
    "month_start il (month_in_year il d) \<le> d" "d < month_start il (month_in_year il d + 1)"
  using assms by (simp_all add: month_in_year_def month_start_def)

lemma month_in_year_start:
  assumes "0 \<le> m" "m < 12" "0 \<le> j" "j < month_start il (m + 1) - month_start il m"
    "0 \<le> il" "il \<le> 1"
  shows "month_in_year il (month_start il m + j) = m"
  using int_range_12[OF assms(1,2)] assms(3-6)
  by (elim disjE) (simp_all add: month_start_def month_in_year_def)

lemma date_in_year_eq:
  assumes "0 \<le> m" "m < 12"
  shows "date_in_year il d m = d - month_start il m + 1"
  using int_range_12[OF assms] by (elim disjE) (simp_all add: date_in_year_def month_start_def)

lemma month_from_time_range [calendar_simps]:
  "0 \<le> month_from_time t" "month_from_time t < 12"
  using month_in_year_bounds(1,2)[OF day_within_year_bounds in_leap_year_bounds]
  by (simp_all add: month_from_time_def)

lemma date_from_time_eq:
  "date_from_time t = day_within_year t - month_start (in_leap_year t) (month_from_time t) + 1"
  using date_in_year_eq[OF month_from_time_range] by (simp add: date_from_time_def)

lemma date_from_time_bounds:
  "1 \<le> date_from_time t"
  "date_from_time t \<le> days_in_month (year_from_time t) (month_from_time t)"
  using month_in_year_bounds(3,4)[OF day_within_year_bounds in_leap_year_bounds, of t]
  by (simp_all add: date_from_time_eq days_in_month_def month_from_time_def in_leap_year_def)

subsection \<open>MakeDay\<close>

lemma make_day_in_year:
  assumes "0 \<le> m" "m < 12"
  shows "make_day y m d = day_from_year y + month_start (leap_of_year y) m + d - 1"
  using assms by (simp add: make_day_def)

lemma make_day_shift [calendar_simps]: "make_day y m (d + k) = make_day y m d + k"
  by (simp add: make_day_def Let_def)

lemma make_day_offset: "make_day y m d = make_day y m 1 + (d - 1)"
  by (simp add: make_day_def Let_def)

lemma make_day_normalize: "make_day y m d = make_day (y + m div 12) (m mod 12) d"
  by (simp add: make_day_def)

text \<open>A date in range is recovered from its time value: the round trip of
  \<open>new Date(y, m, d)\<close> with \<open>getFullYear\<close>, \<open>getMonth\<close>, \<open>getDate\<close>.\<close>

lemma make_day_components:
  assumes m: "0 \<le> m" "m < 12" and d: "1 \<le> d" "d \<le> days_in_month y m"
  shows "year_from_time (make_day y m d) = y"
    "month_from_time (make_day y m d) = m"
    "date_from_time (make_day y m d) = d"
proof -
  let ?il = "leap_of_year y"
  let ?k = "month_start ?il m + d - 1"
  have il: "0 \<le> ?il" "?il \<le> 1" by (rule leap_of_year_bounds)+
  have "month_start ?il (m + 1) \<le> month_start ?il 12"
    using m il by (intro month_start_mono) simp_all
  moreover have "month_start ?il 0 \<le> month_start ?il m"
    using m il by (intro month_start_mono) simp_all
  ultimately have k: "0 \<le> ?k" "?k < days_in_year y"
    using d by (simp_all add: days_in_month_def days_in_year_leap month_start_12 month_start_0)
  have t: "make_day y m d = day_from_year y + ?k"
    using m by (simp add: make_day_in_year)
  show y: "year_from_time (make_day y m d) = y"
    unfolding t using k by (rule year_from_time_within)
  have w: "day_within_year (make_day y m d) = ?k"
    by (simp add: day_within_year_def y) (simp add: t)
  have l: "in_leap_year (make_day y m d) = ?il"
    by (simp add: in_leap_year_def y)
  have "month_in_year ?il (month_start ?il m + (d - 1)) = m"
    using m d il by (intro month_in_year_start) (simp_all add: days_in_month_def)
  then show mm: "month_from_time (make_day y m d) = m"
    by (simp add: month_from_time_def w l algebra_simps)
  show "date_from_time (make_day y m d) = d"
    by (simp add: date_from_time_eq w l mm)
qed

lemma make_day_of_components [calendar_simps]:
  "make_day (year_from_time t) (month_from_time t) (date_from_time t) = t"
  using month_from_time_range[of t]
  by (simp add: make_day_in_year date_from_time_eq day_within_year_def in_leap_year_def)

text \<open>\<open>setDate(getDate() + 1)\<close> moves a Date to the next day.\<close>

lemma set_date_next [calendar_simps]: "set_date t (date_from_time t + 1) = t + 1"
  using make_day_shift[of "year_from_time t" "month_from_time t" "date_from_time t" 1]
  by (simp add: set_date_def make_day_of_components)

text \<open>The first day of the next month follows the last day of this one.\<close>

lemma make_day_next_month:
  "make_day y (m + 1) 1 = make_day y m 1 + days_in_month (y + m div 12) (m mod 12)"
proof -
  let ?Y = "y + m div 12" and ?M = "m mod 12"
  have M: "0 \<le> ?M" "?M < 12" by simp_all
  have mod1: "(m + 1) mod 12 = (if ?M = 11 then 0 else ?M + 1)"
  proof -
    have "(m + 1) mod 12 = (?M + 1) mod 12" by (simp add: mod_add_left_eq)
    then show ?thesis using M by auto
  qed
  have div1: "(m + 1) div 12 = m div 12 + (if ?M = 11 then 1 else 0)"
    using div_succ_int[of 12 m] mod1 by (simp split: if_splits)
  show ?thesis
  proof (cases "?M = 11")
    case True
    have "make_day y (m + 1) 1 = day_from_year (?Y + 1)"
      using True mod1 div1 by (simp add: make_day_def month_start_0 add.assoc)
    then show ?thesis
      using True by (simp add: make_day_def Let_def day_from_year_succ days_in_month_def
          days_in_year_leap month_start_12)
  next
    case False
    then show ?thesis
      using mod1 div1 by (simp add: make_day_def Let_def days_in_month_def)
  qed
qed

lemma make_day_month_of:
  assumes "1 \<le> d" "d \<le> days_in_month (y + m div 12) (m mod 12)"
  shows "year_from_time (make_day y m d) = y + m div 12"
    "month_from_time (make_day y m d) = m mod 12"
    "date_from_time (make_day y m d) = d"
  using make_day_components[of "m mod 12" d "y + m div 12"] assms
  by (simp_all add: make_day_normalize[of y m d])

lemma week_day_add: "week_day (t + k) = (week_day t + k) mod 7"
proof -
  have "(t + 4 + k) mod 7 = ((t + 4) mod 7 + k) mod 7" by (rule mod_add_left_eq[symmetric])
  then show ?thesis by (simp add: week_day_def ac_simps)
qed

lemma week_day_range: "0 \<le> week_day t" "week_day t < 7"
  by (simp_all add: week_day_def)

lemma js_full_year_range: "\<not> (0 \<le> js_full_year y \<and> js_full_year y \<le> 99)"
  by (simp add: js_full_year_def)

lemma js_full_year_idem [calendar_simps]: "js_full_year (js_full_year y) = js_full_year y"
  using js_full_year_range[of y] by (simp add: js_full_year_def)

text \<open>\<open>YearFromTime\<close> computes the largest year whose first day is not
  after the given day: a year starts on or before \<open>t\<close> exactly when it is at
  most \<open>year_from_time t\<close>.\<close>

lemma year_from_time_greatest:
  "day_from_year y \<le> t \<longleftrightarrow> y \<le> year_from_time t"
proof
  assume "day_from_year y \<le> t"
  then have "day_from_year y < day_from_year (year_from_time t + 1)"
    using year_from_time_bounds(2)[of t] by linarith
  then show "y \<le> year_from_time t" by (simp add: day_from_year_less_iff)
next
  assume "y \<le> year_from_time t"
  then have "day_from_year y \<le> day_from_year (year_from_time t)" by (simp add: day_from_year_le_iff)
  then show "day_from_year y \<le> t" using year_from_time_bounds(1)[of t] by linarith
qed

text \<open>\<open>new Date(y, m, d)\<close> read back with \<open>getFullYear\<close>,
  \<open>getMonth\<close> and \<open>getDate\<close> gives \<open>(y, m, d)\<close> exactly
  when \<open>m\<close> is a month index 0 to 11 and \<open>d\<close> a day of that month;
  otherwise the Date has been normalised to another date.\<close>

lemma make_day_roundtrip:
  "(year_from_time (make_day y m d), month_from_time (make_day y m d), date_from_time (make_day y m d))
     = (y, m, d)
   \<longleftrightarrow> 0 \<le> m \<and> m < 12 \<and> 1 \<le> d \<and> d \<le> days_in_month y m"
proof
  assume e: "(year_from_time (make_day y m d), month_from_time (make_day y m d),
      date_from_time (make_day y m d)) = (y, m, d)"
  then show "0 \<le> m \<and> m < 12 \<and> 1 \<le> d \<and> d \<le> days_in_month y m"
    using month_from_time_range[of "make_day y m d"] date_from_time_bounds[of "make_day y m d"]
    by auto
next
  assume "0 \<le> m \<and> m < 12 \<and> 1 \<le> d \<and> d \<le> days_in_month y m"
  then show "(year_from_time (make_day y m d), month_from_time (make_day y m d),
      date_from_time (make_day y m d)) = (y, m, d)"
    using make_day_components[of m d y] by simp
qed

end
