(* ===== verification/DateKey.thy ===== *)
theory DateKey
  imports JsDate
begin

text \<open>
  The string a calendar cell is keyed by and the date shown above the memo editor.
  \<^verbatim>\<open>App.jsx\<close> keys a cell by \<open>dateIterator.toISOString().slice(0, 10)\<close>
  (\<open>format_key\<close>): the Date is a local midnight, but \<open>toISOString\<close> prints the
  UTC instant, so the key is the UTC calendar date of that instant. \<open>formatDate\<close>
  parses the key back with \<open>new Date(dateString)\<close>, which reads a date-only string
  as UTC midnight, and prints the local year, month and day (\<open>format_date\<close>; the
  Korean unit words around the three numbers are not modelled, HOL's \<open>char\<close> being a
  byte). The time zone is the fixed offset \<open>tz\<close> in minutes east of UTC.
  The lemmas give the round trip of the key with the date-only parser, and show that
  the key of a local day is that day only west of or at UTC, and the displayed date is
  the clicked day only at UTC.
\<close>

definition digit :: "int \<Rightarrow> char" where
  "digit d = char_of (48 + d)"

fun digits_of :: "nat \<Rightarrow> int \<Rightarrow> string" where
  "digits_of 0 n = []"
| "digits_of (Suc w) n = digits_of w (n div 10) @ [digit (n mod 10)]"

definition iso_year :: "int \<Rightarrow> string" where
  "iso_year y =
     (if 0 \<le> y \<and> y \<le> 9999 then digits_of 4 y
      else (if y < 0 then ''-'' else ''+'') @ digits_of 6 \<bar>y\<bar>)"

definition utc_minutes :: "tz_offset \<Rightarrow> day \<Rightarrow> int" where
  "utc_minutes tz t = t * 1440 - tz"

definition utc_day :: "tz_offset \<Rightarrow> day \<Rightarrow> day" where
  "utc_day tz t = utc_minutes tz t div 1440"

definition to_iso_string :: "tz_offset \<Rightarrow> day \<Rightarrow> string" where
  "to_iso_string tz t =
     (let d = utc_day tz t; mins = utc_minutes tz t mod 1440 in
      iso_year (year_from_time d) @ ''-'' @ digits_of 2 (month_from_time d + 1) @ ''-''
      @ digits_of 2 (date_from_time d) @ ''T'' @ digits_of 2 (mins div 60) @ '':''
      @ digits_of 2 (mins mod 60) @ '':00.000Z'')"

definition format_key :: "tz_offset \<Rightarrow> day \<Rightarrow> date_key" where
  "format_key tz t = take 10 (to_iso_string tz t)"

text \<open>The canonical key of a local day, as the specification describes it.\<close>

definition date_key :: "day \<Rightarrow> date_key" where
  "date_key t =
     iso_year (year_from_time t) @ ''-'' @ digits_of 2 (month_from_time t + 1) @ ''-''
     @ digits_of 2 (date_from_time t)"

definition is_digit :: "char \<Rightarrow> bool" where
  "is_digit c = (48 \<le> (of_char c :: int) \<and> (of_char c :: int) \<le> 57)"

definition digit_val :: "char \<Rightarrow> int" where
  "digit_val c = of_char c - 48"

definition digits_value :: "string \<Rightarrow> int" where
  "digits_value s = foldl (\<lambda>acc c. 10 * acc + digit_val c) 0 s"

text \<open>The specification's DateKey type: a string \<open>YYYY-MM-DD\<close>, zero-padded, that names
  a real calendar day (the day fits the month of that year).\<close>

definition is_date_key :: "string \<Rightarrow> bool" where
  "is_date_key k =
     (length k = 10 \<and> k ! 4 = CHR ''-'' \<and> k ! 7 = CHR ''-''
      \<and> list_all is_digit (take 4 k @ take 2 (drop 5 k) @ drop 8 k)
      \<and> 1 \<le> digits_value (take 2 (drop 5 k)) \<and> digits_value (take 2 (drop 5 k)) \<le> 12
      \<and> 1 \<le> digits_value (drop 8 k)
      \<and> digits_value (drop 8 k)
           \<le> days_in_month (digits_value (take 4 k)) (digits_value (take 2 (drop 5 k)) - 1))"

text \<open>
  \<open>Date.parse\<close> on the two shapes a key can have: \<open>YYYY-MM-DD\<close> and the
  expanded-year month form \<open>\<plusminus>YYYYYY-MM\<close>, both read as UTC (ECMA-262 "Date Time
  String Format"). Any other string would go to the engine's fallback parser, which the
  specification leaves to the implementation; it is \<open>None\<close> (NaN) here.
\<close>

definition parse_date_only :: "string \<Rightarrow> day option" where
  "parse_date_only s =
     (if length s = 10 \<and> s ! 4 = CHR ''-'' \<and> s ! 7 = CHR ''-''
         \<and> list_all is_digit (take 4 s @ take 2 (drop 5 s) @ drop 8 s)
      then (let y = digits_value (take 4 s); m = digits_value (take 2 (drop 5 s));
                d = digits_value (drop 8 s) in
            if 1 \<le> m \<and> m \<le> 12 \<and> 1 \<le> d \<and> d \<le> 31 then Some (make_day y (m - 1) d) else None)
      else if length s = 10 \<and> (s ! 0 = CHR ''+'' \<or> s ! 0 = CHR ''-'') \<and> s ! 7 = CHR ''-''
         \<and> list_all is_digit (take 6 (drop 1 s) @ drop 8 s)
      then (let y0 = digits_value (take 6 (drop 1 s)); m = digits_value (drop 8 s);
                y = (if s ! 0 = CHR ''-'' then - y0 else y0) in
            if 1 \<le> m \<and> m \<le> 12 \<and> \<not> (s ! 0 = CHR ''-'' \<and> y0 = 0)
            then Some (make_day y (m - 1) 1) else None)
      else None)"

definition format_date :: "tz_offset \<Rightarrow> date_key \<Rightarrow> (int \<times> int \<times> int) option" where
  "format_date tz s =
     map_option (\<lambda>u. let l = (u * 1440 + tz) div 1440
                      in (year_from_time l, month_from_time l + 1, date_from_time l))
       (parse_date_only s)"

subsection \<open>Digits\<close>

lemma digit_val_digit [simp]: "0 \<le> d \<Longrightarrow> d < 10 \<Longrightarrow> digit_val (digit d) = d"
  by (simp add: digit_val_def digit_def)

lemma is_digit_digit [simp]: "0 \<le> d \<Longrightarrow> d < 10 \<Longrightarrow> is_digit (digit d)"
  by (simp add: is_digit_def digit_def)

lemma length_digits_of [simp]: "length (digits_of w n) = w"
  by (induction w arbitrary: n) simp_all

lemma digits_of_all_digits [simp]: "list_all is_digit (digits_of w n)"
  by (induction w arbitrary: n) simp_all

lemma digits_value_snoc [simp]: "digits_value (s @ [c]) = 10 * digits_value s + digit_val c"
  by (simp add: digits_value_def)

lemma digits_value_digits_of: "digits_value (digits_of w n) = n mod 10 ^ w"
proof (induction w arbitrary: n)
  case 0
  then show ?case by (simp add: digits_value_def)
next
  case (Suc w)
  have "n mod 10 ^ Suc w = 10 * (n div 10 mod 10 ^ w) + n mod 10"
    using zmod_zmult2_eq[of "10 ^ w" n 10] by simp
  then show ?case using Suc.IH by simp
qed

lemma digits_value_digits_of_small [simp]:
  "0 \<le> n \<Longrightarrow> n < 10 ^ w \<Longrightarrow> digits_value (digits_of w n) = n"
  by (simp add: digits_value_digits_of)

subsection \<open>Years in range\<close>

lemma year_from_time_between:
  assumes "day_from_year a \<le> t" "t < day_from_year b"
  shows "a \<le> year_from_time t" "year_from_time t < b"
proof -
  have "day_from_year a < day_from_year (year_from_time t + 1)"
    using assms(1) year_from_time_bounds(2)[of t] by linarith
  then show "a \<le> year_from_time t" by (simp add: day_from_year_less_iff)
  have "day_from_year (year_from_time t) < day_from_year b"
    using assms(2) year_from_time_bounds(1)[of t] by linarith
  then show "year_from_time t < b" by (simp add: day_from_year_less_iff)
qed

lemma utc_day_shift:
  assumes "- 1440 < tz" "tz < 1440"
  shows "utc_day tz t = (if 0 < tz then t - 1 else t)"
proof -
  have "utc_day tz t = (- tz + t * 1440) div 1440"
    by (simp add: utc_day_def utc_minutes_def algebra_simps)
  also have "\<dots> = (- tz) div 1440 + t" by simp
  also have "(- tz) div 1440 = (if 0 < tz then - 1 else 0)"
    using assms div_neg_small[of 1440 "- tz"] by simp
  finally show ?thesis by simp
qed

subsection \<open>The key of a day\<close>

lemma length_date_key:
  "0 \<le> year_from_time t \<Longrightarrow> year_from_time t \<le> 9999 \<Longrightarrow> length (date_key t) = 10"
  by (simp add: date_key_def iso_year_def)

lemma format_key_utc:
  assumes "0 \<le> year_from_time (utc_day tz t)" "year_from_time (utc_day tz t) \<le> 9999"
  shows "format_key tz t = date_key (utc_day tz t)"
proof -
  have "to_iso_string tz t = date_key (utc_day tz t) @ ''T''
      @ digits_of 2 (utc_minutes tz t mod 1440 div 60) @ '':''
      @ digits_of 2 (utc_minutes tz t mod 1440 mod 60) @ '':00.000Z''"
    by (simp add: to_iso_string_def date_key_def Let_def)
  then show ?thesis
    using length_date_key[OF assms] by (simp add: format_key_def)
qed

lemma date_key_parts:
  assumes "0 \<le> year_from_time t" "year_from_time t \<le> 9999"
  shows "take 4 (date_key t) = digits_of 4 (year_from_time t)"
    "take 2 (drop 5 (date_key t)) = digits_of 2 (month_from_time t + 1)"
    "drop 8 (date_key t) = digits_of 2 (date_from_time t)"
    "date_key t ! 4 = CHR ''-''" "date_key t ! 7 = CHR ''-''" "length (date_key t) = 10"
proof -
  have s: "date_key t = digits_of 4 (year_from_time t) @ ''-'' @ digits_of 2 (month_from_time t + 1)
      @ ''-'' @ digits_of 2 (date_from_time t)"
    using assms by (simp add: date_key_def iso_year_def)
  show "take 4 (date_key t) = digits_of 4 (year_from_time t)"
    "take 2 (drop 5 (date_key t)) = digits_of 2 (month_from_time t + 1)"
    "drop 8 (date_key t) = digits_of 2 (date_from_time t)"
    "date_key t ! 4 = CHR ''-''" "date_key t ! 7 = CHR ''-''" "length (date_key t) = 10"
    unfolding s by (simp_all add: nth_append)
qed

lemma date_components_bounds:
  "0 \<le> month_from_time t" "month_from_time t < 12"
  "1 \<le> date_from_time t" "date_from_time t \<le> 31"
  using month_from_time_range[of t] date_from_time_bounds[of t]
    days_in_month_bounds[OF month_from_time_range(1)[of t] month_from_time_range(2)[of t],
      of "year_from_time t"]
  by simp_all

lemma parse_date_key [calendar_simps]:
  assumes "0 \<le> year_from_time t" "year_from_time t \<le> 9999"
  shows "parse_date_only (date_key t) = Some t"
  using date_key_parts[OF assms] date_components_bounds[of t] assms
  by (simp add: parse_date_only_def make_day_of_components)

lemma is_date_key_date_key:
  assumes "0 \<le> year_from_time t" "year_from_time t \<le> 9999"
  shows "is_date_key (date_key t)"
  using date_key_parts[OF assms] date_components_bounds[of t] date_from_time_bounds(2)[of t] assms
  by (simp add: is_date_key_def)

lemma year_range_near:
  assumes "day_from_year 1 \<le> t" "t < day_from_year 10000" "t - 1 \<le> u" "u \<le> t"
  shows "0 \<le> year_from_time u" "year_from_time u \<le> 9999"
proof -
  have "day_from_year 0 + 365 \<le> day_from_year 1"
    using day_from_year_succ[of 0] days_in_year_bounds(1)[of 0] by simp
  then have "day_from_year 0 \<le> u" "u < day_from_year 10000" using assms by linarith+
  from year_from_time_between[OF this] show "0 \<le> year_from_time u" "year_from_time u \<le> 9999"
    by simp_all
qed

lemma format_key_local_or_previous:
  assumes tz: "- 1440 < tz" "tz < 1440"
    and t: "day_from_year 1 \<le> t" "t < day_from_year 10000"
  shows "format_key tz t = date_key (if 0 < tz then t - 1 else t)"
proof -
  have u: "utc_day tz t = (if 0 < tz then t - 1 else t)" by (rule utc_day_shift[OF tz])
  have "0 \<le> year_from_time (utc_day tz t)" "year_from_time (utc_day tz t) \<le> 9999"
    using year_range_near[OF t, of "utc_day tz t"] u by (simp_all split: if_splits)
  then show ?thesis using format_key_utc u by simp
qed

lemma parse_format_key:
  assumes tz: "- 1440 < tz" "tz < 1440"
    and t: "day_from_year 1 \<le> t" "t < day_from_year 10000"
  shows "parse_date_only (format_key tz t) = Some (if 0 < tz then t - 1 else t)"
proof -
  have u: "utc_day tz t = (if 0 < tz then t - 1 else t)" by (rule utc_day_shift[OF tz])
  have r: "0 \<le> year_from_time (utc_day tz t)" "year_from_time (utc_day tz t) \<le> 9999"
    using year_range_near[OF t, of "utc_day tz t"] u by (simp_all split: if_splits)
  show ?thesis using format_key_utc[OF r] parse_date_key[OF r] u by simp
qed

lemma utc_midnight_local_day:
  fixes tz :: tz_offset and t :: day
  assumes tz: "- 1440 < tz" "tz < 1440"
  shows "((if 0 < tz then t - 1 else t) * 1440 + tz) div 1440 = (if tz = 0 then t else t - 1)"
proof (cases "0 < tz")
  case True
  have "((t - 1) * 1440 + tz) div 1440 = tz div 1440 + (t - 1)"
    by (simp add: algebra_simps)
  then show ?thesis using True tz by simp
next
  case False
  have "(t * 1440 + tz) div 1440 = tz div 1440 + t"
    by (simp add: algebra_simps)
  moreover have "tz < 0 \<Longrightarrow> tz div 1440 = - 1"
    using tz by (intro div_neg_small) simp_all
  ultimately show ?thesis using False by (cases "tz = 0") simp_all
qed

text \<open>C5: For a time zone less than a day from UTC and a day in years 1 to 9999, the
  editor's title \<open>formatDate(selectedDate)\<close> of the key of local day
  \<open>t\<close> shows the year, month and day of \<open>t\<close> only at UTC; in every
  other zone it shows the previous day.\<close>

lemma format_date_format_key:
  assumes tz: "- 1440 < tz" "tz < 1440"
    and t: "day_from_year 1 \<le> t" "t < day_from_year 10000"
  shows "format_date tz (format_key tz t) =
    (let l = (if tz = 0 then t else t - 1)
     in Some (year_from_time l, month_from_time l + 1, date_from_time l))"
proof -
  have "parse_date_only (format_key tz t) = Some (if 0 < tz then t - 1 else t)"
    by (rule parse_format_key[OF tz t])
  then show ?thesis using utc_midnight_local_day[OF tz, of t] by (simp add: format_date_def Let_def)
qed

theorem format_date_format_key_witness:
  "format_date 540 (format_key 540 (make_day 2024 1 14)) = Some (2024, 2, 13)"
  by (subst format_date_format_key) (code_simp+)

lemma format_key_inj:
  assumes tz: "- 1440 < tz" "tz < 1440"
    and t: "day_from_year 1 \<le> t" "t < day_from_year 10000"
    and t': "day_from_year 1 \<le> t'" "t' < day_from_year 10000"
    and eq: "format_key tz t = format_key tz t'"
  shows "t = t'"
proof -
  have "Some (if 0 < tz then t - 1 else t) = parse_date_only (format_key tz t)"
    using parse_format_key[OF tz t] by simp
  also have "\<dots> = parse_date_only (format_key tz t')" using eq by simp
  also have "\<dots> = Some (if 0 < tz then t' - 1 else t')" by (rule parse_format_key[OF tz t'])
  finally have "(if 0 < tz then t - 1 else t) = (if 0 < tz then t' - 1 else t')" by simp
  then show ?thesis by (simp split: if_splits)
qed

text \<open>C9: The date key is an identity for days: for a time zone less than a day from UTC
  and days in years 1 to 9999, two days have the same key exactly when they are the same day.\<close>

lemma format_key_eq_iff:
  assumes "- 1440 < tz" "tz < 1440"
    and "day_from_year 1 \<le> t" "t < day_from_year 10000"
    and "day_from_year 1 \<le> t'" "t' < day_from_year 10000"
  shows "format_key tz t = format_key tz t' \<longleftrightarrow> t = t'"
  using format_key_inj[OF assms] by blast

theorem format_key_eq_iff_witness:
  "format_key 540 (make_day 2024 1 14) \<noteq> format_key 540 (make_day 2024 1 15)"
proof -
  have h: "- 1440 < (540::int)" "(540::int) < 1440"
    "day_from_year 1 \<le> make_day 2024 1 14" "make_day 2024 1 14 < day_from_year 10000"
    "day_from_year 1 \<le> make_day 2024 1 15" "make_day 2024 1 15 < day_from_year 10000"
    by code_simp+
  have "make_day 2024 1 14 \<noteq> make_day 2024 1 15" by code_simp
  then show ?thesis using format_key_eq_iff[OF h] by simp
qed

text \<open>C8: The key of a day is that day's own local \<open>YYYY-MM-DD\<close> date, as the
  specification's DateKey requires, exactly when the time zone is not east of UTC: for every
  positive offset the key is another day's date.\<close>

lemma format_key_local_iff:
  assumes tz: "- 1440 < tz" "tz < 1440"
    and t: "day_from_year 1 \<le> t" "t < day_from_year 10000"
  shows "format_key tz t = date_key t \<longleftrightarrow> tz \<le> 0"
proof (cases "0 < tz")
  case True
  have r1: "0 \<le> year_from_time (t - 1)" "year_from_time (t - 1) \<le> 9999"
    using year_range_near[OF t, of "t - 1"] by simp_all
  have r0: "0 \<le> year_from_time t" "year_from_time t \<le> 9999"
    using year_range_near[OF t, of t] by simp_all
  have "date_key (t - 1) \<noteq> date_key t"
  proof
    assume "date_key (t - 1) = date_key t"
    then have "parse_date_only (date_key (t - 1)) = parse_date_only (date_key t)" by simp
    then show False using parse_date_key[OF r1] parse_date_key[OF r0] by simp
  qed
  then show ?thesis using True format_key_local_or_previous[OF tz t] by simp
next
  case False
  then show ?thesis using format_key_local_or_previous[OF tz t] by simp
qed

theorem format_key_local_iff_witness:
  "format_key 540 (make_day 2024 1 14) \<noteq> date_key (make_day 2024 1 14)
   \<and> format_key (- 300) (make_day 2024 1 14) = date_key (make_day 2024 1 14)"
proof -
  have h1: "- 1440 < (540::int)" "(540::int) < 1440"
    "day_from_year 1 \<le> make_day 2024 1 14" "make_day 2024 1 14 < day_from_year 10000"
    by code_simp+
  have h2: "- 1440 < (- 300::int)" "(- 300::int) < 1440" by simp_all
  show ?thesis using format_key_local_iff[OF h1] format_key_local_iff[OF h2 h1(3,4)] by simp
qed

end
