(* ===== verification/MemoStore.thy ===== *)
theory MemoStore
  imports Prelude
begin

text \<open>
  The \<open>memos\<close> state of \<^verbatim>\<open>App.jsx\<close>: a plain object from date keys to memo text.
  It is an association list in property order (the order \<open>JSON.stringify\<close> writes it
  in), with the object operations the component uses:
  \<^item> \<open>obj_get m k\<close> is the property read \<open>memos[k]\<close> (\<open>None\<close> for \<open>undefined\<close>);
  \<^item> \<open>obj_set m k v\<close> is the copy \<open>{...prevMemos, [k]: v}\<close> of \<open>handleSaveMemo\<close>:
    an existing property keeps its place and takes the new value, a new one is appended;
  \<^item> \<open>obj_delete m k\<close> is \<open>{...prevMemos}\<close> followed by \<open>delete updatedMemos[k]\<close>
    in \<open>handleDeleteMemo\<close>;
  \<^item> \<open>js_truthy\<close> is the truth value of \<open>memos[k]\<close> in \<open>memos[k] && ...\<close>: an
    absent property and the empty string are both false.
  The lemmas show that the object keeps distinct keys, that each operation refines the
  corresponding update of the abstract map \<open>obj_get m\<close>, and what a save followed by a
  delete leaves behind.
\<close>

fun obj_get :: "memo_obj \<Rightarrow> string \<Rightarrow> string option" where
  "obj_get [] k = None"
| "obj_get ((k', v) # ps) k = (if k' = k then Some v else obj_get ps k)"

fun obj_set :: "memo_obj \<Rightarrow> string \<Rightarrow> string \<Rightarrow> memo_obj" where
  "obj_set [] k v = [(k, v)]"
| "obj_set ((k', v') # ps) k v = (if k' = k then (k, v) # ps else (k', v') # obj_set ps k v)"

definition obj_delete :: "memo_obj \<Rightarrow> string \<Rightarrow> memo_obj" where
  "obj_delete m k = filter (\<lambda>(k', _). k' \<noteq> k) m"

definition obj_keys :: "memo_obj \<Rightarrow> string list" where
  "obj_keys m = map fst m"

fun js_truthy :: "string option \<Rightarrow> bool" where
  "js_truthy None = False"
| "js_truthy (Some v) = (v \<noteq> '''')"

definition obj_wf :: "memo_obj \<Rightarrow> bool" where
  "obj_wf m = distinct (obj_keys m)"

lemma obj_get_map_of [calendar_simps]: "obj_get m = map_of m"
proof
  fix k
  show "obj_get m k = map_of m k" by (induction m) auto
qed

lemma obj_keys_set:
  "obj_keys (obj_set m k v) = (if k \<in> set (obj_keys m) then obj_keys m else obj_keys m @ [k])"
  by (induction m) (fastforce simp: obj_keys_def)+

lemma obj_keys_delete [simp]: "set (obj_keys (obj_delete m k)) = set (obj_keys m) - {k}"
  by (induction m) (auto simp: obj_keys_def obj_delete_def)

lemma obj_set_absent: "k \<notin> set (obj_keys m) \<Longrightarrow> obj_set m k v = m @ [(k, v)]"
  by (induction m) (auto simp: obj_keys_def)

lemma obj_delete_absent: "k \<notin> set (obj_keys m) \<Longrightarrow> obj_delete m k = m"
  by (induction m) (auto simp: obj_keys_def obj_delete_def)

lemma obj_delete_append [simp]: "obj_delete (xs @ ys) k = obj_delete xs k @ obj_delete ys k"
  by (simp add: obj_delete_def)

lemma obj_get_set [simp]:
  "obj_get (obj_set m k v) k' = (if k' = k then Some v else obj_get m k')"
  by (induction m) auto

lemma obj_get_delete [simp]:
  "obj_get (obj_delete m k) k' = (if k' = k then None else obj_get m k')"
  by (induction m) (auto simp: obj_delete_def)

lemma obj_set_get_same: "obj_get m k = Some v \<Longrightarrow> obj_set m k v = m"
  by (induction m) (auto split: if_splits)

lemma obj_wf_set: "obj_wf m \<Longrightarrow> obj_wf (obj_set m k v)"
  by (simp add: obj_wf_def obj_keys_set)

lemma obj_wf_delete: "obj_wf m \<Longrightarrow> obj_wf (obj_delete m k)"
  by (simp add: obj_wf_def obj_keys_def obj_delete_def distinct_map_filter)

text \<open>C28: The two updates of the memo object keep its keys distinct and refine the
  updates of the abstract map: \<open>{...prevMemos, [k]: v}\<close> reads \<open>v\<close> at \<open>k\<close> and
  the old value elsewhere, and copy-and-delete removes \<open>k\<close> only.\<close>

lemma obj_ops_refine:
  assumes "obj_wf m"
  shows "obj_wf (obj_set m k v) \<and> obj_get (obj_set m k v) = (obj_get m)(k \<mapsto> v)
    \<and> obj_wf (obj_delete m k) \<and> obj_get (obj_delete m k) = (obj_get m)(k := None)"
  using obj_wf_set[OF assms] obj_wf_delete[OF assms] by (simp add: fun_eq_iff)

theorem obj_ops_refine_witness:
  "obj_wf (obj_set [(''2024-02-14'', ''a'')] ''2024-02-15'' ''b'')
   \<and> obj_get (obj_set [(''2024-02-14'', ''a'')] ''2024-02-15'' ''b'')
       = (obj_get [(''2024-02-14'', ''a'')])(''2024-02-15'' \<mapsto> ''b'')
   \<and> obj_wf (obj_delete [(''2024-02-14'', ''a'')] ''2024-02-15'')
   \<and> obj_get (obj_delete [(''2024-02-14'', ''a'')] ''2024-02-15'')
       = (obj_get [(''2024-02-14'', ''a'')])(''2024-02-15'' := None)"
  by (rule obj_ops_refine) (simp add: obj_wf_def obj_keys_def)

text \<open>C29: On an object with distinct keys, deleting a key after setting it gives the
  object with that key deleted: the old value of the key is gone too, so set-then-delete
  restores the original object exactly when the key was absent.\<close>

lemma obj_delete_obj_set:
  assumes "obj_wf m"
  shows "obj_delete (obj_set m k v) k = obj_delete m k
    \<and> (k \<notin> set (obj_keys m) \<longrightarrow> obj_delete (obj_set m k v) k = m)"
proof -
  have "obj_delete (obj_set m k v) k = obj_delete m k"
    using assms by (induction m) (auto simp: obj_wf_def obj_keys_def obj_delete_def obj_delete_absent)
  then show ?thesis using obj_delete_absent[of k m] by simp
qed

theorem obj_delete_obj_set_witness:
  "obj_delete (obj_set [(''2024-02-14'', ''a''), (''2024-02-15'', ''b'')] ''2024-02-16'' ''c'') ''2024-02-16''
     = obj_delete [(''2024-02-14'', ''a''), (''2024-02-15'', ''b'')] ''2024-02-16''
   \<and> obj_delete (obj_set [(''2024-02-14'', ''a''), (''2024-02-15'', ''b'')] ''2024-02-16'' ''c'') ''2024-02-16''
     = [(''2024-02-14'', ''a''), (''2024-02-15'', ''b'')]"
proof -
  have "obj_wf [(''2024-02-14'', ''a''), (''2024-02-15'', ''b'')]" "''2024-02-16'' \<notin> set (obj_keys [(''2024-02-14'', ''a''), (''2024-02-15'', ''b'')])"
    by (simp_all add: obj_wf_def obj_keys_def)
  then show ?thesis using obj_delete_obj_set[of "[(''2024-02-14'', ''a''), (''2024-02-15'', ''b'')]" "''2024-02-16''" "''c''"] by blast
qed

end
