(* ===== verification/CalendarGrid.thy ===== *)
theory CalendarGrid
  imports DateKey MemoStore
begin

text \<open>
  \<open>renderCalendar\<close> of \<^verbatim>\<open>src/src/App.jsx\<close> (lines 71 to 103). From the displayed
  month it computes \<open>firstDay\<close> and \<open>lastDay\<close>, moves back to the Sunday on or before
  the first (\<open>startDate\<close>) and forward to the Saturday on or after the last
  (\<open>endDate\<close>), and walks a Date from the one to the other with
  \<open>setDate(getDate() + 1)\<close>, pushing one cell per day. A cell is the record of what
  the \<open><div>\<close> shows: its React key and \<open>onClick\<close> argument \<open>formattedDate\<close>, the
  class flags (\<open>other-month\<close>, \<open>selected\<close>, \<open>has-memo\<close>, \<open>sun\<close>, \<open>sat\<close>) and the
  day number in the \<open><span>\<close>.
  \<open>calendar_range\<close> computes the two bounds, \<open>calendar_loop\<close> is the \<open>while\<close> loop
  (terminating because the iterator gains one day per round), \<open>render_calendar\<close> the
  whole function. The lemmas show the loop equals a map over the interval of days, and
  that the grid is made of whole weeks, starts on a Sunday, ends on a Saturday and holds
  every day of the month once, in order.
\<close>

record cell =
  cell_key :: date_key
  cell_other_month :: bool
  cell_selected :: bool
  cell_has_memo :: bool
  cell_sun :: bool
  cell_sat :: bool
  cell_date :: int

definition render_cell ::
  "tz_offset \<Rightarrow> int \<Rightarrow> date_key option \<Rightarrow> memo_obj \<Rightarrow> day \<Rightarrow> cell" where
  "render_cell tz month selectedDate memos dateIterator =
     (let formattedDate = format_key tz dateIterator;
          isSunday = (week_day dateIterator = 0);
          isSaturday = (week_day dateIterator = 6)
      in \<lparr>cell_key = formattedDate,
          cell_other_month = (month_from_time dateIterator \<noteq> month),
          cell_selected = (selectedDate = Some formattedDate),
          cell_has_memo = js_truthy (obj_get memos formattedDate),
          cell_sun = isSunday, cell_sat = isSaturday,
          cell_date = date_from_time dateIterator\<rparr>)"

function calendar_loop ::
  "tz_offset \<Rightarrow> int \<Rightarrow> date_key option \<Rightarrow> memo_obj \<Rightarrow> day \<Rightarrow> day \<Rightarrow> cell list" where
  "calendar_loop tz month selectedDate memos endDate dateIterator =
     (if dateIterator \<le> endDate
      then render_cell tz month selectedDate memos dateIterator
           # calendar_loop tz month selectedDate memos endDate
               (set_date dateIterator (date_from_time dateIterator + 1))
      else [])"
  by pat_completeness auto
termination
  by (relation "measure (\<lambda>(tz, month, selectedDate, memos, endDate, it). nat (endDate - it + 1))")
     (simp_all add: set_date_next)

definition calendar_range :: "day \<Rightarrow> day \<times> day" where
  "calendar_range currentDate =
     (let year = year_from_time currentDate; month = month_from_time currentDate;
          firstDay = new_date year month 1;
          lastDay = new_date year (month + 1) 0;
          startDate = new_date (year_from_time firstDay) (month_from_time firstDay)
                        (date_from_time firstDay - week_day firstDay);
          endDate = new_date (year_from_time lastDay) (month_from_time lastDay)
                        (date_from_time lastDay + (6 - week_day lastDay))
      in (startDate, endDate))"

definition render_calendar ::
  "tz_offset \<Rightarrow> day \<Rightarrow> date_key option \<Rightarrow> memo_obj \<Rightarrow> cell list" where
  "render_calendar tz currentDate selectedDate memos =
     (let (startDate, endDate) = calendar_range currentDate
      in calendar_loop tz (month_from_time currentDate) selectedDate memos endDate startDate)"

text \<open>The displayed month as the specification names it: its first day and
  length.\<close>

definition month_first :: "day \<Rightarrow> day" where
  "month_first currentDate =
     make_day (js_full_year (year_from_time currentDate)) (month_from_time currentDate) 1"

definition month_length :: "day \<Rightarrow> int" where
  "month_length currentDate =
     days_in_month (js_full_year (year_from_time currentDate)) (month_from_time currentDate)"

text \<open>\<open>daysInMonth\<close> of line 77, which the function computes and never
  uses.\<close>

definition days_in_view_month :: "day \<Rightarrow> int" where
  "days_in_view_month currentDate =
     (let year = year_from_time currentDate; month = month_from_time currentDate;
          lastDay = new_date year (month + 1) 0
      in date_from_time lastDay)"

declare calendar_loop.simps [simp del]

subsection \<open>The loop is a map over an interval of days\<close>

lemma calendar_loop_map:
  "calendar_loop tz month sel memos e it = map (render_cell tz month sel memos) [it..e]"
proof (induction tz month sel memos e it rule: calendar_loop.induct)
  case (1 tz month sel memos e it)
  show ?case
  proof (cases "it \<le> e")
    case True
    with "1.IH" show ?thesis
      by (simp add: calendar_loop.simps [of tz month sel memos e it] set_date_next upto_rec1)
  next
    case False
    then show ?thesis by (simp add: calendar_loop.simps [of tz month sel memos e it])
  qed
qed

text \<open>C34: The \<open>while\<close> loop terminates after exactly one round per day from the
  iterator's start to \<open>endDate\<close>: it pushes \<open>endDate - start + 1\<close> cells, none when the
  start is past the end.\<close>

lemma calendar_loop_iterations:
  "length (calendar_loop tz month sel memos endDate dateIterator) = nat (endDate - dateIterator + 1)"
  by (simp add: calendar_loop_map)

subsection \<open>The bounds\<close>

lemma month_length_bounds: "28 \<le> month_length c" "month_length c \<le> 31"
  using days_in_month_bounds[OF month_from_time_range] by (simp_all add: month_length_def)

lemma month_first_components:
  "year_from_time (month_first c) = js_full_year (year_from_time c)"
  "month_from_time (month_first c) = month_from_time c"
  "date_from_time (month_first c) = 1"
  using make_day_components[OF month_from_time_range, of 1 "js_full_year (year_from_time c)"]
    month_length_bounds[of c]
  by (simp_all add: month_first_def month_length_def)

lemma month_last_components:
  "year_from_time (month_first c + month_length c - 1) = js_full_year (year_from_time c)"
  "month_from_time (month_first c + month_length c - 1) = month_from_time c"
  "date_from_time (month_first c + month_length c - 1) = month_length c"
proof -
  have e: "month_first c + month_length c - 1
      = make_day (js_full_year (year_from_time c)) (month_from_time c) (month_length c)"
    using make_day_shift[of "js_full_year (year_from_time c)" "month_from_time c" 1 "month_length c - 1"]
    by (simp add: month_first_def)
  show "year_from_time (month_first c + month_length c - 1) = js_full_year (year_from_time c)"
    "month_from_time (month_first c + month_length c - 1) = month_from_time c"
    "date_from_time (month_first c + month_length c - 1) = month_length c"
    unfolding e using make_day_components[OF month_from_time_range, of "month_length c"]
      month_length_bounds[of c] by (simp_all add: month_length_def)
qed

lemma new_date_last_day:
  "new_date (year_from_time c) (month_from_time c + 1) 0 = month_first c + month_length c - 1"
proof -
  let ?Y = "js_full_year (year_from_time c)" and ?M = "month_from_time c"
  have "make_day ?Y (?M + 1) 0 = make_day ?Y (?M + 1) 1 - 1"
    using make_day_shift[of ?Y "?M + 1" 1 "- 1"] by simp
  also have "\<dots> = make_day ?Y ?M 1 + days_in_month ?Y ?M - 1"
    using make_day_next_month[of ?Y ?M] month_from_time_range[of c] by simp
  finally show ?thesis by (simp add: new_date_def month_first_def month_length_def)
qed

lemma calendar_range_eq:
  "calendar_range c =
     (month_first c - week_day (month_first c),
      month_first c + month_length c - 1 + (6 - week_day (month_first c + month_length c - 1)))"
proof -
  let ?F = "month_first c" and ?L = "month_first c + month_length c - 1"
  have f: "new_date (year_from_time c) (month_from_time c) 1 = ?F"
    by (simp add: new_date_def month_first_def)
  let ?Y = "js_full_year (year_from_time c)" and ?M = "month_from_time c"
  have s: "new_date (year_from_time ?F) (month_from_time ?F) (date_from_time ?F - week_day ?F)
      = ?F - week_day ?F"
  proof -
    have "new_date (year_from_time ?F) (month_from_time ?F) (date_from_time ?F - week_day ?F)
        = make_day ?Y ?M (1 - week_day ?F)"
      by (simp add: new_date_def month_first_components js_full_year_idem)
    also have "\<dots> = make_day ?Y ?M 1 + (1 - week_day ?F - 1)" by (rule make_day_offset)
    finally show ?thesis by (simp add: month_first_def)
  qed
  have e: "new_date (year_from_time ?L) (month_from_time ?L) (date_from_time ?L + (6 - week_day ?L))
      = ?L + (6 - week_day ?L)"
  proof -
    have "new_date (year_from_time ?L) (month_from_time ?L) (date_from_time ?L + (6 - week_day ?L))
        = make_day ?Y ?M (month_length c + (6 - week_day ?L))"
      by (simp add: new_date_def month_last_components js_full_year_idem)
    also have "\<dots> = make_day ?Y ?M 1 + (month_length c + (6 - week_day ?L) - 1)"
      by (rule make_day_offset)
    finally show ?thesis by (simp add: month_first_def)
  qed
  show ?thesis
    unfolding calendar_range_def Let_def f new_date_last_day s e by simp
qed

lemma render_calendar_map:
  "render_calendar tz c sel memos =
     map (render_cell tz (month_from_time c) sel memos)
       [month_first c - week_day (month_first c) ..
        month_first c + month_length c - 1 + (6 - week_day (month_first c + month_length c - 1))]"
  by (simp add: render_calendar_def calendar_range_eq calendar_loop_map)

subsection \<open>Which days belong to the month\<close>

lemma month_days_components:
  assumes "month_first c \<le> n" "n \<le> month_first c + month_length c - 1"
  shows "month_from_time n = month_from_time c" "date_from_time n = n - month_first c + 1"
proof -
  let ?Y = "js_full_year (year_from_time c)" and ?M = "month_from_time c"
  have n: "n = make_day ?Y ?M (n - month_first c + 1)"
    using make_day_offset[of ?Y ?M "n - month_first c + 1"] by (simp add: month_first_def)
  have "1 \<le> n - month_first c + 1" "n - month_first c + 1 \<le> days_in_month ?Y ?M"
    using assms by (simp_all add: month_length_def)
  from make_day_components[OF month_from_time_range this]
  show "month_from_time n = month_from_time c" "date_from_time n = n - month_first c + 1"
    by (subst n, simp)+
qed

lemma month_before_first:
  assumes "month_first c - 6 \<le> n" "n < month_first c"
  shows "month_from_time n \<noteq> month_from_time c"
proof -
  let ?Y = "js_full_year (year_from_time c)" and ?M = "month_from_time c"
  let ?P = "?M - 1"
  let ?Dp = "days_in_month (?Y + ?P div 12) (?P mod 12)"
  have M: "0 \<le> ?M" "?M < 12" by (rule month_from_time_range)+
  have Dp: "28 \<le> ?Dp" using days_in_month_bounds[of "?P mod 12"] by simp
  have "month_first c = make_day ?Y ?P 1 + ?Dp"
    using make_day_next_month[of ?Y ?P] by (simp add: month_first_def)
  then have n: "n = make_day ?Y ?P (?Dp - (month_first c - n) + 1)"
    using make_day_offset[of ?Y ?P "?Dp - (month_first c - n) + 1"] by simp
  have "month_from_time n = ?P mod 12"
    by (subst n, rule make_day_month_of(2)) (use assms Dp in simp_all)
  moreover have "?P mod 12 \<noteq> ?M" using M by (cases "?M = 0") simp_all
  ultimately show ?thesis by simp
qed

lemma month_after_last:
  assumes "month_first c + month_length c - 1 < n" "n \<le> month_first c + month_length c + 5"
  shows "month_from_time n \<noteq> month_from_time c"
proof -
  let ?Y = "js_full_year (year_from_time c)" and ?M = "month_from_time c"
  let ?Dn = "days_in_month (?Y + (?M + 1) div 12) ((?M + 1) mod 12)"
  have M: "0 \<le> ?M" "?M < 12" by (rule month_from_time_range)+
  have Dn: "28 \<le> ?Dn" using days_in_month_bounds[of "(?M + 1) mod 12"] by simp
  have "make_day ?Y (?M + 1) 1 = month_first c + month_length c"
    using make_day_next_month[of ?Y ?M] M by (simp add: month_first_def month_length_def)
  then have n: "n = make_day ?Y (?M + 1) (n - (month_first c + month_length c) + 1)"
    using make_day_offset[of ?Y "?M + 1" "n - (month_first c + month_length c) + 1"] by simp
  have "month_from_time n = (?M + 1) mod 12"
    by (subst n, rule make_day_month_of(2)) (use assms Dn in simp_all)
  moreover have "(?M + 1) mod 12 \<noteq> ?M" using M by (cases "?M = 11") simp_all
  ultimately show ?thesis by simp
qed

lemma week_day_month_first_sunday:
  "week_day (month_first c - week_day (month_first c)) = 0"
  using week_day_add[of "month_first c" "- week_day (month_first c)"] by simp

lemma week_day_calendar_end:
  "week_day (month_first c + month_length c - 1 + (6 - week_day (month_first c + month_length c - 1))) = 6"
  using week_day_add[of "month_first c + month_length c - 1"
      "6 - week_day (month_first c + month_length c - 1)"] week_day_range by simp

lemma calendar_bounds_order:
  "month_first c - week_day (month_first c) \<le> month_first c"
  "month_first c - 6 \<le> month_first c - week_day (month_first c)"
  "month_first c \<le> month_first c + month_length c - 1"
  "month_first c + month_length c - 1
     \<le> month_first c + month_length c - 1 + (6 - week_day (month_first c + month_length c - 1))"
  "month_first c + month_length c - 1 + (6 - week_day (month_first c + month_length c - 1))
     \<le> month_first c + month_length c + 5"
  using week_day_range[of "month_first c"] week_day_range[of "month_first c + month_length c - 1"]
    month_length_bounds[of c] by simp_all

lemma render_cell_other_month [simp]:
  "cell_other_month (render_cell tz month sel memos n) = (month_from_time n \<noteq> month)"
  by (simp add: render_cell_def Let_def)

lemma render_cell_date [simp]:
  "cell_date (render_cell tz month sel memos n) = date_from_time n"
  by (simp add: render_cell_def Let_def)

lemma render_cell_key [simp]:
  "cell_key (render_cell tz month sel memos n) = format_key tz n"
  by (simp add: render_cell_def Let_def)

lemma render_cell_weekend [simp]:
  "cell_sun (render_cell tz month sel memos n) = (week_day n = 0)"
  "cell_sat (render_cell tz month sel memos n) = (week_day n = 6)"
  by (simp_all add: render_cell_def Let_def)

lemma render_cell_selected [simp]:
  "cell_selected (render_cell tz month sel memos n) = (sel = Some (format_key tz n))"
  by (simp add: render_cell_def Let_def)

lemma render_cell_has_memo [simp]:
  "cell_has_memo (render_cell tz month sel memos n) = js_truthy (obj_get memos (format_key tz n))"
  by (simp add: render_cell_def Let_def)

subsection \<open>Properties of the grid\<close>

text \<open>C12: The grid always has 28, 35 or 42 cells: whole weeks.\<close>

lemma grid_length_whole_weeks:
  "length (render_calendar tz c sel memos) \<in> {28, 35, 42}"
proof -
  let ?F = "month_first c" and ?D = "month_length c"
  let ?a = "week_day ?F" and ?s = "week_day ?F + month_length c - 1"
  have wl: "week_day (?F + ?D - 1) = ?s mod 7"
    using week_day_add[of ?F "?D - 1"] by (simp add: algebra_simps)
  have len: "length (render_calendar tz c sel memos) = nat (?s + 7 - ?s mod 7)"
    using wl by (simp add: render_calendar_map)
  have s: "27 \<le> ?s" "?s \<le> 36"
    using week_day_range[of ?F] month_length_bounds[of c] by simp_all
  show ?thesis unfolding len using s by (rule whole_weeks_count)
qed

text \<open>C13: The loop renders one cell for each day from \<open>startDate\<close> to
  \<open>endDate\<close>; \<open>startDate\<close> is a Sunday at most six days before the
  first of the month and \<open>endDate\<close> a Saturday at most six days after its last
  day.\<close>

lemma grid_interval:
  assumes "calendar_range c = (startDate, endDate)"
  shows "render_calendar tz c sel memos
           = map (render_cell tz (month_from_time c) sel memos) [startDate..endDate]
    \<and> week_day startDate = 0 \<and> week_day endDate = 6
    \<and> startDate \<le> month_first c \<and> month_first c - startDate \<le> 6
    \<and> month_first c + month_length c - 1 \<le> endDate
    \<and> endDate - (month_first c + month_length c - 1) \<le> 6"
  using assms calendar_bounds_order[of c] week_day_month_first_sunday[of c]
    week_day_calendar_end[of c] week_day_range[of "month_first c"]
  by (simp add: calendar_range_eq render_calendar_map)

theorem grid_interval_witness:
  "render_calendar 0 (make_day 2024 1 14) None []
     = map (render_cell 0 (month_from_time (make_day 2024 1 14)) None []) [make_day 2024 0 28..make_day 2024 2 2]
   \<and> week_day (make_day 2024 0 28) = 0 \<and> week_day (make_day 2024 2 2) = 6
   \<and> make_day 2024 0 28 \<le> month_first (make_day 2024 1 14)
   \<and> month_first (make_day 2024 1 14) - make_day 2024 0 28 \<le> 6
   \<and> month_first (make_day 2024 1 14) + month_length (make_day 2024 1 14) - 1 \<le> make_day 2024 2 2
   \<and> make_day 2024 2 2 - (month_first (make_day 2024 1 14) + month_length (make_day 2024 1 14) - 1) \<le> 6"
  by (rule grid_interval) code_simp

text \<open>C11: The cells not marked \<open>other-month\<close> show the days 1, 2, ...,
  n of the displayed month, each once and in order, where n is the length of the
  month.\<close>

lemma grid_month_days:
  "map cell_date (filter (\<lambda>x. \<not> cell_other_month x) (render_calendar tz c sel memos))
     = [1..month_length c]"
proof -
  let ?F = "month_first c" and ?L = "month_first c + month_length c - 1"
  let ?S = "?F - week_day ?F" and ?E = "?L + (6 - week_day ?L)"
  let ?M = "month_from_time c" and ?f = "render_cell tz (month_from_time c) sel memos"
  have split: "[?S..?E] = [?S..?F - 1] @ [?F..?L] @ [?L + 1..?E]"
    using calendar_bounds_order[of c] by (intro upto_split3_int) simp_all
  have before: "filter (\<lambda>n. month_from_time n = ?M) [?S..?F - 1] = []"
    using month_before_first[of c] calendar_bounds_order(2)[of c]
    by (auto simp: filter_empty_conv)
  have "\<forall>n \<in> set [?L + 1..?E]. month_from_time n \<noteq> ?M"
  proof
    fix n
    assume "n \<in> set [?L + 1..?E]"
    then have "?L < n" "n \<le> ?F + month_length c + 5"
      using calendar_bounds_order(5)[of c] by simp_all
    then show "month_from_time n \<noteq> ?M" by (rule month_after_last)
  qed
  then have after: "filter (\<lambda>n. month_from_time n = ?M) [?L + 1..?E] = []"
    by (simp add: filter_empty_conv)
  have inside: "filter (\<lambda>n. month_from_time n = ?M) [?F..?L] = [?F..?L]"
    using month_days_components(1)[of c] by (auto simp: filter_id_conv)
  have dates: "map date_from_time [?F..?L] = map (\<lambda>n. n + (1 - ?F)) [?F..?L]"
    using month_days_components(2)[of c] by (intro map_cong) simp_all
  have b: "filter (\<lambda>x. \<not> cell_other_month x) (map ?f [?S..?F - 1]) = []"
    using before by (simp add: filter_map comp_def)
  have a: "filter (\<lambda>x. \<not> cell_other_month x) (map ?f [?L + 1..?E]) = []"
    using after by (simp add: filter_map comp_def)
  have i: "filter (\<lambda>x. \<not> cell_other_month x) (map ?f [?F..?L]) = map ?f [?F..?L]"
    using inside by (simp add: filter_map comp_def)
  have "filter (\<lambda>x. \<not> cell_other_month x) (render_calendar tz c sel memos) = map ?f [?F..?L]"
    unfolding render_calendar_map split map_append filter_append b a i by simp
  then show ?thesis
    by (simp add: dates map_add_upto comp_def del: upto.simps)
qed

lemma grid_nth_column:
  assumes "i < length (render_calendar tz c sel memos)"
  shows "render_calendar tz c sel memos ! i
      = render_cell tz (month_from_time c) sel memos (month_first c - week_day (month_first c) + int i)
    \<and> week_day (month_first c - week_day (month_first c) + int i) = int (i mod 7)"
proof -
  let ?S = "month_first c - week_day (month_first c)"
  have "week_day (?S + int i) = int i mod 7"
    using week_day_add[of ?S "int i"] week_day_month_first_sunday[of c] by simp
  moreover have "int i mod 7 = int (i mod 7)" by (simp add: zmod_int)
  ultimately show ?thesis using assms by (simp add: render_calendar_map)
qed

text \<open>C14: The cell in column 0 of each row, and only it, is marked
  \<open>sun\<close>; the cell in column 6, and only it, is marked
  \<open>sat\<close>.\<close>

lemma grid_weekend_flags:
  assumes "i < length (render_calendar tz c sel memos)"
  shows "cell_sun (render_calendar tz c sel memos ! i) = (i mod 7 = 0)
    \<and> cell_sat (render_calendar tz c sel memos ! i) = (i mod 7 = 6)"
  using grid_nth_column[OF assms] by simp

theorem grid_weekend_flags_witness:
  "cell_sun (render_calendar 0 (make_day 2024 1 14) None [] ! 21) = ((21::nat) mod 7 = 0)
   \<and> cell_sat (render_calendar 0 (make_day 2024 1 14) None [] ! 21) = ((21::nat) mod 7 = 6)"
  by (rule grid_weekend_flags) code_simp

lemma grid_days_in_key_range:
  assumes "day_from_year 2 \<le> month_first c" "month_first c < day_from_year 9999"
    and "n \<in> set [month_first c - week_day (month_first c) ..
        month_first c + month_length c - 1 + (6 - week_day (month_first c + month_length c - 1))]"
  shows "day_from_year 1 \<le> n" "n < day_from_year 10000"
proof -
  have "day_from_year 1 + 365 \<le> day_from_year 2"
    using day_from_year_succ[of 1] days_in_year_bounds(1)[of 1] by simp
  moreover have "day_from_year 9999 + 365 \<le> day_from_year 10000"
    using day_from_year_succ[of 9999] days_in_year_bounds(1)[of 9999] by simp
  ultimately show "day_from_year 1 \<le> n" "n < day_from_year 10000"
    using assms calendar_bounds_order[of c] month_length_bounds[of c] by simp_all
qed

lemma month_day_in_grid:
  assumes "1 \<le> d" "d \<le> month_length c"
  shows "month_first c + d - 1 \<in> set [month_first c - week_day (month_first c) ..
     month_first c + month_length c - 1 + (6 - week_day (month_first c + month_length c - 1))]"
  using assms calendar_bounds_order[of c] by simp

lemma grid_key_range:
  assumes tz: "- 1440 < tz" "tz < 1440"
    and r: "day_from_year 2 \<le> month_first c" "month_first c < day_from_year 9999"
    and n: "n \<in> set [month_first c - week_day (month_first c) ..
        month_first c + month_length c - 1 + (6 - week_day (month_first c + month_length c - 1))]"
  shows "format_key tz n = date_key (if 0 < tz then n - 1 else n)"
  using grid_days_in_key_range[OF r n] by (rule format_key_local_or_previous[OF tz])

text \<open>C1: In a time zone less than a day away from UTC, for a displayed month in years 2
  to 9998, the cell for day \<open>n\<close> of the grid shows the day-of-month of \<open>n\<close>. Its key
  (the \<open>key\<close>, the click argument and the memo key) is the date of \<open>n\<close> at UTC or
  west of it, and the date of the previous day \<open>n - 1\<close> for every zone east of UTC.\<close>

theorem grid_cell_keys:
  assumes "- 1440 < tz" "tz < 1440"
    and "day_from_year 2 \<le> month_first c" "month_first c < day_from_year 9999"
    and "calendar_range c = (startDate, endDate)"
  shows "map (\<lambda>x. (cell_key x, cell_date x)) (render_calendar tz c sel mo)
       = map (\<lambda>n. (date_key (if 0 < tz then n - 1 else n), date_from_time n)) [startDate..endDate]"
  using assms grid_key_range[OF assms(1-4)]
  by (simp add: render_calendar_map calendar_range_eq del: upto.simps)

theorem grid_cell_keys_witness:
  "map (\<lambda>x. (cell_key x, cell_date x)) (render_calendar 540 (make_day 2024 1 14) None [])
     = map (\<lambda>n. (date_key (n - 1), date_from_time n)) [make_day 2024 0 28..make_day 2024 2 2]"
proof -
  have h: "- 1440 < (540::int)" "(540::int) < 1440"
    "day_from_year 2 \<le> month_first (make_day 2024 1 14)"
    "month_first (make_day 2024 1 14) < day_from_year 9999"
    "calendar_range (make_day 2024 1 14) = (make_day 2024 0 28, make_day 2024 2 2)"
    by code_simp+
  show ?thesis using grid_cell_keys[OF h, of None "[]"] by simp
qed

lemma grid_format_keys_distinct:
  assumes tz: "- 1440 < tz" "tz < 1440"
    and r: "day_from_year 2 \<le> month_first c" "month_first c < day_from_year 9999"
  shows "distinct (map (format_key tz) [month_first c - week_day (month_first c) ..
        month_first c + month_length c - 1 + (6 - week_day (month_first c + month_length c - 1))])"
proof -
  let ?xs = "[month_first c - week_day (month_first c) ..
        month_first c + month_length c - 1 + (6 - week_day (month_first c + month_length c - 1))]"
  have "inj_on (format_key tz) (set ?xs)"
  proof (rule inj_onI)
    fix x y
    assume "x \<in> set ?xs" "y \<in> set ?xs" "format_key tz x = format_key tz y"
    then show "x = y"
      using format_key_inj[OF tz] grid_days_in_key_range[OF r] by blast
  qed
  then show ?thesis by (simp add: distinct_map del: upto.simps)
qed

text \<open>C15: Every key of the grid has the specification's DateKey type: a zero-padded
  \<open>YYYY-MM-DD\<close> string that names a real calendar day, for a time zone less than a day
  from UTC and a displayed month in years 2 to 9998.\<close>

lemma grid_keys_well_formed:
  assumes tz: "- 1440 < tz" "tz < 1440"
    and r: "day_from_year 2 \<le> month_first c" "month_first c < day_from_year 9999"
  shows "list_all is_date_key (map cell_key (render_calendar tz c sel memos))"
proof -
  have "is_date_key (format_key tz n)"
    if n: "n \<in> set [month_first c - week_day (month_first c) ..
        month_first c + month_length c - 1 + (6 - week_day (month_first c + month_length c - 1))]"
    for n
  proof -
    let ?u = "if 0 < tz then n - 1 else n"
    have b: "day_from_year 1 \<le> n" "n < day_from_year 10000" by (rule grid_days_in_key_range[OF r n])+
    have "0 \<le> year_from_time ?u" "year_from_time ?u \<le> 9999"
      using year_range_near[OF b, of ?u] by simp_all
    then show ?thesis
      using format_key_local_or_previous[OF tz b] is_date_key_date_key by simp
  qed
  then show ?thesis by (simp add: render_calendar_map list_all_iff del: upto.simps)
qed

theorem grid_keys_well_formed_witness:
  "list_all is_date_key (map cell_key (render_calendar 540 (make_day 2024 1 14) None []))"
  by (rule grid_keys_well_formed) (code_simp+)

text \<open>C7: For a time zone less than a day from UTC and a displayed month in years 2
  to 9998, the keys of the cells (the React \<open>key\<close> of each \<open><div>\<close>)
  are pairwise distinct.\<close>

lemma grid_keys_distinct:
  assumes tz: "- 1440 < tz" "tz < 1440"
    and r: "day_from_year 2 \<le> month_first c" "month_first c < day_from_year 9999"
  shows "distinct (map cell_key (render_calendar tz c sel memos))"
  using grid_format_keys_distinct[OF tz r]
  by (simp add: render_calendar_map comp_def del: upto.simps)

theorem grid_keys_distinct_witness:
  "distinct (map cell_key (render_calendar 540 (make_day 2024 1 14) None []))"
  by (rule grid_keys_distinct) (code_simp+)

text \<open>C10: Under the same bounds, at most one cell of the grid is marked
  \<open>selected\<close>, whatever the selected key.\<close>

lemma grid_single_selected:
  assumes tz: "- 1440 < tz" "tz < 1440"
    and r: "day_from_year 2 \<le> month_first c" "month_first c < day_from_year 9999"
  shows "length (filter cell_selected (render_calendar tz c sel memos)) \<le> 1"
proof (cases sel)
  case None
  then show ?thesis by (simp add: render_calendar_map filter_empty_conv del: upto.simps)
next
  case (Some k)
  have "filter cell_selected (render_calendar tz c sel memos)
      = filter (\<lambda>x. cell_key x = k) (render_calendar tz c sel memos)"
    using Some by (simp add: render_calendar_map filter_map comp_def eq_commute del: upto.simps)
  then show ?thesis
    using length_filter_key_le_1[of cell_key "render_calendar tz c sel memos" k]
      grid_format_keys_distinct[OF tz r]
    by (simp add: render_calendar_map comp_def del: upto.simps)
qed

theorem grid_single_selected_witness:
  "length (filter cell_selected (render_calendar 540 (make_day 2024 1 14) (Some ''2024-02-13'') [])) \<le> 1"
  by (rule grid_single_selected) (code_simp+)

text \<open>C35: \<open>daysInMonth = lastDay.getDate()\<close> is the number of days of the displayed
  month, between 28 and 31: the day before the first of the next month is the last day of
  this one.\<close>

theorem days_in_view_month_value:
  "days_in_view_month c = month_length c
   \<and> 28 \<le> days_in_view_month c \<and> days_in_view_month c \<le> 31"
  using new_date_last_day[of c] month_last_components(3)[of c] month_length_bounds[of c]
  by (simp add: days_in_view_month_def)

end
