(* ===== verification/Json.thy ===== *)
theory Json
  imports MemoStore DateKey
begin

text \<open>
  The persistence format of \<^verbatim>\<open>App.jsx\<close>: \<open>localStorage.setItem('memos',
  JSON.stringify(memos))\<close> and \<open>JSON.parse(storedMemos)\<close> (lines 11 to 21).
  \<open>json_stringify\<close> is \<open>JSON.stringify\<close> on an object whose values are strings, with
  \<open>quote_json_string\<close> the specification's \<open>QuoteJSONString\<close>; \<open>json_parse\<close> is
  \<open>JSON.parse\<close> on the whole JSON grammar (RFC 8259), \<open>None\<close> standing for the
  \<open>SyntaxError\<close> it throws. Nested values are parsed with fuel: \<open>json_parse\<close> gives
  the parser one more unit of fuel than its input has characters, and every nested call
  consumes a character (theory \<open>JsonFuel\<close> proves that this fuel is never what makes the
  parse fail). Scalars (strings, literals, numbers) are read by \<open>parse_scalar\<close>. \<open>memos_of_json\<close> is the object \<open>JSON.parse\<close> builds from an object of
  strings (later duplicates overwrite earlier ones in place, as \<open>CreateDataProperty\<close>
  does). Characters are bytes: a unicode escape of a code unit above 255 is outside the
  model and reads as \<open>None\<close>.
\<close>

datatype json =
    JNull
  | JBool bool
  | JNum string
  | JStr string
  | JArr "json list"
  | JObj "(string \<times> json) list"

definition hex_digit :: "int \<Rightarrow> char" where
  "hex_digit d = (if d < 10 then char_of (48 + d) else char_of (87 + d))"

definition quote_char :: "char \<Rightarrow> string" where
  "quote_char c =
     (if c = CHR 0x08 then [CHR 0x5C, CHR ''b''] else if c = CHR 0x09 then [CHR 0x5C, CHR ''t'']
      else if c = CHR 0x0A then [CHR 0x5C, CHR ''n''] else if c = CHR 0x0C then [CHR 0x5C, CHR ''f'']
      else if c = CHR 0x0D then [CHR 0x5C, CHR ''r''] else if c = CHR 0x22 then [CHR 0x5C, CHR 0x22]
      else if c = CHR 0x5C then [CHR 0x5C, CHR 0x5C]
      else if (of_char c :: int) < 32
      then [CHR 0x5C, CHR ''u'', CHR ''0'', CHR ''0''] @ [hex_digit ((of_char c :: int) div 16), hex_digit ((of_char c :: int) mod 16)]
      else [c])"

definition quote_json_string :: "string \<Rightarrow> string" where
  "quote_json_string s = [CHR 0x22] @ concat (map quote_char s) @ [CHR 0x22]"

definition json_member :: "string \<times> string \<Rightarrow> string" where
  "json_member kv = quote_json_string (fst kv) @ '':'' @ quote_json_string (snd kv)"

fun join_members :: "string list \<Rightarrow> string" where
  "join_members [] = []"
| "join_members [x] = x"
| "join_members (x # xs) = x @ '','' @ join_members xs"

definition json_stringify :: "memo_obj \<Rightarrow> string" where
  "json_stringify m = ''{'' @ join_members (map json_member m) @ ''}''"

subsection \<open>JSON.parse\<close>

definition is_ws :: "char \<Rightarrow> bool" where
  "is_ws c = (c = CHR 0x20 \<or> c = CHR 0x09 \<or> c = CHR 0x0A \<or> c = CHR 0x0D)"

definition skip_ws :: "string \<Rightarrow> string" where
  "skip_ws s = dropWhile is_ws s"

definition hex_val :: "char \<Rightarrow> int option" where
  "hex_val c =
     (let n = (of_char c :: int) in
      if 48 \<le> n \<and> n \<le> 57 then Some (n - 48)
      else if 97 \<le> n \<and> n \<le> 102 then Some (n - 87)
      else if 65 \<le> n \<and> n \<le> 70 then Some (n - 55)
      else None)"

definition unicode_escape :: "char \<Rightarrow> char \<Rightarrow> char \<Rightarrow> char \<Rightarrow> char option" where
  "unicode_escape a b c d =
     (case (hex_val a, hex_val b, hex_val c, hex_val d) of
        (Some x, Some y, Some z, Some w) \<Rightarrow>
          (let u = ((x * 16 + y) * 16 + z) * 16 + w in if u < 256 then Some (char_of u) else None)
      | _ \<Rightarrow> None)"

definition simple_escape :: "char \<Rightarrow> char option" where
  "simple_escape c =
     (if c = CHR 0x22 then Some (CHR 0x22) else if c = CHR 0x5C then Some (CHR 0x5C)
      else if c = CHR ''/'' then Some (CHR ''/'') else if c = CHR ''b'' then Some (CHR 0x08)
      else if c = CHR ''f'' then Some (CHR 0x0C) else if c = CHR ''n'' then Some (CHR 0x0A)
      else if c = CHR ''r'' then Some (CHR 0x0D) else if c = CHR ''t'' then Some (CHR 0x09)
      else None)"

text \<open>The characters of a string literal after its opening quote, up to the closing
  one; the result is the decoded text and the input after the quote.\<close>

fun parse_chars :: "string \<Rightarrow> (string \<times> string) option" where
  "parse_chars [] = None"
| "parse_chars (c # r) =
     (if c = CHR 0x22 then Some ([], r)
      else if c = CHR 0x5C then
        (case r of
           [] \<Rightarrow> None
         | e # r' \<Rightarrow>
             (if e = CHR ''u'' then
                (case r' of
                   a # b # c' # d # r'' \<Rightarrow>
                     (case unicode_escape a b c' d of
                        None \<Rightarrow> None
                      | Some x \<Rightarrow> map_option (\<lambda>(s, rest). (x # s, rest)) (parse_chars r''))
                 | _ \<Rightarrow> None)
              else
                (case simple_escape e of
                   None \<Rightarrow> None
                 | Some x \<Rightarrow> map_option (\<lambda>(s, rest). (x # s, rest)) (parse_chars r'))))
      else if (of_char c :: int) < 32 then None
      else map_option (\<lambda>(s, rest). (c # s, rest)) (parse_chars r))"

definition parse_number :: "string \<Rightarrow> (json \<times> string) option" where
  "parse_number s =
     (let (sign, r0) = (if s \<noteq> [] \<and> hd s = CHR ''-'' then (''-'', tl s) else ([], s));
          int_part = takeWhile is_digit r0; r1 = dropWhile is_digit r0
      in if int_part = [] \<or> (hd int_part = CHR ''0'' \<and> length int_part > 1) then None
         else
           (let (frac, r2) =
                  (if r1 \<noteq> [] \<and> hd r1 = CHR ''.''
                   then (CHR ''.'' # takeWhile is_digit (tl r1), dropWhile is_digit (tl r1))
                   else ([], r1))
            in if frac = ''.'' then None
               else
                 (let (ex, r3) =
                        (if r2 \<noteq> [] \<and> (hd r2 = CHR ''e'' \<or> hd r2 = CHR ''E'')
                         then (let r2' = tl r2;
                                   (sg, r2'') = (if r2' \<noteq> [] \<and> (hd r2' = CHR ''+'' \<or> hd r2' = CHR ''-'')
                                                 then ([hd r2'], tl r2') else ([], r2'))
                               in (hd r2 # sg @ takeWhile is_digit r2'', dropWhile is_digit r2''))
                         else ([], r2))
                  in if ex \<noteq> [] \<and> \<not> is_digit (last ex) then None
                     else Some (JNum (sign @ int_part @ frac @ ex), r3))))"

text \<open>A value that holds no nested value: a string, a literal or a number, after its first
  character \<open>c\<close>.\<close>

definition parse_scalar :: "char \<Rightarrow> string \<Rightarrow> (json \<times> string) option" where
  "parse_scalar c r =
     (if c = CHR 0x22 then map_option (\<lambda>(t, rest). (JStr t, rest)) (parse_chars r)
      else if take 4 (c # r) = ''true'' then Some (JBool True, drop 3 r)
      else if take 5 (c # r) = ''false'' then Some (JBool False, drop 4 r)
      else if take 4 (c # r) = ''null'' then Some (JNull, drop 3 r)
      else parse_number (c # r))"

fun parse_value :: "nat \<Rightarrow> string \<Rightarrow> (json \<times> string) option"
and parse_elements :: "nat \<Rightarrow> json list \<Rightarrow> string \<Rightarrow> (json \<times> string) option"
and parse_members :: "nat \<Rightarrow> (string \<times> json) list \<Rightarrow> string \<Rightarrow> (json \<times> string) option"
where
  "parse_value 0 s = None"
| "parse_value (Suc n) s =
     (case skip_ws s of
        [] \<Rightarrow> None
      | c # r \<Rightarrow>
          map_option (\<lambda>(v, rest). (v, skip_ws rest))
           (if c = CHR ''{'' then
              (case skip_ws r of
                 d # r' \<Rightarrow> if d = CHR ''}'' then Some (JObj [], r') else parse_members n [] r
               | [] \<Rightarrow> None)
            else if c = CHR ''['' then
              (case skip_ws r of
                 d # r' \<Rightarrow> if d = CHR '']'' then Some (JArr [], r') else parse_elements n [] r
               | [] \<Rightarrow> None)
            else parse_scalar c r))"
| "parse_elements 0 acc s = None"
| "parse_elements (Suc n) acc s =
     (case parse_value n s of
        None \<Rightarrow> None
      | Some (v, r) \<Rightarrow>
          (case r of
             d # r' \<Rightarrow>
               if d = CHR '','' then parse_elements n (acc @ [v]) r'
               else if d = CHR '']'' then Some (JArr (acc @ [v]), r')
               else None
           | [] \<Rightarrow> None))"
| "parse_members 0 acc s = None"
| "parse_members (Suc n) acc s =
     (case skip_ws s of
        d # r \<Rightarrow>
          if d \<noteq> CHR 0x22 then None
          else
            (case parse_chars r of
               None \<Rightarrow> None
             | Some (k, r1) \<Rightarrow>
                 (case skip_ws r1 of
                    e # r2 \<Rightarrow>
                      if e \<noteq> CHR '':'' then None
                      else
                        (case parse_value n r2 of
                           None \<Rightarrow> None
                         | Some (v, r3) \<Rightarrow>
                             (case r3 of
                                f # r4 \<Rightarrow>
                                  if f = CHR '','' then parse_members n (acc @ [(k, v)]) r4
                                  else if f = CHR ''}'' then Some (JObj (acc @ [(k, v)]), r4)
                                  else None
                              | [] \<Rightarrow> None))
                  | [] \<Rightarrow> None))
      | [] \<Rightarrow> None)"

definition json_parse :: "string \<Rightarrow> json option" where
  "json_parse s =
     (case parse_value (Suc (length s)) s of
        Some (v, []) \<Rightarrow> Some v
      | _ \<Rightarrow> None)"

fun memos_of_members :: "memo_obj \<Rightarrow> (string \<times> json) list \<Rightarrow> memo_obj option" where
  "memos_of_members acc [] = Some acc"
| "memos_of_members acc ((k, JStr v) # ms) = memos_of_members (obj_set acc k v) ms"
| "memos_of_members acc (_ # ms) = None"

fun memos_of_json :: "json \<Rightarrow> memo_obj option" where
  "memos_of_json (JObj ms) = memos_of_members [] ms"
| "memos_of_json _ = None"

subsection \<open>Round trip of the memo object\<close>

lemma hex_val_hex_digit: "0 \<le> d \<Longrightarrow> d < 16 \<Longrightarrow> hex_val (hex_digit d) = Some d"
  by (auto simp: hex_val_def hex_digit_def)

lemma quote_char_control:
  assumes "(of_char c :: int) < 32"
  shows "unicode_escape (CHR ''0'') (CHR ''0'') (hex_digit ((of_char c :: int) div 16))
      (hex_digit ((of_char c :: int) mod 16)) = Some c"
proof -
  let ?n = "of_char c :: int"
  have n: "0 \<le> ?n" using of_nat_of_char[of c, where 'a = int] by (metis of_nat_0_le_iff)
  have d: "0 \<le> ?n div 16" "?n div 16 < 16" using assms n by simp_all
  have m: "0 \<le> ?n mod 16" "?n mod 16 < 16" by simp_all
  have "hex_val (hex_digit (?n mod 16)) = Some (?n mod 16)"
    using m by (rule hex_val_hex_digit)
  moreover have "hex_val (hex_digit (?n div 16)) = Some (?n div 16)"
    using d by (rule hex_val_hex_digit)
  moreover have "(?n div 16) * 16 + ?n mod 16 = ?n" by simp
  ultimately show ?thesis using assms by (simp add: unicode_escape_def hex_val_def)
qed

lemma parse_chars_quote_char:
  "parse_chars (quote_char c @ r) = map_option (\<lambda>(s, rest). (c # s, rest)) (parse_chars r)"
proof (cases "c = CHR 0x08 \<or> c = CHR 0x09 \<or> c = CHR 0x0A \<or> c = CHR 0x0C \<or> c = CHR 0x0D
    \<or> c = CHR 0x22 \<or> c = CHR 0x5C")
  case True
  then show ?thesis by (elim disjE) (simp_all add: quote_char_def simple_escape_def)
next
  case False
  show ?thesis
  proof (cases "(of_char c :: int) < 32")
    case True
    with False show ?thesis by (simp add: quote_char_def quote_char_control)
  next
    case ge: False
    with False show ?thesis by (simp add: quote_char_def)
  qed
qed

lemma parse_chars_quoted:
  "parse_chars (concat (map quote_char s) @ CHR 0x22 # r) = Some (s, r)"
  by (induction s) (simp_all add: parse_chars_quote_char)

lemma skip_ws_Nil [simp]: "skip_ws [] = []"
  by (simp add: skip_ws_def)

lemma skip_ws_non_ws [simp]: "\<not> is_ws c \<Longrightarrow> skip_ws (c # r) = c # r"
  by (simp add: skip_ws_def)

lemma not_ws_syntax [simp]:
  "\<not> is_ws (CHR 0x22)" "\<not> is_ws (CHR '':'')" "\<not> is_ws (CHR '','')" "\<not> is_ws (CHR ''}'')"
  "\<not> is_ws (CHR ''{'')"
  by (simp_all add: is_ws_def)

lemma parse_scalar_string:
  "parse_scalar (CHR 0x22) (concat (map quote_char v) @ CHR 0x22 # r) = Some (JStr v, r)"
  by (simp add: parse_scalar_def parse_chars_quoted)

lemma parse_value_string:
  "parse_value (Suc n) (quote_json_string s @ r) = Some (JStr s, skip_ws r)"
  by (simp add: quote_json_string_def parse_chars_quoted parse_scalar_def)

lemma parse_members_next:
  "parse_members (Suc (Suc n)) acc (json_member (k, v) @ CHR '','' # x)
     = parse_members (Suc n) (acc @ [(k, JStr v)]) x"
  by (simp only: parse_members.simps(2)[of "Suc n"])
     (simp add: json_member_def quote_json_string_def parse_chars_quoted
        parse_value_string[unfolded quote_json_string_def] parse_scalar_string del: parse_members.simps)

lemma parse_members_last:
  "parse_members (Suc (Suc n)) acc (json_member (k, v) @ CHR ''}'' # r)
     = Some (JObj (acc @ [(k, JStr v)]), r)"
  by (simp add: json_member_def quote_json_string_def parse_chars_quoted
        parse_value_string[unfolded quote_json_string_def] parse_scalar_string)

lemma parse_members_stringify:
  "m \<noteq> [] \<Longrightarrow> length m < n \<Longrightarrow>
     parse_members n acc (join_members (map json_member m) @ CHR ''}'' # r)
       = Some (JObj (acc @ map (\<lambda>(k, v). (k, JStr v)) m), r)"
proof (induction m arbitrary: acc n)
  case Nil
  then show ?case by simp
next
  case (Cons kv m)
  obtain n' where n: "n = Suc n'" "length m < n'" using Cons.prems(2)
    by (cases n) auto
  then obtain n'' where n'': "n' = Suc n''" by (cases n') auto
  obtain k v where kv: "kv = (k, v)" by (cases kv)
  show ?case
  proof (cases m)
    case Nil
    then show ?thesis using n n'' kv parse_members_last by simp
  next
    case (Cons kv' ms)
    then have ne: "m \<noteq> []" by simp
    have "join_members (map json_member (kv # m)) @ CHR ''}'' # r
        = json_member (k, v) @ CHR '','' # (join_members (map json_member m) @ CHR ''}'' # r)"
      using Cons kv by simp
    then show ?thesis
      using n n'' kv parse_members_next Cons.IH[OF ne n(2), of "acc @ [(k, JStr v)]"] by simp
  qed
qed

lemma length_json_member: "0 < length (json_member kv)"
  by (simp add: json_member_def quote_json_string_def)

lemma length_join_members: "length xs \<le> length (join_members (map json_member xs))"
proof (induction xs rule: induct_list012)
  case (3 x y zs)
  then show ?case using length_json_member[of x] by simp
qed (use length_json_member in \<open>simp_all add: Suc_le_eq\<close>)

lemma json_parse_stringify:
  "json_parse (json_stringify m) = Some (JObj (map (\<lambda>(k, v). (k, JStr v)) m))"
proof (cases m)
  case Nil
  then show ?thesis by (simp add: json_parse_def json_stringify_def skip_ws_def)
next
  case (Cons kv ms)
  obtain k v where kv: "kv = (k, v)" by (cases kv)
  let ?s = "json_stringify m"
  have len: "length m < length ?s"
    using length_join_members[of m] by (simp add: json_stringify_def)
  have first: "join_members (map json_member m) @ ''}'' = CHR 0x22 # tl (join_members (map json_member m) @ ''}'')"
    using Cons kv by (cases ms) (simp_all add: json_member_def quote_json_string_def)
  have "parse_value (Suc (length ?s)) ?s
      = map_option (\<lambda>(v, rest). (v, skip_ws rest))
          (parse_members (length ?s) [] (join_members (map json_member m) @ ''}''))"
    by (subst json_stringify_def, simp del: parse_members.simps, subst first, simp del: parse_members.simps)
  also have "\<dots> = Some (JObj (map (\<lambda>(k, v). (k, JStr v)) m), [])"
    using parse_members_stringify[of m "length ?s" "[]" "[]"] len Cons by (simp add: skip_ws_def)
  finally show ?thesis by (simp add: json_parse_def)
qed

lemma memos_of_members_strings:
  "distinct (obj_keys (acc @ m)) \<Longrightarrow>
     memos_of_members acc (map (\<lambda>(k, v). (k, JStr v)) m) = Some (acc @ m)"
proof (induction m arbitrary: acc)
  case Nil
  then show ?case by simp
next
  case (Cons kv m)
  obtain k v where kv: "kv = (k, v)" by (cases kv)
  have "k \<notin> set (obj_keys acc)" using Cons.prems kv by (simp add: obj_keys_def)
  then have "obj_set acc k v = acc @ [(k, v)]" by (rule obj_set_absent)
  then show ?case using Cons kv by simp
qed

text \<open>C27: \<open>JSON.parse(JSON.stringify(memos))\<close> gives back the same
  object, with its keys in the same order, for every object with distinct keys and arbitrary
  string values (quotes, backslashes and control characters included); the fuel given to the
  parser is always enough.\<close>

lemma json_roundtrip:
  "obj_wf m \<Longrightarrow> Option.bind (json_parse (json_stringify m)) memos_of_json = Some m"
  using memos_of_members_strings[of "[]" m] by (simp add: json_parse_stringify obj_wf_def)

theorem json_roundtrip_witness:
  "Option.bind (json_parse (json_stringify [(''2024-02-14'', [CHR 0x22, CHR 0x5C, CHR 0x0A, CHR 0x01]),
      (''2024-02-15'', ''x'')])) memos_of_json
     = Some [(''2024-02-14'', [CHR 0x22, CHR 0x5C, CHR 0x0A, CHR 0x01]), (''2024-02-15'', ''x'')]"
  by (rule json_roundtrip) (simp add: obj_wf_def obj_keys_def)

end
