(* ===== verification/JsonFuel.thy ===== *)
theory JsonFuel
  imports Json
begin

text \<open>
  Adequacy of the fuel that \<open>json_parse\<close> gives the parser of \<open>Json\<close>. Every
  successful parse consumes input (\<open>parse_rest_shorter\<close>), and a parse that succeeds with
  some fuel succeeds with any fuel exceeding the number of characters it consumes
  (\<open>parse_fuel\<close>). Hence \<open>json_parse\<close>, which gives the length of the text plus one,
  accepts exactly the texts that some amount of fuel accepts (\<open>json_parse_adequate\<close>):
  a \<open>None\<close> is a genuine \<open>SyntaxError\<close>, never an artefact of the fuel.
\<close>

lemma length_skip_ws: "length (skip_ws s) \<le> length s"
  by (simp add: skip_ws_def length_dropWhile_le)

lemma skip_ws_Cons_length: "skip_ws s = c # r \<Longrightarrow> length r < length s"
  using length_skip_ws[of s] by simp

lemma parse_chars_length: "parse_chars s = Some p \<Longrightarrow> length (snd p) < length s"
proof (induction s arbitrary: p rule: parse_chars.induct)
  case (2 c r)
  then show ?case
    by (auto split: if_splits option.splits list.splits) (fastforce+)
qed simp

lemma parse_number_length:
  assumes p: "parse_number s = Some (v, r)"
  shows "length r < length s"
proof -
  define sign_r0 where "sign_r0 = (if s \<noteq> [] \<and> hd s = CHR ''-'' then (''-'', tl s) else ([], s))"
  obtain sign r0 where sr: "sign_r0 = (sign, r0)" by (cases sign_r0)
  have r0: "length r0 \<le> length s" using sr by (auto simp: sign_r0_def split: if_splits)
  define r1 where "r1 = dropWhile is_digit r0"
  have ne: "takeWhile is_digit r0 \<noteq> []"
    using p sr by (auto simp: parse_number_def sign_r0_def Let_def split: if_splits)
  have r1: "length r1 < length r0"
  proof -
    have "length (takeWhile is_digit r0) + length r1 = length r0"
      unfolding r1_def by (metis length_append takeWhile_dropWhile_id)
    then show ?thesis using ne by (cases "takeWhile is_digit r0") auto
  qed
  define fr where "fr = (if r1 \<noteq> [] \<and> hd r1 = CHR ''.''
                   then (CHR ''.'' # takeWhile is_digit (tl r1), dropWhile is_digit (tl r1))
                   else ([], r1))"
  obtain frac r2 where fr2: "fr = (frac, r2)" by (cases fr)
  have r2: "length r2 \<le> length r1"
    using fr2 by (auto simp: fr_def split: if_splits intro: order.trans[OF length_dropWhile_le])
  define ex where "ex = (if r2 \<noteq> [] \<and> (hd r2 = CHR ''e'' \<or> hd r2 = CHR ''E'')
                         then (let r2' = tl r2;
                                   (sg, r2'') = (if r2' \<noteq> [] \<and> (hd r2' = CHR ''+'' \<or> hd r2' = CHR ''-'')
                                                 then ([hd r2'], tl r2') else ([], r2'))
                               in (hd r2 # sg @ takeWhile is_digit r2'', dropWhile is_digit r2''))
                         else ([], r2))"
  obtain e r3 where ex3: "ex = (e, r3)" by (cases ex)
  have r3: "length r3 \<le> length r2"
    using ex3 by (auto simp: ex_def Let_def split: if_splits prod.splits
        intro: order.trans[OF length_dropWhile_le])
  have "r = r3"
    using p sr fr2 ex3 unfolding parse_number_def sign_r0_def r1_def fr_def ex_def
    by (simp add: Let_def split: if_splits)
  then show ?thesis using r0 r1 r2 r3 by simp
qed

lemma parse_scalar_length:
  assumes "parse_scalar c r = Some p"
  shows "length (snd p) < length (c # r)"
proof (cases "c = CHR 0x22")
  case True
  then obtain t where "parse_chars r = Some (t, snd p)"
    using assms by (auto simp: parse_scalar_def)
  then show ?thesis using parse_chars_length by fastforce
next
  case False
  show ?thesis
  proof (cases "take 4 (c # r) = ''true'' \<or> take 5 (c # r) = ''false'' \<or> take 4 (c # r) = ''null''")
    case True
    then show ?thesis using False assms by (auto simp: parse_scalar_def split: if_splits)
  next
    case lit: False
    have "parse_scalar c r = parse_number (c # r)"
      unfolding parse_scalar_def using False lit by (simp only: if_False de_Morgan_disj)
    then have "parse_number (c # r) = Some p" using assms by simp
    then show ?thesis using parse_number_length[of "c # r" "fst p" "snd p"] by simp
  qed
qed

text \<open>One unfolding of \<open>parse_value\<close> on a non-blank input, by the kind of its first character.\<close>

lemma parse_value_Cons:
  assumes "skip_ws s = c # r"
  shows "parse_value (Suc n) s =
    map_option (\<lambda>(v, rest). (v, skip_ws rest))
      (if c = CHR ''{'' then
         (case skip_ws r of
            d # r' \<Rightarrow> if d = CHR ''}'' then Some (JObj [], r') else parse_members n [] r
          | [] \<Rightarrow> None)
       else if c = CHR ''['' then
         (case skip_ws r of
            d # r' \<Rightarrow> if d = CHR '']'' then Some (JArr [], r') else parse_elements n [] r
          | [] \<Rightarrow> None)
       else parse_scalar c r)"
  using assms by (simp only: parse_value.simps(2) list.case)

lemma parse_value_Nil: "skip_ws s = [] \<Longrightarrow> parse_value (Suc n) s = None"
  by (simp only: parse_value.simps(2) list.case)

lemma parse_value_scalar:
  "skip_ws s = c # r \<Longrightarrow> c \<noteq> CHR ''{'' \<Longrightarrow> c \<noteq> CHR ''['' \<Longrightarrow>
     parse_value (Suc n) s = map_option (\<lambda>(v, rest). (v, skip_ws rest)) (parse_scalar c r)"
  by (simp only: parse_value_Cons if_False)

lemma parse_value_obj:
  "skip_ws s = CHR ''{'' # r \<Longrightarrow>
     parse_value (Suc n) s = map_option (\<lambda>(v, rest). (v, skip_ws rest))
       (case skip_ws r of
          d # r' \<Rightarrow> if d = CHR ''}'' then Some (JObj [], r') else parse_members n [] r
        | [] \<Rightarrow> None)"
  by (simp only: parse_value_Cons refl if_True)

lemma parse_value_arr:
  "skip_ws s = CHR ''['' # r \<Longrightarrow>
     parse_value (Suc n) s = map_option (\<lambda>(v, rest). (v, skip_ws rest))
       (case skip_ws r of
          d # r' \<Rightarrow> if d = CHR '']'' then Some (JArr [], r') else parse_elements n [] r
        | [] \<Rightarrow> None)"
proof -
  have "(CHR ''['' = CHR ''{'') = False" by simp
  moreover assume "skip_ws s = CHR ''['' # r"
  ultimately show ?thesis by (simp only: parse_value_Cons refl if_True if_False)
qed

lemma parse_rest_shorter:
  "parse_value n s = Some p \<Longrightarrow> length (snd p) < length s"
  "parse_elements n acc s = Some p \<Longrightarrow> length (snd p) < length s"
  "parse_members n macc s = Some p \<Longrightarrow> length (snd p) < length s"
proof (induction n s and n acc s and n macc s arbitrary: p and p and p
    rule: parse_value_parse_elements_parse_members.induct)
  case (2 n s)
  show ?case
  proof (cases "skip_ws s")
    case Nil
    then show ?thesis using "2.prems" parse_value_Nil by simp
  next
    case sw: (Cons c r)
    have cr: "length r < length s" using sw by (rule skip_ws_Cons_length)
    consider (obj) "c = CHR ''{''" | (arr) "c = CHR ''[''" | (sc) "c \<noteq> CHR ''{''" "c \<noteq> CHR ''[''"
      by blast
    then show ?thesis
    proof cases
      case sc
      then obtain q where q: "parse_scalar c r = Some q" "p = (fst q, skip_ws (snd q))"
        using "2.prems" parse_value_scalar[OF sw sc] by (auto split: prod.splits)
      show ?thesis using parse_scalar_length[OF q(1)] q(2) sw length_skip_ws[of "snd q"]
        skip_ws_Cons_length[OF sw] by auto
    next
      case obj
      show ?thesis
      proof (cases "skip_ws r")
        case Nil
        then show ?thesis using "2.prems" parse_value_obj[of s r n] sw obj by simp
      next
        case sw2: (Cons d r')
        have r': "length r' < length r" using sw2 by (rule skip_ws_Cons_length)
        show ?thesis
        proof (cases "d = CHR ''}''")
          case True
          then show ?thesis
            using "2.prems" parse_value_obj[of s r n] sw sw2 obj cr r' length_skip_ws[of r'] by auto
        next
          case False
          then obtain q where q: "parse_members n [] r = Some q" "p = (fst q, skip_ws (snd q))"
            using "2.prems" parse_value_obj[of s r n] sw sw2 obj by (auto split: prod.splits)
          have "length (snd q) < length r" by (rule "2.IH"(1)[OF sw obj sw2 False q(1)])
          then show ?thesis using q(2) cr length_skip_ws[of "snd q"] by simp
        qed
      qed
    next
      case arr
      have nobj: "c \<noteq> CHR ''{''" using arr by simp
      show ?thesis
      proof (cases "skip_ws r")
        case Nil
        then show ?thesis using "2.prems" parse_value_arr[of s r n] sw arr by simp
      next
        case sw2: (Cons d r')
        have r': "length r' < length r" using sw2 by (rule skip_ws_Cons_length)
        show ?thesis
        proof (cases "d = CHR '']''")
          case True
          then show ?thesis
            using "2.prems" parse_value_arr[of s r n] sw sw2 arr cr r' length_skip_ws[of r'] by auto
        next
          case False
          then obtain q where q: "parse_elements n [] r = Some q" "p = (fst q, skip_ws (snd q))"
            using "2.prems" parse_value_arr[of s r n] sw sw2 arr by (auto split: prod.splits)
          have "length (snd q) < length r" by (rule "2.IH"(2)[OF sw nobj arr sw2 False q(1)])
          then show ?thesis using q(2) cr length_skip_ws[of "snd q"] by simp
        qed
      qed
    qed
  qed
next
  case (4 n acc s)
  obtain v r where v: "parse_value n s = Some (v, r)"
    using "4.prems" by (auto split: option.splits)
  have r: "length r < length s" using "4.IH"(1)[OF v] by simp
  obtain d r' where d: "r = d # r'" using "4.prems" v by (cases r) auto
  show ?case
  proof (cases "d = CHR '',''")
    case True
    then have "parse_elements n (acc @ [v]) r' = Some p" using "4.prems" v d by simp
    then have "length (snd p) < length r'" using "4.IH"(2)[OF v refl d True] by simp
    then show ?thesis using r d by simp
  next
    case False
    then show ?thesis using "4.prems" v d r by (auto split: if_splits)
  qed
next
  case (6 n macc s)
  obtain d r where sw: "skip_ws s = d # r" using "6.prems" by (auto split: list.splits)
  obtain k r1 where k: "parse_chars r = Some (k, r1)"
    using "6.prems" sw by (auto split: if_splits option.splits)
  obtain e r2 where e: "skip_ws r1 = e # r2"
    using "6.prems" sw k by (auto split: if_splits list.splits)
  have dq: "\<not> d \<noteq> CHR 0x22" using "6.prems" sw by (auto split: if_splits)
  have colon: "\<not> e \<noteq> CHR '':''" using "6.prems" sw k e by (auto split: if_splits)
  obtain v r3 where v: "parse_value n r2 = Some (v, r3)"
    using "6.prems" sw k e by (auto split: if_splits option.splits)
  have "length r2 < length s"
    using skip_ws_Cons_length[OF sw] parse_chars_length[OF k] skip_ws_Cons_length[OF e] by simp
  moreover have "length r3 < length r2"
    using "6.IH"(1)[OF sw dq k refl e colon v] by simp
  ultimately have r3: "length r3 < length s" by simp
  obtain f r4 where f: "r3 = f # r4" using "6.prems" sw k e v by (cases r3) (auto split: if_splits)
  show ?case
  proof (cases "f = CHR '',''")
    case True
    then have "parse_members n (macc @ [(k, v)]) r4 = Some p"
      using "6.prems" sw k e v f by (auto split: if_splits)
    then have "length (snd p) < length r4"
      using "6.IH"(2)[OF sw dq k refl e colon v refl f True] by simp
    then show ?thesis using r3 f by simp
  next
    case False
    then show ?thesis using "6.prems" sw k e v f r3 by (auto split: if_splits)
  qed
qed simp_all

lemma parse_fuel:
  "parse_value n s = Some p \<Longrightarrow> Suc (length s - length (snd p)) \<le> m \<Longrightarrow> parse_value m s = Some p"
  "parse_elements n acc s = Some p \<Longrightarrow> Suc (length s - length (snd p)) \<le> m \<Longrightarrow>
     parse_elements m acc s = Some p"
  "parse_members n macc s = Some p \<Longrightarrow> Suc (length s - length (snd p)) \<le> m \<Longrightarrow>
     parse_members m macc s = Some p"
proof (induction n s and n acc s and n macc s arbitrary: p m and p m and p m
    rule: parse_value_parse_elements_parse_members.induct)
  case (2 n s)
  obtain m' where m: "m = Suc m'" using "2.prems"(2) by (cases m) auto
  show ?case
  proof (cases "skip_ws s")
    case Nil
    then show ?thesis using "2.prems"(1) parse_value_Nil by simp
  next
    case sw: (Cons c r)
    have cr: "length r < length s" using sw by (rule skip_ws_Cons_length)
    consider (obj) "c = CHR ''{''" | (arr) "c = CHR ''[''" | (sc) "c \<noteq> CHR ''{''" "c \<noteq> CHR ''[''"
      by blast
    then show ?thesis
    proof cases
      case sc
      then show ?thesis using "2.prems"(1) parse_value_scalar[OF sw sc] m by simp
    next
      case obj
      show ?thesis
      proof (cases "skip_ws r")
        case Nil
        then show ?thesis using "2.prems"(1) parse_value_obj[of s r n] sw obj by simp
      next
        case sw2: (Cons d r')
        show ?thesis
        proof (cases "d = CHR ''}''")
          case True
          then show ?thesis
            using "2.prems"(1) parse_value_obj[of s r n] parse_value_obj[of s r m'] sw sw2 obj m by simp
        next
          case False
          then obtain q where q: "parse_members n [] r = Some q" "p = (fst q, skip_ws (snd q))"
            using "2.prems"(1) parse_value_obj[of s r n] sw sw2 obj by (auto split: prod.splits)
          have "length (snd q) < length r" using parse_rest_shorter(3)[OF q(1)] .
          then have "Suc (length r - length (snd q)) \<le> m'"
            using "2.prems"(2) q(2) m cr length_skip_ws[of "snd q"] by simp
          then have "parse_members m' [] r = Some q" by (rule "2.IH"(1)[OF sw obj sw2 False q(1)])
          then show ?thesis using parse_value_obj[of s r m'] sw sw2 obj False m q(2)
            by (simp split: prod.splits)
        qed
      qed
    next
      case arr
      have nobj: "c \<noteq> CHR ''{''" using arr by simp
      show ?thesis
      proof (cases "skip_ws r")
        case Nil
        then show ?thesis using "2.prems"(1) parse_value_arr[of s r n] sw arr by simp
      next
        case sw2: (Cons d r')
        show ?thesis
        proof (cases "d = CHR '']''")
          case True
          then show ?thesis
            using "2.prems"(1) parse_value_arr[of s r n] parse_value_arr[of s r m'] sw sw2 arr m by simp
        next
          case False
          then obtain q where q: "parse_elements n [] r = Some q" "p = (fst q, skip_ws (snd q))"
            using "2.prems"(1) parse_value_arr[of s r n] sw sw2 arr by (auto split: prod.splits)
          have "length (snd q) < length r" using parse_rest_shorter(2)[OF q(1)] .
          then have "Suc (length r - length (snd q)) \<le> m'"
            using "2.prems"(2) q(2) m cr length_skip_ws[of "snd q"] by simp
          then have "parse_elements m' [] r = Some q" by (rule "2.IH"(2)[OF sw nobj arr sw2 False q(1)])
          then show ?thesis using parse_value_arr[of s r m'] sw sw2 arr False m q(2)
            by (simp split: prod.splits)
        qed
      qed
    qed
  qed
next
  case (4 n acc s)
  obtain m' where m: "m = Suc m'" using "4.prems"(2) by (cases m) auto
  obtain v r where v: "parse_value n s = Some (v, r)"
    using "4.prems"(1) by (auto split: option.splits)
  obtain d r' where d: "r = d # r'" using "4.prems"(1) v by (cases r) auto
  have rs: "length r < length s" using parse_rest_shorter(1)[OF v] by simp
  have pr: "length (snd p) \<le> length r'"
  proof (cases "d = CHR '',''")
    case True
    then have "parse_elements n (acc @ [v]) r' = Some p" using "4.prems"(1) v d by simp
    then show ?thesis using parse_rest_shorter(2) by fastforce
  next
    case False
    then show ?thesis using "4.prems"(1) v d by (auto split: if_splits)
  qed
  have "Suc (length s - length (snd (v, r))) \<le> m'" using "4.prems"(2) m rs pr d by simp
  then have v': "parse_value m' s = Some (v, r)" using "4.IH"(1)[OF v] by simp
  show ?case
  proof (cases "d = CHR '',''")
    case True
    then have pe: "parse_elements n (acc @ [v]) r' = Some p" using "4.prems"(1) v d by simp
    have "Suc (length r' - length (snd p)) \<le> m'" using "4.prems"(2) m rs pr d by simp
    then have "parse_elements m' (acc @ [v]) r' = Some p" using "4.IH"(2)[OF v refl d True pe] by simp
    then show ?thesis using v' d True m by simp
  next
    case False
    then show ?thesis using "4.prems"(1) v v' d m by (auto split: if_splits)
  qed
next
  case (6 n macc s)
  obtain m' where m: "m = Suc m'" using "6.prems"(2) by (cases m) auto
  obtain d r where sw: "skip_ws s = d # r" using "6.prems"(1) by (auto split: list.splits)
  have dq: "\<not> d \<noteq> CHR 0x22" using "6.prems"(1) sw by (auto split: if_splits)
  obtain k r1 where k: "parse_chars r = Some (k, r1)"
    using "6.prems"(1) sw by (auto split: if_splits option.splits)
  obtain e r2 where e: "skip_ws r1 = e # r2"
    using "6.prems"(1) sw k by (auto split: if_splits list.splits)
  have colon: "\<not> e \<noteq> CHR '':''" using "6.prems"(1) sw k e by (auto split: if_splits)
  obtain v r3 where v: "parse_value n r2 = Some (v, r3)"
    using "6.prems"(1) sw k e by (auto split: if_splits option.splits)
  have r2: "length r2 < length s"
    using skip_ws_Cons_length[OF sw] parse_chars_length[OF k] skip_ws_Cons_length[OF e] by simp
  have r3: "length r3 < length r2" using parse_rest_shorter(1)[OF v] by simp
  obtain f r4 where f: "r3 = f # r4" using "6.prems"(1) sw k e v by (cases r3) (auto split: if_splits)
  have pr: "length (snd p) \<le> length r4"
  proof (cases "f = CHR '',''")
    case True
    then have "parse_members n (macc @ [(k, v)]) r4 = Some p"
      using "6.prems"(1) sw k e v f by (auto split: if_splits)
    then show ?thesis using parse_rest_shorter(3) by fastforce
  next
    case False
    then show ?thesis using "6.prems"(1) sw k e v f by (auto split: if_splits)
  qed
  have "Suc (length r2 - length (snd (v, r3))) \<le> m'" using "6.prems"(2) m r2 r3 pr f by simp
  then have v': "parse_value m' r2 = Some (v, r3)" using "6.IH"(1)[OF sw dq k refl e colon v] by simp
  show ?case
  proof (cases "f = CHR '',''")
    case True
    then have pm: "parse_members n (macc @ [(k, v)]) r4 = Some p"
      using "6.prems"(1) sw k e v f by (auto split: if_splits)
    have "Suc (length r4 - length (snd p)) \<le> m'" using "6.prems"(2) m r2 r3 pr f by simp
    then have "parse_members m' (macc @ [(k, v)]) r4 = Some p"
      using "6.IH"(2)[OF sw dq k refl e colon v refl f True pm] by simp
    then show ?thesis using sw dq k e colon v' f True m by simp
  next
    case False
    then show ?thesis using "6.prems"(1) sw dq k e colon v v' f m by (auto split: if_splits)
  qed
qed simp_all

lemma json_parse_adequate:
  "json_parse s = Some v \<longleftrightarrow> (\<exists>n. parse_value n s = Some (v, []))"
proof
  assume j: "json_parse s = Some v"
  obtain p where p: "parse_value (Suc (length s)) s = Some p"
    using j by (cases "parse_value (Suc (length s)) s") (simp_all add: json_parse_def del: parse_value.simps)
  obtain v' r where vr: "p = (v', r)" by (cases p)
  have "r = [] \<and> v' = v" using j p vr by (cases r) (simp_all add: json_parse_def del: parse_value.simps)
  then show "\<exists>n. parse_value n s = Some (v, [])" using p vr by blast
next
  assume "\<exists>n. parse_value n s = Some (v, [])"
  then obtain n where "parse_value n s = Some (v, [])" by blast
  then have "parse_value (Suc (length s)) s = Some (v, [])" by (rule parse_fuel(1)) simp
  then show "json_parse s = Some v" by (simp add: json_parse_def del: parse_value.simps)
qed

end
