(* ===== verification/CalendarApp.thy ===== *)
theory CalendarApp
  imports CalendarGrid JsonFuel
begin

text \<open>
  The \<open>Calendar\<close> component of \<^verbatim>\<open>src/src/App.jsx\<close> as a state machine. Its state is
  the four \<open>useState\<close> hooks (\<open>currentDate\<close>, \<open>selectedDate\<close>, \<open>memo\<close>,
  \<open>memos\<close>) and the \<open>localStorage\<close> entry \<open>'memos'\<close> (\<open>storage\<close>). Each handler
  is a function on the state (\<open>handle_previous_month\<close> to \<open>handle_delete_memo\<close>);
  \<open>persist\<close> is the effect on \<open>[memos]\<close>, which runs after every handler that gives
  \<open>memos\<close> a new object (save and delete). \<open>step\<close> dispatches one user event and is
  \<open>None\<close> when the control the event needs is not on the screen: a date cell that is
  not rendered, the editor when no date is selected, the viewer's edit and delete
  buttons when the selected date has no memo (the conditions of lines 124 and 131).
  \<open>mount\<close> is the first render with its two effects: the stored text is parsed
  (a \<open>SyntaxError\<close> escapes the effect and unmounts the component, \<open>Inl\<close> here);
  \<open>mount_first_commit\<close> is the state after the first commit, whose save effect writes the
  initial \<open>{}\<close>, and the re-render writes the loaded object back.
  \<open>reachable\<close> is the set of states a session can reach; \<open>app_inv\<close> (distinct keys,
  storage in step with \<open>memos\<close>) holds in all of them, proved by rule induction.
\<close>

datatype load_error = SyntaxError | NotMemoObject

record app_state =
  currentDate :: day
  selectedDate :: "date_key option"
  memo :: string
  memos :: memo_obj
  storage :: "string option"

datatype event =
    PreviousMonth
  | NextMonth
  | DateClick date_key
  | MemoChange string
  | SaveMemo
  | EditMemo
  | DeleteMemo

text \<open>A computed property key \<open>[selectedDate]\<close> with \<open>selectedDate = null\<close> is the
  string \<open>"null"\<close>.\<close>

fun js_key :: "date_key option \<Rightarrow> string" where
  "js_key None = ''null''"
| "js_key (Some k) = k"

definition load_memos :: "string option \<Rightarrow> load_error + memo_obj" where
  "load_memos stored =
     (case stored of
        None \<Rightarrow> Inr []
      | Some text \<Rightarrow>
          if text = [] then Inr []
          else (case json_parse text of
                  None \<Rightarrow> Inl SyntaxError
                | Some v \<Rightarrow> (case memos_of_json v of None \<Rightarrow> Inl NotMemoObject | Some m \<Rightarrow> Inr m)))"

definition persist :: "app_state \<Rightarrow> app_state" where
  "persist s = s\<lparr>storage := Some (json_stringify (memos s))\<rparr>"

text \<open>The first commit runs both effects in order: the load schedules \<open>setMemos\<close>, and
  the save effect writes the initial \<open>{}\<close> of \<open>useState({})\<close>; the re-render that
  follows runs the save effect again with the loaded object.\<close>

definition mount_first_commit :: "day \<Rightarrow> string option \<Rightarrow> app_state" where
  "mount_first_commit now stored =
     persist \<lparr>currentDate = now, selectedDate = None, memo = [], memos = [], storage = stored\<rparr>"

definition mount :: "day \<Rightarrow> string option \<Rightarrow> load_error + app_state" where
  "mount now stored =
     (case load_memos stored of
        Inl e \<Rightarrow> Inl e
      | Inr m \<Rightarrow> Inr (persist ((mount_first_commit now stored)\<lparr>memos := m\<rparr>)))"

definition handle_previous_month :: "app_state \<Rightarrow> app_state" where
  "handle_previous_month s =
     s\<lparr>currentDate := new_date (year_from_time (currentDate s)) (month_from_time (currentDate s) - 1) 1\<rparr>"

definition handle_next_month :: "app_state \<Rightarrow> app_state" where
  "handle_next_month s =
     s\<lparr>currentDate := new_date (year_from_time (currentDate s)) (month_from_time (currentDate s) + 1) 1\<rparr>"

definition handle_date_click :: "date_key \<Rightarrow> app_state \<Rightarrow> app_state" where
  "handle_date_click date s =
     s\<lparr>selectedDate := (if selectedDate s = Some date then None else Some date)\<rparr>"

definition handle_memo_change :: "string \<Rightarrow> app_state \<Rightarrow> app_state" where
  "handle_memo_change v s = s\<lparr>memo := v\<rparr>"

definition handle_save_memo :: "app_state \<Rightarrow> app_state" where
  "handle_save_memo s =
     s\<lparr>memos := obj_set (memos s) (js_key (selectedDate s)) (memo s), memo := []\<rparr>"

text \<open>\<open>setMemo(memos[selectedDate])\<close>: with no memo the draft would become
  \<open>undefined\<close>, which the model leaves out (\<open>None\<close>).\<close>

definition handle_edit_memo :: "app_state \<Rightarrow> app_state option" where
  "handle_edit_memo s =
     map_option (\<lambda>v. s\<lparr>memo := v\<rparr>) (obj_get (memos s) (js_key (selectedDate s)))"

definition handle_delete_memo :: "app_state \<Rightarrow> app_state" where
  "handle_delete_memo s =
     s\<lparr>memos := obj_delete (memos s) (js_key (selectedDate s)), selectedDate := None, memo := []\<rparr>"

definition rendered_keys :: "tz_offset \<Rightarrow> app_state \<Rightarrow> date_key list" where
  "rendered_keys tz s = map cell_key (render_calendar tz (currentDate s) (selectedDate s) (memos s))"

definition editor_visible :: "app_state \<Rightarrow> bool" where
  "editor_visible s = (case selectedDate s of None \<Rightarrow> False | Some k \<Rightarrow> k \<noteq> [])"

definition viewer_visible :: "app_state \<Rightarrow> bool" where
  "viewer_visible s =
     (editor_visible s \<and> js_truthy (obj_get (memos s) (js_key (selectedDate s))))"

fun step :: "tz_offset \<Rightarrow> app_state \<Rightarrow> event \<Rightarrow> app_state option" where
  "step tz s PreviousMonth = Some (handle_previous_month s)"
| "step tz s NextMonth = Some (handle_next_month s)"
| "step tz s (DateClick d) =
     (if d \<in> set (rendered_keys tz s) then Some (handle_date_click d s) else None)"
| "step tz s (MemoChange v) =
     (if editor_visible s then Some (handle_memo_change v s) else None)"
| "step tz s SaveMemo =
     (if editor_visible s then Some (persist (handle_save_memo s)) else None)"
| "step tz s EditMemo = (if viewer_visible s then handle_edit_memo s else None)"
| "step tz s DeleteMemo =
     (if viewer_visible s then Some (persist (handle_delete_memo s)) else None)"

fun run :: "tz_offset \<Rightarrow> app_state \<Rightarrow> event list \<Rightarrow> app_state option" where
  "run tz s [] = Some s"
| "run tz s (e # es) = (case step tz s e of None \<Rightarrow> None | Some s' \<Rightarrow> run tz s' es)"

inductive reachable :: "tz_offset \<Rightarrow> app_state \<Rightarrow> bool" where
  start: "mount now stored = Inr s \<Longrightarrow> reachable tz s"
| step: "reachable tz s \<Longrightarrow> step tz s e = Some s' \<Longrightarrow> reachable tz s'"

definition app_inv :: "app_state \<Rightarrow> bool" where
  "app_inv s = (obj_wf (memos s) \<and> storage s = Some (json_stringify (memos s)))"

fun_cases step_SaveMemo: "step tz s SaveMemo = Some s'"
fun_cases step_DeleteMemo: "step tz s DeleteMemo = Some s'"
fun_cases step_DateClick: "step tz s (DateClick d) = Some s'"
fun_cases step_EditMemo: "step tz s EditMemo = Some s'"

subsection \<open>Loading and the storage invariant\<close>

lemma json_stringify_ne: "json_stringify m \<noteq> []"
  by (simp add: json_stringify_def)

lemma memos_of_members_wf:
  "memos_of_members acc ms = Some m \<Longrightarrow> obj_wf acc \<Longrightarrow> obj_wf m"
  by (induction acc ms rule: memos_of_members.induct) (auto simp: obj_wf_set)

lemma load_memos_wf: "load_memos stored = Inr m \<Longrightarrow> obj_wf m"
proof -
  assume l: "load_memos stored = Inr m"
  have empty: "obj_wf []" by (simp add: obj_wf_def obj_keys_def)
  show "obj_wf m"
  proof (cases "\<exists>str v. stored = Some str \<and> str \<noteq> [] \<and> json_parse str = Some v")
    case True
    then obtain str v where "stored = Some str" "str \<noteq> []" "json_parse str = Some v" by blast
    with l have "memos_of_json v = Some m"
      by (simp add: load_memos_def split: option.splits)
    with empty show ?thesis
      by (cases v) (auto intro: memos_of_members_wf)
  next
    case False
    with l empty show ?thesis
      by (auto simp: load_memos_def split: option.splits if_splits)
  qed
qed

lemma app_inv_mount: "mount now stored = Inr s \<Longrightarrow> app_inv s"
  by (auto simp: mount_def mount_first_commit_def app_inv_def persist_def load_memos_wf
      split: sum.splits)

lemma app_inv_step: "app_inv s \<Longrightarrow> step tz s e = Some s' \<Longrightarrow> app_inv s'"
proof (cases e)
  case SaveMemo
  moreover assume "app_inv s" "step tz s e = Some s'"
  ultimately show ?thesis
    by (auto simp: app_inv_def persist_def handle_save_memo_def obj_wf_set split: if_splits)
next
  case DeleteMemo
  moreover assume "app_inv s" "step tz s e = Some s'"
  ultimately show ?thesis
    by (auto simp: app_inv_def persist_def handle_delete_memo_def obj_wf_delete split: if_splits)
next
  case EditMemo
  moreover assume "app_inv s" "step tz s e = Some s'"
  ultimately show ?thesis
    by (auto simp: app_inv_def handle_edit_memo_def split: if_splits)
qed (auto simp: app_inv_def handle_previous_month_def handle_next_month_def handle_date_click_def
      handle_memo_change_def split: if_splits)

lemma saved_session_reachable:
  "reachable 0 \<lparr>currentDate = make_day 2024 1 14, selectedDate = Some ''2024-02-14'', memo = [],
      memos = [(''2024-02-14'', ''dentist'')],
      storage = Some (json_stringify [(''2024-02-14'', ''dentist'')])\<rparr>"
proof -
  have r0: "reachable 0 \<lparr>currentDate = make_day 2024 1 14, selectedDate = None, memo = [],
      memos = [], storage = Some (json_stringify [])\<rparr>"
    by (rule reachable.start[of "make_day 2024 1 14" None]) code_simp
  have r1: "reachable 0 \<lparr>currentDate = make_day 2024 1 14, selectedDate = Some ''2024-02-14'',
      memo = [], memos = [], storage = Some (json_stringify [])\<rparr>"
    by (rule reachable.step[OF r0, of "DateClick ''2024-02-14''"]) code_simp
  have r2: "reachable 0 \<lparr>currentDate = make_day 2024 1 14, selectedDate = Some ''2024-02-14'',
      memo = ''dentist'', memos = [], storage = Some (json_stringify [])\<rparr>"
    by (rule reachable.step[OF r1, of "MemoChange ''dentist''"]) code_simp
  show ?thesis
    by (rule reachable.step[OF r2, of SaveMemo]) code_simp
qed

text \<open>C4: Invariant: in every state a session can reach, the memo object has
  distinct keys and the storage entry \<open>'memos'\<close> holds exactly
  \<open>JSON.stringify(memos)\<close>.\<close>

lemma reachable_app_inv: "reachable tz s \<Longrightarrow> app_inv s"
proof (induction rule: reachable.induct)
  case (start now stored s tz)
  then show ?case by (rule app_inv_mount)
next
  case (step tz s e s')
  then show ?case by (blast intro: app_inv_step)
qed

theorem reachable_app_inv_witness:
  "app_inv \<lparr>currentDate = make_day 2024 1 14, selectedDate = Some ''2024-02-14'', memo = [],
      memos = [(''2024-02-14'', ''dentist'')],
      storage = Some (json_stringify [(''2024-02-14'', ''dentist'')])\<rparr>"
  by (rule reachable_app_inv[OF saved_session_reachable])

lemma load_memos_stringify: "obj_wf m \<Longrightarrow> load_memos (Some (json_stringify m)) = Inr m"
  using memos_of_members_strings[of "[]" m]
  by (simp add: load_memos_def json_parse_stringify obj_wf_def json_stringify_ne)

text \<open>C3: Persistence: in every state a session can reach, reloading the page (the
  load effect on the stored text) gives back exactly the current memo object, without
  error.\<close>

lemma reachable_reload: "reachable tz s \<Longrightarrow> load_memos (storage s) = Inr (memos s)"
proof (induction rule: reachable.induct)
  case (start now stored s tz)
  then have "app_inv s" by (rule app_inv_mount)
  then show ?case using load_memos_stringify by (simp add: app_inv_def)
next
  case (step tz s e s')
  from step.hyps(1) have "app_inv s"
    by (induction rule: reachable.induct) (blast intro: app_inv_mount app_inv_step)+
  then have "app_inv s'" using step.hyps(2) by (rule app_inv_step)
  then show ?case using load_memos_stringify by (simp add: app_inv_def)
qed

theorem reachable_reload_witness:
  "load_memos (storage \<lparr>currentDate = make_day 2024 1 14, selectedDate = Some ''2024-02-14'', memo = [],
      memos = [(''2024-02-14'', ''dentist'')],
      storage = Some (json_stringify [(''2024-02-14'', ''dentist'')])\<rparr>
   ) = Inr (memos \<lparr>currentDate = make_day 2024 1 14, selectedDate = Some ''2024-02-14'', memo = [],
      memos = [(''2024-02-14'', ''dentist'')],
      storage = Some (json_stringify [(''2024-02-14'', ''dentist'')])\<rparr>)"
  by (rule reachable_reload[OF saved_session_reachable])

lemma rendered_keys_interval:
  "rendered_keys tz s = map (format_key tz) [month_first (currentDate s) - week_day (month_first (currentDate s)) ..
     month_first (currentDate s) + month_length (currentDate s) - 1
       + (6 - week_day (month_first (currentDate s) + month_length (currentDate s) - 1))]"
  by (simp add: rendered_keys_def render_calendar_map comp_def del: upto.simps)

lemma date_click_enabled:
  assumes "n \<in> set [month_first (currentDate s) - week_day (month_first (currentDate s)) ..
     month_first (currentDate s) + month_length (currentDate s) - 1
       + (6 - week_day (month_first (currentDate s) + month_length (currentDate s) - 1))]"
  shows "step tz s (DateClick (format_key tz n)) = Some (handle_date_click (format_key tz n) s)"
  using assms by (simp add: rendered_keys_interval del: upto.simps)

text \<open>C2: For every day \<open>d\<close> of the displayed month, the cell of that day is on the screen,
  so clicking it is always possible and selects its key: the click event of every day of the
  month is enabled.\<close>

theorem month_days_clickable:
  assumes "1 \<le> d" "d \<le> month_length (currentDate s)"
  shows "step tz s (DateClick (format_key tz (month_first (currentDate s) + d - 1)))
       = Some (handle_date_click (format_key tz (month_first (currentDate s) + d - 1)) s)"
  using date_click_enabled[OF month_day_in_grid[OF assms]] .

theorem month_days_clickable_witness:
  "step 540 \<lparr>currentDate = make_day 2024 1 14, selectedDate = None, memo = [], memos = [],
       storage = Some ''{}''\<rparr>
     (DateClick (format_key 540 (month_first (make_day 2024 1 14) + 29 - 1)))
   = Some (handle_date_click (format_key 540 (month_first (make_day 2024 1 14) + 29 - 1))
       \<lparr>currentDate = make_day 2024 1 14, selectedDate = None, memo = [], memos = [],
        storage = Some ''{}''\<rparr>)"
proof -
  have h: "1 \<le> (29::int)" "29 \<le> month_length (make_day 2024 1 14)" by code_simp+
  show ?thesis using month_days_clickable[OF h(1), of "\<lparr>currentDate = make_day 2024 1 14,
    selectedDate = None, memo = [], memos = [], storage = Some ''{}''\<rparr>"] h(2) by simp
qed

subsection \<open>Editing\<close>

lemma step_save_memo_cases:
  assumes "step tz s SaveMemo = Some s'"
  obtains k where "selectedDate s = Some k" "k \<noteq> []" "s' = persist (handle_save_memo s)"
  using assms by (cases "selectedDate s") (auto simp: editor_visible_def split: if_splits)

lemma step_edit_memo_cases:
  assumes "step tz s EditMemo = Some s'"
  obtains k v where "selectedDate s = Some k" "k \<noteq> []" "obj_get (memos s) k = Some v" "v \<noteq> []"
    "s' = s\<lparr>memo := v\<rparr>"
  using assms
  by (cases "selectedDate s"; cases "obj_get (memos s) (js_key (selectedDate s))")
     (auto simp: viewer_visible_def editor_visible_def handle_edit_memo_def split: if_splits)

text \<open>C18: Editing is possible exactly when the viewer is shown, that is when the selected
  date has a non-empty memo; it loads that memo into the draft and changes nothing else.\<close>

lemma step_edit_memo:
  "step tz s EditMemo = Some s'
   \<longleftrightarrow> (\<exists>k v. selectedDate s = Some k \<and> k \<noteq> [] \<and> obj_get (memos s) k = Some v \<and> v \<noteq> []
          \<and> s' = s\<lparr>memo := v\<rparr>)"
proof
  assume "step tz s EditMemo = Some s'"
  then show "\<exists>k v. selectedDate s = Some k \<and> k \<noteq> [] \<and> obj_get (memos s) k = Some v \<and> v \<noteq> []
      \<and> s' = s\<lparr>memo := v\<rparr>"
    by (elim step_edit_memo_cases) blast
next
  assume "\<exists>k v. selectedDate s = Some k \<and> k \<noteq> [] \<and> obj_get (memos s) k = Some v \<and> v \<noteq> []
      \<and> s' = s\<lparr>memo := v\<rparr>"
  then show "step tz s EditMemo = Some s'"
    by (auto simp: viewer_visible_def editor_visible_def handle_edit_memo_def)
qed

theorem step_edit_memo_witness:
  "step 0 \<lparr>currentDate = make_day 2024 1 14, selectedDate = Some ''2024-02-14'', memo = [],
      memos = [(''2024-02-14'', ''dentist'')],
      storage = Some (json_stringify [(''2024-02-14'', ''dentist'')])\<rparr> EditMemo
     = Some \<lparr>currentDate = make_day 2024 1 14, selectedDate = Some ''2024-02-14'', memo = ''dentist'',
      memos = [(''2024-02-14'', ''dentist'')],
      storage = Some (json_stringify [(''2024-02-14'', ''dentist'')])\<rparr>"
  by (subst step_edit_memo) simp

text \<open>C19: Editing a memo and saving it without a change leaves the memo object as it was,
  clears the draft, keeps the selection and writes the same object to storage.\<close>

lemma edit_then_save:
  assumes "step tz s EditMemo = Some s1" "step tz s1 SaveMemo = Some s2"
  shows "memos s2 = memos s \<and> memo s2 = [] \<and> selectedDate s2 = selectedDate s
    \<and> storage s2 = Some (json_stringify (memos s))"
proof -
  obtain k v where e: "selectedDate s = Some k" "obj_get (memos s) k = Some v" "s1 = s\<lparr>memo := v\<rparr>"
    using assms(1) by (rule step_edit_memo_cases)
  from assms(2) have "s2 = persist (handle_save_memo s1)" by (rule step_save_memo_cases)
  then show ?thesis using e obj_set_get_same[OF e(2)]
    by (simp add: persist_def handle_save_memo_def)
qed

theorem edit_then_save_witness:
  "memos \<lparr>currentDate = make_day 2024 1 14, selectedDate = Some ''2024-02-14'', memo = [],
      memos = [(''2024-02-14'', ''dentist'')],
      storage = Some (json_stringify [(''2024-02-14'', ''dentist'')])\<rparr> = memos \<lparr>currentDate = make_day 2024 1 14, selectedDate = Some ''2024-02-14'', memo = [],
      memos = [(''2024-02-14'', ''dentist'')],
      storage = Some (json_stringify [(''2024-02-14'', ''dentist'')])\<rparr>
   \<and> memo \<lparr>currentDate = make_day 2024 1 14, selectedDate = Some ''2024-02-14'', memo = [],
      memos = [(''2024-02-14'', ''dentist'')],
      storage = Some (json_stringify [(''2024-02-14'', ''dentist'')])\<rparr> = []
   \<and> selectedDate \<lparr>currentDate = make_day 2024 1 14, selectedDate = Some ''2024-02-14'', memo = [],
      memos = [(''2024-02-14'', ''dentist'')],
      storage = Some (json_stringify [(''2024-02-14'', ''dentist'')])\<rparr> = selectedDate \<lparr>currentDate = make_day 2024 1 14, selectedDate = Some ''2024-02-14'', memo = [],
      memos = [(''2024-02-14'', ''dentist'')],
      storage = Some (json_stringify [(''2024-02-14'', ''dentist'')])\<rparr>
   \<and> storage \<lparr>currentDate = make_day 2024 1 14, selectedDate = Some ''2024-02-14'', memo = [],
      memos = [(''2024-02-14'', ''dentist'')],
      storage = Some (json_stringify [(''2024-02-14'', ''dentist'')])\<rparr> = Some (json_stringify (memos \<lparr>currentDate = make_day 2024 1 14, selectedDate = Some ''2024-02-14'', memo = [],
      memos = [(''2024-02-14'', ''dentist'')],
      storage = Some (json_stringify [(''2024-02-14'', ''dentist'')])\<rparr>))"
  by (rule edit_then_save[of 0 _ "\<lparr>currentDate = make_day 2024 1 14, selectedDate = Some ''2024-02-14'', memo = ''dentist'',
      memos = [(''2024-02-14'', ''dentist'')],
      storage = Some (json_stringify [(''2024-02-14'', ''dentist'')])\<rparr>"]) code_simp+

subsection \<open>Month navigation\<close>

lemma month_index_make_day_first:
  "12 * year_from_time (make_day y m 1) + month_from_time (make_day y m 1) = 12 * y + m"
proof -
  have "1 \<le> days_in_month (y + m div 12) (m mod 12)"
    using days_in_month_bounds[of "m mod 12" "y + m div 12"] by simp
  then have "year_from_time (make_day y m 1) = y + m div 12"
    "month_from_time (make_day y m 1) = m mod 12"
    using make_day_month_of(1,2)[of 1 y m] by simp_all
  then show ?thesis using mult_div_mod_eq[of 12 m] by simp
qed

lemma new_date_month_shift:
  assumes "\<not> (0 \<le> year_from_time c \<and> year_from_time c \<le> 99)"
  shows "12 * year_from_time (new_date (year_from_time c) (month_from_time c + k) 1)
           + month_from_time (new_date (year_from_time c) (month_from_time c + k) 1)
         = 12 * year_from_time c + month_from_time c + k
    \<and> date_from_time (new_date (year_from_time c) (month_from_time c + k) 1) = 1"
proof -
  let ?Y = "year_from_time c" and ?M = "month_from_time c + k"
  have "js_full_year ?Y = ?Y" using assms by (simp add: js_full_year_def)
  then have c: "new_date ?Y ?M 1 = make_day ?Y ?M 1" by (simp add: new_date_def)
  have "date_from_time (make_day ?Y ?M 1) = 1"
    using make_day_month_of(3)[of 1 ?Y ?M] days_in_month_bounds[of "?M mod 12" "?Y + ?M div 12"] by simp
  then show ?thesis using c month_index_make_day_first[of ?Y ?M] by simp
qed

text \<open>C25: Outside the years 0 to 99, the previous-month and next-month buttons show the
  first day of the month before and after: the month index 12 * year + month moves by exactly
  one, across year boundaries too, and the selection, the draft and the memos are
  unchanged.\<close>

lemma month_navigation:
  assumes "\<not> (0 \<le> year_from_time (currentDate s) \<and> year_from_time (currentDate s) \<le> 99)"
  shows "12 * year_from_time (currentDate (handle_previous_month s))
           + month_from_time (currentDate (handle_previous_month s))
         = 12 * year_from_time (currentDate s) + month_from_time (currentDate s) - 1
    \<and> 12 * year_from_time (currentDate (handle_next_month s))
           + month_from_time (currentDate (handle_next_month s))
         = 12 * year_from_time (currentDate s) + month_from_time (currentDate s) + 1
    \<and> date_from_time (currentDate (handle_previous_month s)) = 1
    \<and> date_from_time (currentDate (handle_next_month s)) = 1
    \<and> selectedDate (handle_previous_month s) = selectedDate s \<and> memo (handle_previous_month s) = memo s
    \<and> memos (handle_previous_month s) = memos s
    \<and> selectedDate (handle_next_month s) = selectedDate s \<and> memo (handle_next_month s) = memo s
    \<and> memos (handle_next_month s) = memos s"
  using new_date_month_shift[OF assms, of "- 1"] new_date_month_shift[OF assms, of 1]
  by (simp add: handle_previous_month_def handle_next_month_def)

theorem month_navigation_witness:
  "12 * year_from_time (currentDate (handle_previous_month \<lparr>currentDate = make_day 2024 0 14, selectedDate = Some ''2024-01-14'', memo = ''x'', memos = [], storage = None\<rparr>))
       + month_from_time (currentDate (handle_previous_month \<lparr>currentDate = make_day 2024 0 14, selectedDate = Some ''2024-01-14'', memo = ''x'', memos = [], storage = None\<rparr>))
     = 12 * year_from_time (currentDate \<lparr>currentDate = make_day 2024 0 14, selectedDate = Some ''2024-01-14'', memo = ''x'', memos = [], storage = None\<rparr>) + month_from_time (currentDate \<lparr>currentDate = make_day 2024 0 14, selectedDate = Some ''2024-01-14'', memo = ''x'', memos = [], storage = None\<rparr>) - 1
   \<and> 12 * year_from_time (currentDate (handle_next_month \<lparr>currentDate = make_day 2024 0 14, selectedDate = Some ''2024-01-14'', memo = ''x'', memos = [], storage = None\<rparr>))
       + month_from_time (currentDate (handle_next_month \<lparr>currentDate = make_day 2024 0 14, selectedDate = Some ''2024-01-14'', memo = ''x'', memos = [], storage = None\<rparr>))
     = 12 * year_from_time (currentDate \<lparr>currentDate = make_day 2024 0 14, selectedDate = Some ''2024-01-14'', memo = ''x'', memos = [], storage = None\<rparr>) + month_from_time (currentDate \<lparr>currentDate = make_day 2024 0 14, selectedDate = Some ''2024-01-14'', memo = ''x'', memos = [], storage = None\<rparr>) + 1
   \<and> date_from_time (currentDate (handle_previous_month \<lparr>currentDate = make_day 2024 0 14, selectedDate = Some ''2024-01-14'', memo = ''x'', memos = [], storage = None\<rparr>)) = 1
   \<and> date_from_time (currentDate (handle_next_month \<lparr>currentDate = make_day 2024 0 14, selectedDate = Some ''2024-01-14'', memo = ''x'', memos = [], storage = None\<rparr>)) = 1
   \<and> selectedDate (handle_previous_month \<lparr>currentDate = make_day 2024 0 14, selectedDate = Some ''2024-01-14'', memo = ''x'', memos = [], storage = None\<rparr>) = selectedDate \<lparr>currentDate = make_day 2024 0 14, selectedDate = Some ''2024-01-14'', memo = ''x'', memos = [], storage = None\<rparr>
   \<and> memo (handle_previous_month \<lparr>currentDate = make_day 2024 0 14, selectedDate = Some ''2024-01-14'', memo = ''x'', memos = [], storage = None\<rparr>) = memo \<lparr>currentDate = make_day 2024 0 14, selectedDate = Some ''2024-01-14'', memo = ''x'', memos = [], storage = None\<rparr>
   \<and> memos (handle_previous_month \<lparr>currentDate = make_day 2024 0 14, selectedDate = Some ''2024-01-14'', memo = ''x'', memos = [], storage = None\<rparr>) = memos \<lparr>currentDate = make_day 2024 0 14, selectedDate = Some ''2024-01-14'', memo = ''x'', memos = [], storage = None\<rparr>
   \<and> selectedDate (handle_next_month \<lparr>currentDate = make_day 2024 0 14, selectedDate = Some ''2024-01-14'', memo = ''x'', memos = [], storage = None\<rparr>) = selectedDate \<lparr>currentDate = make_day 2024 0 14, selectedDate = Some ''2024-01-14'', memo = ''x'', memos = [], storage = None\<rparr>
   \<and> memo (handle_next_month \<lparr>currentDate = make_day 2024 0 14, selectedDate = Some ''2024-01-14'', memo = ''x'', memos = [], storage = None\<rparr>) = memo \<lparr>currentDate = make_day 2024 0 14, selectedDate = Some ''2024-01-14'', memo = ''x'', memos = [], storage = None\<rparr>
   \<and> memos (handle_next_month \<lparr>currentDate = make_day 2024 0 14, selectedDate = Some ''2024-01-14'', memo = ''x'', memos = [], storage = None\<rparr>) = memos \<lparr>currentDate = make_day 2024 0 14, selectedDate = Some ''2024-01-14'', memo = ''x'', memos = [], storage = None\<rparr>"
  by (rule month_navigation) code_simp

text \<open>C26: From January of year 100, the previous-month button goes to December 99,
  and pressing it again goes to November 1999, not November 99: \<open>new Date(99,
  10)\<close> reads 99 as 1999.\<close>

lemma previous_month_from_year_100:
  assumes "currentDate s = make_day 100 0 1"
  shows "year_from_time (currentDate (handle_previous_month s)) = 99
    \<and> month_from_time (currentDate (handle_previous_month s)) = 11
    \<and> year_from_time (currentDate (handle_previous_month (handle_previous_month s))) = 1999
    \<and> month_from_time (currentDate (handle_previous_month (handle_previous_month s))) = 10"
proof -
  have c: "year_from_time (make_day 100 0 1) = 100" "month_from_time (make_day 100 0 1) = 0"
    using make_day_components(1,2)[of 0 1 100] by (simp_all add: days_in_month_def month_start_def)
  have p1: "currentDate (handle_previous_month s) = make_day 100 (- 1) 1"
    using assms c by (simp add: handle_previous_month_def new_date_def js_full_year_def)
  have c1: "year_from_time (make_day 100 (- 1) 1) = 99" "month_from_time (make_day 100 (- 1) 1) = 11"
    using make_day_month_of(1,2)[of 1 100 "- 1"] by (simp_all add: days_in_month_def month_start_def)
  have p2: "currentDate (handle_previous_month (handle_previous_month s)) = make_day 1999 10 1"
    using p1 c1 by (simp add: handle_previous_month_def new_date_def js_full_year_def)
  have c2: "year_from_time (make_day 1999 10 1) = 1999" "month_from_time (make_day 1999 10 1) = 10"
    using make_day_components(1,2)[of 10 1 1999] by (simp_all add: days_in_month_def month_start_def)
  show ?thesis using p1 p2 c1 c2 by simp
qed

theorem previous_month_from_year_100_witness:
  "year_from_time (currentDate (handle_previous_month \<lparr>currentDate = make_day 100 0 1, selectedDate = None, memo = [], memos = [], storage = None\<rparr>)) = 99
    \<and> month_from_time (currentDate (handle_previous_month \<lparr>currentDate = make_day 100 0 1, selectedDate = None, memo = [], memos = [], storage = None\<rparr>)) = 11
    \<and> year_from_time (currentDate (handle_previous_month (handle_previous_month \<lparr>currentDate = make_day 100 0 1, selectedDate = None, memo = [], memos = [], storage = None\<rparr>))) = 1999
    \<and> month_from_time (currentDate (handle_previous_month (handle_previous_month \<lparr>currentDate = make_day 100 0 1, selectedDate = None, memo = [], memos = [], storage = None\<rparr>))) = 10"
  by (rule previous_month_from_year_100) simp

subsection \<open>Selection and the memo editor\<close>

text \<open>C21: Clicking a date selects it, and clicking the same date again clears the
  selection.\<close>

lemma date_click_toggle:
  assumes "selectedDate s = None"
  shows "selectedDate (handle_date_click d s) = Some d
    \<and> selectedDate (handle_date_click d (handle_date_click d s)) = None"
  using assms by (simp add: handle_date_click_def)

theorem date_click_toggle_witness:
  "selectedDate (handle_date_click ''2024-02-14'' \<lparr>currentDate = make_day 2024 1 14, selectedDate = None,
      memo = [], memos = [], storage = None\<rparr>) = Some ''2024-02-14''
   \<and> selectedDate (handle_date_click ''2024-02-14'' (handle_date_click ''2024-02-14''
      \<lparr>currentDate = make_day 2024 1 14, selectedDate = None, memo = [], memos = [], storage = None\<rparr>))
     = None"
  by (rule date_click_toggle) simp

text \<open>C22: Clicking another date does not clear the editor: a draft typed for one
  date and saved after clicking a second date is stored under the second date.\<close>

lemma date_click_keeps_draft:
  assumes "selectedDate s = Some d1" "d2 \<noteq> d1"
  shows "memos (handle_save_memo (handle_date_click d2 s)) = obj_set (memos s) d2 (memo s)"
  using assms by (simp add: handle_save_memo_def handle_date_click_def)

theorem date_click_keeps_draft_witness:
  "memos (handle_save_memo (handle_date_click ''2024-02-15'' \<lparr>currentDate = make_day 2024 1 14, selectedDate = Some ''2024-02-14'', memo = ''dentist'',
      memos = [], storage = Some (json_stringify [])\<rparr>))
     = obj_set (memos \<lparr>currentDate = make_day 2024 1 14, selectedDate = Some ''2024-02-14'', memo = ''dentist'',
      memos = [], storage = Some (json_stringify [])\<rparr>) ''2024-02-15'' (memo \<lparr>currentDate = make_day 2024 1 14, selectedDate = Some ''2024-02-14'', memo = ''dentist'',
      memos = [], storage = Some (json_stringify [])\<rparr>)"
  by (rule date_click_keeps_draft) (code_simp+)

text \<open>C16: Saving is possible only while the editor is shown (a non-empty date is
  selected); it stores the draft under the selected key, keeps the selection, clears the
  draft, and the save effect writes the new object to storage.\<close>

lemma step_save_memo:
  assumes "step tz s SaveMemo = Some s'"
  shows "\<exists>k. selectedDate s = Some k \<and> k \<noteq> [] \<and> memos s' = obj_set (memos s) k (memo s)
    \<and> obj_get (memos s') k = Some (memo s) \<and> memo s' = [] \<and> selectedDate s' = selectedDate s
    \<and> storage s' = Some (json_stringify (memos s'))"
  using assms by (elim step_save_memo_cases) (auto simp: handle_save_memo_def persist_def)

theorem step_save_memo_witness:
  "\<exists>k. selectedDate \<lparr>currentDate = make_day 2024 1 14, selectedDate = Some ''2024-02-14'', memo = ''dentist'',
      memos = [], storage = Some (json_stringify [])\<rparr> = Some k \<and> k \<noteq> []
    \<and> memos \<lparr>currentDate = make_day 2024 1 14, selectedDate = Some ''2024-02-14'', memo = [],
      memos = [(''2024-02-14'', ''dentist'')],
      storage = Some (json_stringify [(''2024-02-14'', ''dentist'')])\<rparr> = obj_set (memos \<lparr>currentDate = make_day 2024 1 14, selectedDate = Some ''2024-02-14'', memo = ''dentist'',
      memos = [], storage = Some (json_stringify [])\<rparr>) k (memo \<lparr>currentDate = make_day 2024 1 14, selectedDate = Some ''2024-02-14'', memo = ''dentist'',
      memos = [], storage = Some (json_stringify [])\<rparr>)
    \<and> obj_get (memos \<lparr>currentDate = make_day 2024 1 14, selectedDate = Some ''2024-02-14'', memo = [],
      memos = [(''2024-02-14'', ''dentist'')],
      storage = Some (json_stringify [(''2024-02-14'', ''dentist'')])\<rparr>) k = Some (memo \<lparr>currentDate = make_day 2024 1 14, selectedDate = Some ''2024-02-14'', memo = ''dentist'',
      memos = [], storage = Some (json_stringify [])\<rparr>)
    \<and> memo \<lparr>currentDate = make_day 2024 1 14, selectedDate = Some ''2024-02-14'', memo = [],
      memos = [(''2024-02-14'', ''dentist'')],
      storage = Some (json_stringify [(''2024-02-14'', ''dentist'')])\<rparr> = []
    \<and> selectedDate \<lparr>currentDate = make_day 2024 1 14, selectedDate = Some ''2024-02-14'', memo = [],
      memos = [(''2024-02-14'', ''dentist'')],
      storage = Some (json_stringify [(''2024-02-14'', ''dentist'')])\<rparr> = selectedDate \<lparr>currentDate = make_day 2024 1 14, selectedDate = Some ''2024-02-14'', memo = ''dentist'',
      memos = [], storage = Some (json_stringify [])\<rparr>
    \<and> storage \<lparr>currentDate = make_day 2024 1 14, selectedDate = Some ''2024-02-14'', memo = [],
      memos = [(''2024-02-14'', ''dentist'')],
      storage = Some (json_stringify [(''2024-02-14'', ''dentist'')])\<rparr> = Some (json_stringify (memos \<lparr>currentDate = make_day 2024 1 14, selectedDate = Some ''2024-02-14'', memo = [],
      memos = [(''2024-02-14'', ''dentist'')],
      storage = Some (json_stringify [(''2024-02-14'', ''dentist'')])\<rparr>))"
  by (rule step_save_memo[of 0]) code_simp

text \<open>C20: Saving an empty draft stores the empty string under the selected key: the
  key is in the object, but the viewer treats the memo as absent and is not shown.\<close>

lemma save_empty_memo_hidden:
  assumes "step tz s SaveMemo = Some s'" "memo s = []"
  shows "\<exists>k. selectedDate s' = Some k \<and> obj_get (memos s') k = Some []
    \<and> k \<in> set (obj_keys (memos s')) \<and> \<not> viewer_visible s'"
proof -
  obtain k where k: "selectedDate s = Some k" "s' = persist (handle_save_memo s)"
    using assms(1) by (rule step_save_memo_cases)
  then have g: "obj_get (memos s') k = Some []" "selectedDate s' = Some k"
    using assms(2) by (simp_all add: handle_save_memo_def persist_def)
  then have "k \<in> set (obj_keys (memos s'))"
    using k by (simp add: obj_keys_set handle_save_memo_def persist_def)
  with g show ?thesis by (simp add: viewer_visible_def)
qed

theorem save_empty_memo_hidden_witness:
  "\<exists>k. selectedDate \<lparr>currentDate = make_day 2024 1 14, selectedDate = Some ''2024-02-14'', memo = [],
      memos = [(''2024-02-14'', [])], storage = Some (json_stringify [(''2024-02-14'', [])])\<rparr> = Some k
    \<and> obj_get (memos \<lparr>currentDate = make_day 2024 1 14, selectedDate = Some ''2024-02-14'', memo = [],
      memos = [(''2024-02-14'', [])], storage = Some (json_stringify [(''2024-02-14'', [])])\<rparr>) k = Some []
    \<and> k \<in> set (obj_keys (memos \<lparr>currentDate = make_day 2024 1 14, selectedDate = Some ''2024-02-14'', memo = [],
      memos = [(''2024-02-14'', [])], storage = Some (json_stringify [(''2024-02-14'', [])])\<rparr>))
    \<and> \<not> viewer_visible \<lparr>currentDate = make_day 2024 1 14, selectedDate = Some ''2024-02-14'', memo = [],
      memos = [(''2024-02-14'', [])], storage = Some (json_stringify [(''2024-02-14'', [])])\<rparr>"
  by (rule save_empty_memo_hidden[of 0 "\<lparr>currentDate = make_day 2024 1 14, selectedDate = Some ''2024-02-14'', memo = [],
      memos = [], storage = Some (json_stringify [])\<rparr>"]) code_simp+

text \<open>C17: Deleting, possible only while the viewer is shown, removes the selected
  key from the object, clears the selection and the draft, and the save effect writes the
  new object to storage.\<close>

lemma step_delete_memo:
  assumes "step tz s DeleteMemo = Some s'" "selectedDate s = Some k"
  shows "obj_get (memos s') k = None \<and> selectedDate s' = None \<and> memo s' = []
    \<and> storage s' = Some (json_stringify (memos s'))"
  using assms
  by (auto simp: handle_delete_memo_def persist_def split: if_splits)

theorem step_delete_memo_witness:
  "obj_get (memos \<lparr>currentDate = make_day 2024 1 14, selectedDate = None, memo = [],
      memos = [], storage = Some (json_stringify [])\<rparr>) ''2024-02-14'' = None
    \<and> selectedDate \<lparr>currentDate = make_day 2024 1 14, selectedDate = None, memo = [],
      memos = [], storage = Some (json_stringify [])\<rparr> = None \<and> memo \<lparr>currentDate = make_day 2024 1 14, selectedDate = None, memo = [],
      memos = [], storage = Some (json_stringify [])\<rparr> = []
    \<and> storage \<lparr>currentDate = make_day 2024 1 14, selectedDate = None, memo = [],
      memos = [], storage = Some (json_stringify [])\<rparr> = Some (json_stringify (memos \<lparr>currentDate = make_day 2024 1 14, selectedDate = None, memo = [],
      memos = [], storage = Some (json_stringify [])\<rparr>))"
  by (rule step_delete_memo[of 0 "\<lparr>currentDate = make_day 2024 1 14, selectedDate = Some ''2024-02-14'', memo = [],
      memos = [(''2024-02-14'', ''dentist'')],
      storage = Some (json_stringify [(''2024-02-14'', ''dentist'')])\<rparr>"]) code_simp+

text \<open>C24: On the first commit the save effect writes the initial empty object:
  whatever was stored, the storage entry holds \<open>{}\<close> until the re-render writes
  the loaded memos back. After the mount completes, the stored text loads to the same
  object as the text that was there before, so the loss is only transient.\<close>

lemma mount_first_commit_overwrites:
  assumes "mount now stored = Inr s"
  shows "storage (mount_first_commit now stored) = Some ''{}''
    \<and> load_memos (storage s) = load_memos stored"
proof -
  have "app_inv s" using assms by (rule app_inv_mount)
  then have "load_memos (storage s) = Inr (memos s)"
    using load_memos_stringify by (simp add: app_inv_def)
  moreover have "load_memos stored = Inr (memos s)"
    using assms by (auto simp: mount_def mount_first_commit_def persist_def split: sum.splits)
  ultimately show ?thesis
    by (simp add: mount_first_commit_def persist_def json_stringify_def)
qed

theorem mount_first_commit_overwrites_witness:
  "storage (mount_first_commit (make_day 2024 1 14) (Some (json_stringify [(''2024-02-14'', ''x'')])))
     = Some ''{}''
   \<and> load_memos (storage \<lparr>currentDate = make_day 2024 1 14, selectedDate = None, memo = [],
       memos = [(''2024-02-14'', ''x'')], storage = Some (json_stringify [(''2024-02-14'', ''x'')])\<rparr>)
     = load_memos (Some (json_stringify [(''2024-02-14'', ''x'')]))"
  by (rule mount_first_commit_overwrites) code_simp

text \<open>C23: The load effect fails exactly on genuinely malformed storage: for a non-empty
  stored text, \<open>JSON.parse\<close> throws a \<open>SyntaxError\<close> if and only if no amount of fuel
  lets the parser read the whole text as one JSON value.\<close>

lemma load_memos_syntax_error_iff:
  "load_memos (Some str) = Inl SyntaxError
     \<longleftrightarrow> str \<noteq> [] \<and> (\<forall>n v. parse_value n str \<noteq> Some (v, []))"
proof -
  have "json_parse str = None \<longleftrightarrow> (\<forall>n v. parse_value n str \<noteq> Some (v, []))"
  proof (cases "json_parse str")
    case (Some a)
    then show ?thesis using json_parse_adequate[of str a] by auto
  next
    case None
    then show ?thesis using json_parse_adequate[of str] by fastforce
  qed
  then show ?thesis
    by (auto simp: load_memos_def split: option.splits)
qed

end
