(* ===== verification/SelectionSpec.thy ===== *)
theory SelectionSpec
  imports CalendarApp
begin

text \<open>
  The specification's SelectionController (section 4.3 of the specification) as an abstract
  state machine over the same events as the component, and the refinement of it by
  \<open>step\<close>. The abstract state holds the displayed month as the index
  \<open>12 * year + month\<close>, the selected key, the draft and the memo map as a partial
  function. \<open>spec_step\<close> follows the specification's rules: selecting a date clears the
  draft, saving an empty draft removes the memo instead of storing it, and navigation moves
  by exactly one month. \<open>abs_state\<close> maps a component state to the abstract one.
  \<open>code_departs\<close> names the three situations in which the code does something else;
  outside them every event the code accepts is one the specification allows, with the same
  result (\<open>step_refines_spec\<close>).
\<close>

record spec_state =
  spec_month :: int
  spec_sel :: "date_key option"
  spec_draft :: string
  spec_store :: "date_key \<rightharpoonup> string"

fun spec_step :: "spec_state \<Rightarrow> event \<Rightarrow> spec_state option" where
  "spec_step a PreviousMonth = Some (a\<lparr>spec_month := spec_month a - 1\<rparr>)"
| "spec_step a NextMonth = Some (a\<lparr>spec_month := spec_month a + 1\<rparr>)"
| "spec_step a (DateClick d) =
     Some (if spec_sel a = Some d then a\<lparr>spec_sel := None, spec_draft := []\<rparr> else a\<lparr>spec_sel := Some d, spec_draft := []\<rparr>)"
| "spec_step a (MemoChange v) = Some (a\<lparr>spec_draft := v\<rparr>)"
| "spec_step a SaveMemo =
     (case spec_sel a of
        None \<Rightarrow> None
      | Some k \<Rightarrow>
          Some (a\<lparr>spec_store := (if spec_draft a = [] then (spec_store a)(k := None) else (spec_store a)(k \<mapsto> spec_draft a)),
                  spec_draft := []\<rparr>))"
| "spec_step a EditMemo =
     (case spec_sel a of
        None \<Rightarrow> None
      | Some k \<Rightarrow> (case spec_store a k of None \<Rightarrow> None | Some v \<Rightarrow> Some (a\<lparr>spec_draft := v\<rparr>)))"
| "spec_step a DeleteMemo =
     (case spec_sel a of
        None \<Rightarrow> None
      | Some k \<Rightarrow>
          (case spec_store a k of
             None \<Rightarrow> None
           | Some _ \<Rightarrow> Some (a\<lparr>spec_store := (spec_store a)(k := None), spec_sel := None, spec_draft := []\<rparr>)))"

fun spec_run :: "spec_state \<Rightarrow> event list \<Rightarrow> spec_state option" where
  "spec_run a [] = Some a"
| "spec_run a (e # es) = (case spec_step a e of None \<Rightarrow> None | Some a' \<Rightarrow> spec_run a' es)"

definition abs_state :: "app_state \<Rightarrow> spec_state" where
  "abs_state s =
     \<lparr>spec_month = 12 * year_from_time (currentDate s) + month_from_time (currentDate s),
      spec_sel = selectedDate s, spec_draft = memo s, spec_store = obj_get (memos s)\<rparr>"

text \<open>Where the code leaves the specification: a date click with a non-empty draft keeps
  the draft, saving an empty draft stores the empty string, and navigation from a year 0 to 99
  lands in the twentieth century.\<close>

fun code_departs :: "app_state \<Rightarrow> event \<Rightarrow> bool" where
  "code_departs s (DateClick d) = (memo s \<noteq> [])"
| "code_departs s SaveMemo = (memo s = [])"
| "code_departs s PreviousMonth =
     (0 \<le> year_from_time (currentDate s) \<and> year_from_time (currentDate s) \<le> 99)"
| "code_departs s NextMonth =
     (0 \<le> year_from_time (currentDate s) \<and> year_from_time (currentDate s) \<le> 99)"
| "code_departs s _ = False"

text \<open>A run of the component stays within the specification when no event of it meets a
  departure.\<close>

fun run_conforms :: "tz_offset \<Rightarrow> app_state \<Rightarrow> event list \<Rightarrow> bool" where
  "run_conforms tz s [] = True"
| "run_conforms tz s (e # es) =
     (\<not> code_departs s e \<and> (case step tz s e of None \<Rightarrow> True | Some s' \<Rightarrow> run_conforms tz s' es))"

lemma abs_state_nav:
  assumes "\<not> (0 \<le> year_from_time (currentDate s) \<and> year_from_time (currentDate s) \<le> 99)"
  shows "spec_month (abs_state (s\<lparr>currentDate := new_date (year_from_time (currentDate s))
            (month_from_time (currentDate s) + k) 1\<rparr>)) = spec_month (abs_state s) + k"
  using new_date_month_shift[OF assms, of k] by (simp add: abs_state_def)

lemma step_refines_nav:
  assumes "step tz s e = Some s'" "\<not> code_departs s e" "e = PreviousMonth \<or> e = NextMonth"
  shows "spec_step (abs_state s) e = Some (abs_state s')"
  using assms abs_state_nav[of s "- 1"] abs_state_nav[of s 1]
  by (auto simp: handle_previous_month_def handle_next_month_def abs_state_def)

lemma step_refines_memo:
  assumes "step tz s e = Some s'" "\<not> code_departs s e"
    "e \<noteq> PreviousMonth" "e \<noteq> NextMonth"
  shows "spec_step (abs_state s) e = Some (abs_state s')"
proof (cases e)
  case SaveMemo
  with assms(1) have "step tz s SaveMemo = Some s'" by simp
  then obtain k where "selectedDate s = Some k" "s' = persist (handle_save_memo s)"
    by (rule step_save_memo_cases)
  with SaveMemo assms(2) show ?thesis
    by (auto simp: abs_state_def persist_def handle_save_memo_def fun_eq_iff)
next
  case EditMemo
  with assms(1) have "step tz s EditMemo = Some s'" by simp
  then obtain k v where "selectedDate s = Some k" "obj_get (memos s) k = Some v" "s' = s\<lparr>memo := v\<rparr>"
    by (rule step_edit_memo_cases)
  with EditMemo show ?thesis by (simp add: abs_state_def)
next
  case DeleteMemo
  then show ?thesis using assms(1)
    by (cases "selectedDate s"; cases "obj_get (memos s) (js_key (selectedDate s))")
       (auto simp: viewer_visible_def editor_visible_def handle_delete_memo_def persist_def
          abs_state_def fun_eq_iff split: if_splits)
qed (use assms in \<open>auto simp: handle_date_click_def handle_memo_change_def abs_state_def
      split: if_splits\<close>)

text \<open>C30: Refinement: whenever the component accepts an event in a state where none of the
  three departures applies, the specification accepts the same event in the abstract state and
  reaches the abstraction of the component's new state.\<close>

theorem step_refines_spec:
  assumes "step tz s e = Some s'" "\<not> code_departs s e"
  shows "spec_step (abs_state s) e = Some (abs_state s')"
proof (cases "e = PreviousMonth \<or> e = NextMonth")
  case True
  then show ?thesis by (rule step_refines_nav[OF assms])
next
  case False
  then show ?thesis using assms by (intro step_refines_memo) simp_all
qed

theorem step_refines_spec_witness:
  "spec_step (abs_state \<lparr>currentDate = make_day 2024 1 14, selectedDate = Some ''2024-02-14'',
      memo = ''dentist'', memos = [], storage = None\<rparr>) SaveMemo
   = Some (abs_state \<lparr>currentDate = make_day 2024 1 14, selectedDate = Some ''2024-02-14'', memo = [],
      memos = [(''2024-02-14'', ''dentist'')],
      storage = Some (json_stringify [(''2024-02-14'', ''dentist'')])\<rparr>)"
  by (rule step_refines_spec[of 0]) code_simp+

text \<open>C31: The refinement extends to whole sessions: a run of events that the component
  completes without meeting a departure is a run of the specification from the abstract start
  state to the abstraction of the final state.\<close>

theorem run_refines_spec:
  "run tz s es = Some s' \<Longrightarrow> run_conforms tz s es \<Longrightarrow> spec_run (abs_state s) es = Some (abs_state s')"
proof (induction es arbitrary: s)
  case Nil
  then show ?case by simp
next
  case (Cons e es)
  then obtain s1 where s1: "step tz s e = Some s1" "run tz s1 es = Some s'"
    by (auto split: option.splits)
  have nd: "\<not> code_departs s e" using Cons.prems(2) by simp
  have "spec_step (abs_state s) e = Some (abs_state s1)"
    using step_refines_nav[OF s1(1) nd] step_refines_memo[OF s1(1) nd] by blast
  then show ?case using Cons.IH[OF s1(2)] Cons.prems(2) s1(1) by simp
qed

theorem run_refines_spec_witness:
  "spec_run (abs_state \<lparr>currentDate = make_day 2024 1 14, selectedDate = None, memo = [], memos = [],
      storage = Some ''{}''\<rparr>)
     [DateClick ''2024-02-14'', MemoChange ''dentist'', SaveMemo, NextMonth, DeleteMemo]
   = Some (abs_state \<lparr>currentDate = make_day 2024 2 1, selectedDate = None, memo = [], memos = [],
      storage = Some ''{}''\<rparr>)"
  by (rule run_refines_spec[of 0]) code_simp+

end
