(* ===== verification/CalendarView.thy ===== *)
theory CalendarView
  imports CalendarApp
begin

text \<open>
  What the \<open>return\<close> of \<open>Calendar\<close> renders (\<^verbatim>\<open>src/src/App.jsx\<close>, lines 105 to
  139), as a record of the facts the screen shows: the class names of the seven weekday
  header cells (lines 114 to 120), the cells of \<open>renderCalendar()\<close> (line 121), the text of
  the memo viewer (lines 124 to 130) and the title and text area of the memo editor (lines
  131 to 139). The header's \<open>toLocaleString\<close> label (line 109) and the Korean texts are left
  out. The lemmas show that the header's weekend columns line up with the cells' weekend
  flags, and what the screen shows after a save and after a delete.
\<close>

definition weekday_header :: "string list" where
  "weekday_header = [''sun'', ''mon'', ''tue'', ''wed'', ''thu'', ''fri'', ''sat'']"

record view =
  view_header :: "string list"
  view_grid :: "cell list"
  view_viewer :: "string option"
  view_editor :: "((int \<times> int \<times> int) option \<times> string) option"

definition render_view :: "tz_offset \<Rightarrow> app_state \<Rightarrow> view" where
  "render_view tz s =
     \<lparr>view_header = weekday_header,
      view_grid = render_calendar tz (currentDate s) (selectedDate s) (memos s),
      view_viewer =
        (if viewer_visible s then obj_get (memos s) (js_key (selectedDate s)) else None),
      view_editor =
        (if editor_visible s then Some (format_date tz (js_key (selectedDate s)), memo s)
         else None)\<rparr>"

lemma weekday_header_nth:
  "j < 7 \<Longrightarrow> (weekday_header ! j = ''sun'') = (j = 0) \<and> (weekday_header ! j = ''sat'') = (j = 6)"
proof -
  assume "j < 7"
  then have "j = 0 \<or> j = 1 \<or> j = 2 \<or> j = 3 \<or> j = 4 \<or> j = 5 \<or> j = 6" by linarith
  then show ?thesis by (elim disjE) (simp_all add: weekday_header_def)
qed

text \<open>C32: The weekday header and the grid agree: the cell in position \<open>i\<close> carries the
  class \<open>sun\<close> exactly when the header cell above its column is the \<open>sun\<close> one, and
  \<open>sat\<close> likewise.\<close>

lemma view_header_columns:
  assumes "i < length (view_grid (render_view tz s))"
  shows "cell_sun (view_grid (render_view tz s) ! i) = (view_header (render_view tz s) ! (i mod 7) = ''sun'')
    \<and> cell_sat (view_grid (render_view tz s) ! i) = (view_header (render_view tz s) ! (i mod 7) = ''sat'')"
  using assms grid_nth_column[of i tz "currentDate s" "selectedDate s" "memos s"]
    weekday_header_nth[of "i mod 7"]
  by (simp add: render_view_def)

theorem view_header_columns_witness:
  "cell_sun (view_grid (render_view 540 \<lparr>currentDate = make_day 2024 1 14, selectedDate = Some ''2024-02-14'', memo = ''dentist'', memos = [], storage = None\<rparr>) ! 21)
     = (view_header (render_view 540 \<lparr>currentDate = make_day 2024 1 14, selectedDate = Some ''2024-02-14'', memo = ''dentist'', memos = [], storage = None\<rparr>) ! (21 mod 7) = ''sun'')
   \<and> cell_sat (view_grid (render_view 540 \<lparr>currentDate = make_day 2024 1 14, selectedDate = Some ''2024-02-14'', memo = ''dentist'', memos = [], storage = None\<rparr>) ! 21)
     = (view_header (render_view 540 \<lparr>currentDate = make_day 2024 1 14, selectedDate = Some ''2024-02-14'', memo = ''dentist'', memos = [], storage = None\<rparr>) ! (21 mod 7) = ''sat'')"
  by (rule view_header_columns) code_simp

text \<open>C33: After a save of a non-empty draft the viewer shows the saved text and the
  editor stays open on the same date with an empty text area; after a delete neither the
  viewer nor the editor is on the screen.\<close>

lemma view_after_save_delete:
  "(step tz s SaveMemo = Some s' \<and> memo s \<noteq> [] \<longrightarrow>
      view_viewer (render_view tz s') = Some (memo s)
      \<and> view_editor (render_view tz s') = Some (format_date tz (js_key (selectedDate s)), []))
   \<and> (step tz s DeleteMemo = Some s'' \<longrightarrow>
      view_viewer (render_view tz s'') = None \<and> view_editor (render_view tz s'') = None)"
proof (intro conjI impI)
  assume a: "step tz s SaveMemo = Some s' \<and> memo s \<noteq> []"
  then have "step tz s SaveMemo = Some s'" by simp
  then obtain k where k: "selectedDate s = Some k" "k \<noteq> []" "s' = persist (handle_save_memo s)"
    by (rule step_save_memo_cases)
  show "view_viewer (render_view tz s') = Some (memo s)"
    using k a by (simp add: render_view_def viewer_visible_def editor_visible_def persist_def
        handle_save_memo_def)
  show "view_editor (render_view tz s') = Some (format_date tz (js_key (selectedDate s)), [])"
    using k by (simp add: render_view_def editor_visible_def persist_def handle_save_memo_def)
next
  assume "step tz s DeleteMemo = Some s''"
  then have "selectedDate s'' = None"
    by (auto simp: handle_delete_memo_def persist_def split: if_splits)
  then show "view_viewer (render_view tz s'') = None" "view_editor (render_view tz s'') = None"
    by (simp_all add: render_view_def viewer_visible_def editor_visible_def)
qed

theorem view_after_save_delete_witness:
  "view_viewer (render_view 0 \<lparr>currentDate = make_day 2024 1 14, selectedDate = Some ''2024-02-14'', memo = [],
        memos = [(''2024-02-14'', ''dentist'')], storage = Some (json_stringify [(''2024-02-14'', ''dentist'')])\<rparr>) = Some ''dentist''
   \<and> view_editor (render_view 0 \<lparr>currentDate = make_day 2024 1 14, selectedDate = Some ''2024-02-14'', memo = [],
        memos = [(''2024-02-14'', ''dentist'')], storage = Some (json_stringify [(''2024-02-14'', ''dentist'')])\<rparr>) = Some (Some (2024, 2, 14), [])
   \<and> view_viewer (render_view 0 \<lparr>currentDate = make_day 2024 1 14, selectedDate = None, memo = [], memos = [],
        storage = Some (json_stringify [])\<rparr>) = None"
proof -
  have h: "step 0 \<lparr>currentDate = make_day 2024 1 14, selectedDate = Some ''2024-02-14'', memo = ''dentist'',
        memos = [], storage = None\<rparr> SaveMemo = Some \<lparr>currentDate = make_day 2024 1 14, selectedDate = Some ''2024-02-14'', memo = [],
        memos = [(''2024-02-14'', ''dentist'')], storage = Some (json_stringify [(''2024-02-14'', ''dentist'')])\<rparr>"
    "memo \<lparr>currentDate = make_day 2024 1 14, selectedDate = Some ''2024-02-14'', memo = ''dentist'',
        memos = [], storage = None\<rparr> \<noteq> []"
    "step 0 \<lparr>currentDate = make_day 2024 1 14, selectedDate = Some ''2024-02-14'', memo = [],
        memos = [(''2024-02-14'', ''dentist'')], storage = Some (json_stringify [(''2024-02-14'', ''dentist'')])\<rparr> DeleteMemo = Some \<lparr>currentDate = make_day 2024 1 14, selectedDate = None, memo = [], memos = [],
        storage = Some (json_stringify [])\<rparr>"
    by code_simp+
  have f: "format_date 0 ''2024-02-14'' = Some (2024, 2, 14)" by code_simp
  show ?thesis
    using view_after_save_delete[of 0 "\<lparr>currentDate = make_day 2024 1 14, selectedDate = Some ''2024-02-14'', memo = ''dentist'',
        memos = [], storage = None\<rparr>" "\<lparr>currentDate = make_day 2024 1 14, selectedDate = Some ''2024-02-14'', memo = [],
        memos = [(''2024-02-14'', ''dentist'')], storage = Some (json_stringify [(''2024-02-14'', ''dentist'')])\<rparr>" "\<lparr>currentDate = make_day 2024 1 14, selectedDate = None, memo = [], memos = [],
        storage = Some (json_stringify [])\<rparr>"]
      view_after_save_delete[of 0 "\<lparr>currentDate = make_day 2024 1 14, selectedDate = Some ''2024-02-14'', memo = [],
        memos = [(''2024-02-14'', ''dentist'')], storage = Some (json_stringify [(''2024-02-14'', ''dentist'')])\<rparr>" "\<lparr>currentDate = make_day 2024 1 14, selectedDate = Some ''2024-02-14'', memo = [],
        memos = [(''2024-02-14'', ''dentist'')], storage = Some (json_stringify [(''2024-02-14'', ''dentist'')])\<rparr>" "\<lparr>currentDate = make_day 2024 1 14, selectedDate = None, memo = [], memos = [],
        storage = Some (json_stringify [])\<rparr>"] h f by simp
qed

end
