(* ===== verification/Spec2Isabelle.thy ===== *)
theory Spec2Isabelle
  imports SelectionSpec CalendarView
begin

text \<open>
  \<^bold>\<open>A verification development of the React calendar of \<^verbatim>\<open>src/src/App.jsx\<close>.\<close>

  The program is one component, \<open>Calendar\<close>. It shows a month as a grid of days and keeps
  one text memo per day in the browser's \<open>localStorage\<close>. It has four pieces of state:
  the displayed month \<open>currentDate\<close>, the \<open>selectedDate\<close> key, the editor draft
  \<open>memo\<close> and the object \<open>memos\<close>. It has two effects, which load the object from storage
  and save it back. Six event handlers change the state. \<open>renderCalendar\<close> builds the grid
  of date cells. Every cell is keyed by \<open>toISOString().slice(0, 10)\<close> of its local
  midnight, and \<open>formatDate\<close> reads a key back for the editor's title.

  The development is a shallow embedding at day granularity. A Date is the number of its
  local day since 1970-01-01, and the host's time zone is a fixed offset \<open>tz\<close> in minutes
  east of UTC (540 for Korea). The theories, in import order:
  \<^item> \<open>Prelude\<close>: the shared type names (\<open>day\<close>, \<open>tz_offset\<close>, \<open>date_key\<close>,
    \<open>memo_obj\<close>), the collection \<open>calendar_simps\<close>, and lemmas on integer division,
    integer intervals and lists.
  \<^item> \<open>DateArith\<close> and \<open>JsDate\<close>: the part of the ECMAScript Date object the program
    calls (ECMA-262, 21.4.1). This is not code of the repository; it is modelled from the
    standard's definitions \<open>DayFromYear\<close>, \<open>DaysInYear\<close>, \<open>InLeapYear\<close>,
    \<open>YearFromTime\<close>, \<open>MonthFromTime\<close>, \<open>DateFromTime\<close>, \<open>WeekDay\<close> and \<open>MakeDay\<close>,
    with the \<open>Date(y, m, d)\<close> rule that years 0 to 99 mean 1900 to 1999 and
    \<open>setDate\<close>. \<open>YearFromTime\<close> is a scan upward from a lower bound
    (\<open>year_scan\<close>, terminating by a measure). Its lemmas show that the scan finds the
    unique year containing a day (\<open>year_from_time_greatest\<close>), and that \<open>MakeDay\<close>
    and the three getters invert each other exactly on valid dates
    (\<open>make_day_roundtrip\<close>).
  \<^item> \<open>DateKey\<close>: \<open>toISOString\<close> (lines 85, 63 to 69) for years 0 to 9999, the
    \<open>slice(0, 10)\<close> key \<open>format_key\<close>, the predicate \<open>is_date_key\<close> of the specification's
    DateKey type (every grid key satisfies it: \<open>grid_keys_well_formed\<close>), the date-only
    parser of \<open>new Date(string)\<close>,
    and \<open>formatDate\<close> as \<open>format_date\<close>. The key of local day \<open>t\<close> is the ISO
    date of the UTC day containing local midnight. That day is \<open>t - 1\<close> for every
    offset east of UTC, and \<open>formatDate\<close> shifts it back only when \<open>tz = 0\<close>
    (\<open>format_date_format_key\<close>).
  \<^item> \<open>MemoStore\<close>: the object \<open>memos\<close> as an association list in property order. It
    has the spread-and-assign of \<open>handleSaveMemo\<close> (\<open>obj_set\<close>), the copy-and-delete
    of \<open>handleDeleteMemo\<close> (\<open>obj_delete\<close>) and JavaScript truthiness. Both updates
    refine updates of the map \<open>obj_get m\<close> and keep the keys distinct.
  \<^item> \<open>CalendarGrid\<close>: \<open>renderCalendar\<close> (lines 71 to 103). \<open>calendar_range\<close> is
    lines 72 to 79, \<open>calendar_loop\<close> the \<open>while\<close> loop of lines 84 to 100, and
    \<open>render_cell\<close> one \<open><div>\<close> of lines 85 to 97, as a record of what it shows. The
    lemmas prove the following. The grid is whole weeks from a Sunday to a Saturday. The
    cells not marked \<open>other-month\<close> are the days 1 to n of the month in order. The
    weekend flags follow the column. For offsets below a day and years 2 to 9998, every
    cell's key is the date of its day or of the day before (\<open>grid_cell_keys\<close>), the keys
    are well-formed dates and distinct, so at most one cell is \<open>selected\<close>.
  \<^item> \<open>Json\<close>: \<open>JSON.stringify\<close> of an object of strings, with the standard's
    \<open>QuoteJSONString\<close>, and \<open>JSON.parse\<close> as a parser of the whole JSON grammar.
    The parser has fuel, and \<open>json_parse\<close> gives it the length of the text plus one.
    That fuel is enough because every nested value consumes at least one character, and
    \<open>json_roundtrip\<close> proves it for every stored object. These two functions are also
    not repository code: they follow ECMA-262 25.5.
  \<^item> \<open>JsonFuel\<close>: fuel adequacy of the parser. Every successful parse leaves a shorter
    rest, and a parse that succeeds with some fuel succeeds with any fuel above the number
    of characters it consumed (\<open>parse_fuel\<close>). So \<open>json_parse\<close> fails exactly when no
    fuel at all parses the text (\<open>json_parse_adequate\<close>), and the load effect throws its
    \<open>SyntaxError\<close> exactly on the stored texts that are not JSON
    (\<open>load_memos_syntax_error_iff\<close>).
  \<^item> \<open>CalendarApp\<close>: the component as a state machine. \<open>app_state\<close> is the four
    \<open>useState\<close> hooks (lines 5 to 8) and the storage entry. The handlers are
    \<open>handle_previous_month\<close> to \<open>handle_delete_memo\<close> (lines 23 to 61). \<open>persist\<close>
    is the save effect (lines 19 to 21). \<open>load_memos\<close> and \<open>mount\<close> are the load
    effect (lines 11 to 16) and the first render. \<open>step\<close> is one user event, guarded by
    what is on the screen (lines 92, 124 and 131). \<open>reachable\<close> is the inductive set of
    states of a session. By rule induction, every reachable state stores exactly its
    \<open>memos\<close>, and reloading the page gives them back. Every day of the displayed month
    can be clicked (\<open>month_days_clickable\<close>), and the departures from the specification
    are proved in general: a date click keeps the draft, an empty save stores \<open>""\<close>,
    and navigation in years 0 to 99 jumps to the twentieth century.
  \<^item> \<open>SelectionSpec\<close>: the specification's SelectionController as an abstract machine
    \<open>spec_step\<close> over the same events, the abstraction \<open>abs_state\<close> (month index,
    selection, draft, memo map), and the forward simulation \<open>step_refines_spec\<close>:
    outside the three departures named by \<open>code_departs\<close>, every step of the component
    is a step of the specification. \<open>run_refines_spec\<close> lifts this to whole sessions.
  \<^item> \<open>CalendarView\<close>: what the \<open>return\<close> of lines 105 to 139 puts on the screen,
    as the record \<open>view\<close> built by \<open>render_view\<close>: the weekday header
    (\<open>weekday_header\<close>, lines 114 to 120), the grid, the memo viewer and the memo editor.
    Its lemmas show that the header's weekend columns match the cells' flags, and what the
    screen shows after a save and after a delete.
  \<^item> This theory: \<open>cell_click_type_save\<close>, the property that spans the grid, the keys,
    the memo object, \<open>formatDate\<close> and the controller: for every offset below a day,
    every displayed month of years 2 to 9998 and every day of it, clicking the day's cell,
    typing and saving succeeds, and it says under which key the memo lands and which date
    the editor's title shows.

  What the theorems show, and what they reveal. At UTC a memo saved from the cell of a day
  is stored under that day's own key and the editor's title shows that day
  (\<open>cell_click_type_save\<close>); apart from the three departures below, every step of the
  component is a step of the specification's controller (\<open>step_refines_spec\<close>). For
  every time zone east of UTC (0 < \<open>tz\<close> < 1440), each cell's key is the previous day's
  date (\<open>grid_cell_keys\<close>). A memo typed into the cell labelled 14 is therefore stored
  under the 13th, and the editor's title reads the 13th (\<open>cell_click_type_save\<close>); west
  of UTC the key is right but the title reads the day before. The cells stay consistent with one another, so a
  user in one zone sees the dot on the cell they clicked. Other findings:
  \<^item> Navigating back from January of year 100 jumps from 99 to 1999, because of the
    two-digit-year rule of \<open>new Date(y, m)\<close>.
  \<^item> Clicking another date keeps the draft, which a save then stores under the new date.
  \<^item> Saving an empty draft stores \<open>""\<close>, which the viewer treats as no memo.
  \<^item> Stored text that is not JSON makes \<open>JSON.parse\<close> throw in the load effect
    (\<open>load_memos_syntax_error_iff\<close>).
  \<^item> The first commit overwrites the stored memos with \<open>{}\<close> before the reload writes
    them back.

  Bounds. Keys are modelled exactly for years 0 to 9999, the range with four-digit ISO
  years. The properties of keys ask for the displayed month to lie in years 2 to 9998,
  so that the six days of neighbouring months on the grid stay in that range. The time
  zone is a fixed offset of less than a day, which covers every real zone.

  Not modelled:
  \<^item> the JSX markup, class strings, CSS and Korean labels, except for the facts a cell
    shows;
  \<^item> \<open>toLocaleString\<close> in the header, which is display only;
  \<^item> daylight saving time and time of day, which do not change which day a Date is;
  \<^item> \<open>TimeClip\<close>, which is never reached in years 0 to 9999;
  \<^item> the engine-specific fallback parse of non-ISO strings by \<open>new Date(string)\<close>
    (\<open>parse_date_only\<close> returns \<open>None\<close> there);
  \<^item> stored JSON values other than objects of strings (\<open>NotMemoObject\<close>);
  \<^item> React's batching, beyond the order of effects at mount.
\<close>

subsection \<open>Selecting a day and saving a memo for it\<close>

text \<open>C6: For a time zone less than a day from UTC and a displayed month in years 2 to 9998,
  clicking the cell of day \<open>d\<close> of the month (when that cell is not already selected),
  typing a non-empty text \<open>v\<close> and saving always succeeds. Afterwards the cell's key is
  selected, the draft is empty, \<open>v\<close> is stored under the key and written to storage, and the
  cell of day \<open>d\<close> is on the screen, inside the month, selected and marked with a memo. The key
  is the date of day \<open>d\<close> at UTC or west of it and of the day before east of UTC, and the
  editor's title shows day \<open>d\<close> only at UTC and the day before in every other zone.\<close>

theorem cell_click_type_save:
  assumes tz: "- 1440 < tz" "tz < 1440"
    and r: "day_from_year 2 \<le> month_first (currentDate s)" "month_first (currentDate s) < day_from_year 9999"
    and d: "1 \<le> d" "d \<le> month_length (currentDate s)"
    and sel: "selectedDate s \<noteq> Some (format_key tz (month_first (currentDate s) + d - 1))"
    and v: "v \<noteq> []"
  shows "\<exists>s'. run tz s [DateClick (format_key tz (month_first (currentDate s) + d - 1)), MemoChange v, SaveMemo] = Some s'
    \<and> selectedDate s' = Some (format_key tz (month_first (currentDate s) + d - 1)) \<and> memo s' = []
    \<and> obj_get (memos s') (format_key tz (month_first (currentDate s) + d - 1)) = Some v
    \<and> storage s' = Some (json_stringify (memos s'))
    \<and> currentDate s' = currentDate s
    \<and> format_key tz (month_first (currentDate s) + d - 1)
        = date_key (if 0 < tz then month_first (currentDate s) + d - 2 else month_first (currentDate s) + d - 1)
    \<and> format_date tz (format_key tz (month_first (currentDate s) + d - 1))
        = (let l = (if tz = 0 then month_first (currentDate s) + d - 1 else month_first (currentDate s) + d - 2)
           in Some (year_from_time l, month_from_time l + 1, date_from_time l))
    \<and> render_cell tz (month_from_time (currentDate s)) (selectedDate s') (memos s') (month_first (currentDate s) + d - 1)
        \<in> set (render_calendar tz (currentDate s') (selectedDate s') (memos s'))
    \<and> cell_date (render_cell tz (month_from_time (currentDate s)) (selectedDate s') (memos s') (month_first (currentDate s) + d - 1)) = d
    \<and> \<not> cell_other_month (render_cell tz (month_from_time (currentDate s)) (selectedDate s') (memos s') (month_first (currentDate s) + d - 1))
    \<and> cell_selected (render_cell tz (month_from_time (currentDate s)) (selectedDate s') (memos s') (month_first (currentDate s) + d - 1))
    \<and> cell_has_memo (render_cell tz (month_from_time (currentDate s)) (selectedDate s') (memos s') (month_first (currentDate s) + d - 1))"
proof -
  let ?c = "currentDate s"
  let ?n = "month_first ?c + d - 1"
  let ?k = "format_key tz ?n"
  have g: "?n \<in> set [month_first ?c - week_day (month_first ?c) ..
     month_first ?c + month_length ?c - 1 + (6 - week_day (month_first ?c + month_length ?c - 1))]"
    by (rule month_day_in_grid[OF d])
  have kr: "day_from_year 1 \<le> ?n" "?n < day_from_year 10000" by (rule grid_days_in_key_range[OF r g])+
  have key: "?k = date_key (if 0 < tz then ?n - 1 else ?n)"
    by (rule format_key_local_or_previous[OF tz kr])
  have "length ?k = 10"
    using key length_date_key year_range_near[OF kr, of "if 0 < tz then ?n - 1 else ?n"] by simp
  then have kne: "?k \<noteq> []" by auto
  define s1 where "s1 = handle_date_click ?k s"
  have s1: "step tz s (DateClick ?k) = Some s1" unfolding s1_def by (rule date_click_enabled[OF g])
  have s1e: "editor_visible s1" using sel kne by (simp add: s1_def handle_date_click_def editor_visible_def)
  define s3 where "s3 = persist (handle_save_memo (handle_memo_change v s1))"
  have run: "run tz s [DateClick ?k, MemoChange v, SaveMemo] = Some s3"
    using s1 s1e by (simp add: s3_def handle_memo_change_def editor_visible_def)
  have m: "month_first ?c \<le> ?n" "?n \<le> month_first ?c + month_length ?c - 1" using d by simp_all
  have st: "selectedDate s3 = Some ?k" "memo s3 = []" "obj_get (memos s3) ?k = Some v"
    "storage s3 = Some (json_stringify (memos s3))" "currentDate s3 = ?c"
    using sel by (simp_all add: s3_def s1_def persist_def handle_save_memo_def handle_memo_change_def
        handle_date_click_def)
  have fd: "format_date tz ?k = (let l = (if tz = 0 then ?n else month_first ?c + d - 2)
           in Some (year_from_time l, month_from_time l + 1, date_from_time l))"
    using parse_format_key[OF tz kr] utc_midnight_local_day[OF tz, of ?n]
    by (simp add: format_date_def Let_def algebra_simps)
  have key': "?k = date_key (if 0 < tz then month_first ?c + d - 2 else ?n)"
    using key by (simp add: algebra_simps)
  show ?thesis
    using run st fd key' g v month_days_components[OF m]
    by (simp add: render_calendar_map del: upto.simps)

qed

theorem cell_click_type_save_witness:
  "\<exists>s'. run 540 \<lparr>currentDate = make_day 2024 1 14, selectedDate = None, memo = [], memos = [], storage = Some ''{}''\<rparr>
      [DateClick ''2024-02-13'', MemoChange ''dentist'', SaveMemo] = Some s'
    \<and> obj_get (memos s') ''2024-02-13'' = Some ''dentist''
    \<and> format_date 540 ''2024-02-13'' = Some (2024, 2, 13)
    \<and> cell_date (render_cell 540 1 (selectedDate s') (memos s') (make_day 2024 1 14)) = 14
    \<and> cell_has_memo (render_cell 540 1 (selectedDate s') (memos s') (make_day 2024 1 14))"
proof -
  let ?s = "\<lparr>currentDate = make_day 2024 1 14, selectedDate = None, memo = [], memos = [], storage = Some ''{}''\<rparr>"
  have h: "- 1440 < (540::int)" "(540::int) < 1440"
    "day_from_year 2 \<le> month_first (currentDate ?s)"
    "month_first (currentDate ?s) < day_from_year 9999"
    "1 \<le> (14::int)" "14 \<le> month_length (currentDate ?s)"
    "selectedDate ?s \<noteq> Some (format_key 540 (month_first (currentDate ?s) + 14 - 1))"
    "''dentist'' \<noteq> []"
    by code_simp+
  have c: "month_first (currentDate ?s) + 14 - 1 = make_day 2024 1 14"
    "month_from_time (currentDate ?s) = 1"
    "format_key 540 (make_day 2024 1 14) = ''2024-02-13''"
    by code_simp+
  have f: "format_date 540 ''2024-02-13'' = Some (2024, 2, 13)" by code_simp
  from cell_click_type_save[OF h, unfolded c] f show ?thesis by blast
qed

end
